theory Spec2Isabelle
  imports Complex_Main
begin

section \<open>Numbers\<close>

text \<open>
  The program is JavaScript; every quantity it computes with is a Number, an
  IEEE 754 double. The embedding reads a Number in one of two ways.

  The scalar Kalman filter is embedded in the arithmetic of doubles (section
  \<open>IEEE 754 doubles\<close>): every operator of the source rounds to the nearest
  double, ties to even, overflows to an infinity, and hands on \<open>NaN\<close>. What
  the program can and cannot reach by rounding, cancellation and overflow is then
  part of the model.

  The trackers, the geodesic formulas and the scene are embedded over exact
  reals: the arithmetic of the source is kept operator by operator, rounding is
  not modelled. A real has no \<open>Infinity\<close> and no \<open>NaN\<close>, so the places
  where the source could produce one from finite operands are written out:
  \<open>Math.min(1.0, 50 / accuracy)\<close> is evaluated by cases on
  \<open>accuracy = 0\<close>, the tail of \<open>calculateDistance\<close> is a function of its
  own that returns \<open>None\<close> where \<open>Math.sqrt\<close> gets a negative argument, and
  the exact-arithmetic reading of \<open>KalmanFilter.update\<close> that the pose bank
  uses returns \<open>None\<close> when it would divide by zero.
\<close>

section \<open>IEEE 754 doubles\<close>

subsection \<open>Rounding\<close>

text \<open>
  \<open>rne r\<close> is the integer nearest to \<open>r\<close>, the even one of the two when
  \<open>r\<close> lies half way between them.
\<close>

definition rne :: "real \<Rightarrow> int" where
  "rne r =
     (let f = \<lfloor>r\<rfloor>; d = r - of_int f
      in if d < 1 / 2 then f else if 1 / 2 < d then f + 1 else if even f then f else f + 1)"

text \<open>
  A double has 53 significant bits and a binary exponent from -1022 to 1023.
  \<open>expo x\<close> is the exponent of the binade of \<open>x\<close>, that of the subnormals
  (-1022) for every smaller \<open>x\<close>; \<open>ulp x\<close> is the distance between two
  neighbouring doubles of that binade. \<open>rd x\<close> is the multiple of \<open>ulp x\<close>
  nearest to \<open>x\<close>, ties to the even multiple: the double nearest to \<open>x\<close>,
  as long as it is not beyond the largest one.
\<close>

definition expo :: "real \<Rightarrow> int" where
  "expo x = max \<lfloor>log 2 \<bar>x\<bar>\<rfloor> (- 1022)"

definition ulp :: "real \<Rightarrow> real" where
  "ulp x = 2 powi (expo x - 52)"

definition rd :: "real \<Rightarrow> real" where
  "rd x = (if x = 0 then 0 else of_int (rne (x / ulp x)) * ulp x)"

subsection \<open>Numbers with infinities and NaN\<close>

text \<open>
  A Number is a finite double, one of the two infinities, or \<open>NaN\<close>. The sign
  of a zero is not kept: \<open>Finite 0\<close> stands for both zeros.
\<close>

datatype jsnum = Finite real | PosInf | NegInf | NaN

text \<open>
  \<open>huge\<close> is the first power of two beyond the doubles. \<open>fl r\<close> is the
  Number an operation returns whose exact result is \<open>r\<close>: the nearest double,
  or an infinity when rounding with an unbounded exponent reaches \<open>huge\<close>.
  \<open>is_double d\<close> says that the real \<open>d\<close> is a finite double.
\<close>

definition huge :: real where
  "huge = 2 ^ 1024"

definition fl :: "real \<Rightarrow> jsnum" where
  "fl r =
     (let v = rd r
      in if huge \<le> v then PosInf else if v \<le> - huge then NegInf else Finite v)"

definition is_double :: "real \<Rightarrow> bool" where
  "is_double d \<longleftrightarrow> rd d = d \<and> \<bar>d\<bar> < huge"

subsection \<open>The operators\<close>

text \<open>
  Unary minus, \<open>+\<close>, \<open>-\<close>, \<open>*\<close> and \<open>/\<close> of JavaScript. Opposite
  infinities add to \<open>NaN\<close>, zero times an infinity is \<open>NaN\<close>, and so are
  \<open>0 / 0\<close> and an infinity divided by an infinity. A finite number other than
  zero divided by zero is an infinity; with the sign of the zero not kept, it gets
  the sign of the dividend.
\<close>

fun js_neg :: "jsnum \<Rightarrow> jsnum" where
  "js_neg (Finite a) = Finite (- a)"
| "js_neg PosInf = NegInf"
| "js_neg NegInf = PosInf"
| "js_neg NaN = NaN"

fun js_add :: "jsnum \<Rightarrow> jsnum \<Rightarrow> jsnum" where
  "js_add (Finite a) (Finite b) = fl (a + b)"
| "js_add (Finite a) PosInf = PosInf"
| "js_add (Finite a) NegInf = NegInf"
| "js_add PosInf (Finite b) = PosInf"
| "js_add PosInf PosInf = PosInf"
| "js_add NegInf (Finite b) = NegInf"
| "js_add NegInf NegInf = NegInf"
| "js_add _ _ = NaN"

definition js_sub :: "jsnum \<Rightarrow> jsnum \<Rightarrow> jsnum" where
  "js_sub a b = js_add a (js_neg b)"

fun js_mul :: "jsnum \<Rightarrow> jsnum \<Rightarrow> jsnum" where
  "js_mul (Finite a) (Finite b) = fl (a * b)"
| "js_mul (Finite a) PosInf = (if a = 0 then NaN else if 0 < a then PosInf else NegInf)"
| "js_mul (Finite a) NegInf = (if a = 0 then NaN else if 0 < a then NegInf else PosInf)"
| "js_mul PosInf (Finite b) = (if b = 0 then NaN else if 0 < b then PosInf else NegInf)"
| "js_mul NegInf (Finite b) = (if b = 0 then NaN else if 0 < b then NegInf else PosInf)"
| "js_mul PosInf PosInf = PosInf"
| "js_mul PosInf NegInf = NegInf"
| "js_mul NegInf PosInf = NegInf"
| "js_mul NegInf NegInf = PosInf"
| "js_mul _ _ = NaN"

fun js_div :: "jsnum \<Rightarrow> jsnum \<Rightarrow> jsnum" where
  "js_div (Finite a) (Finite b) =
     (if b = 0 then (if a = 0 then NaN else if 0 < a then PosInf else NegInf)
      else fl (a / b))"
| "js_div (Finite a) PosInf = Finite 0"
| "js_div (Finite a) NegInf = Finite 0"
| "js_div PosInf (Finite b) = (if 0 \<le> b then PosInf else NegInf)"
| "js_div NegInf (Finite b) = (if 0 \<le> b then NegInf else PosInf)"
| "js_div _ _ = NaN"

section \<open>KalmanFilter.js\<close>

subsection \<open>class KalmanFilter, in doubles\<close>

text \<open>
  The fields of the class: the state \<open>x\<close>, \<open>v\<close>, the covariance matrix
  \<open>P = [[P00, P01], [P10, P11]]\<close>, the noises \<open>Q\<close>, \<open>R\<close> and the time
  step \<open>dt\<close>.
\<close>

record KalmanFilter_d =
  kd_x :: jsnum
  kd_v :: jsnum
  kd_P00 :: jsnum
  kd_P01 :: jsnum
  kd_P10 :: jsnum
  kd_P11 :: jsnum
  kd_Q :: jsnum
  kd_R :: jsnum
  kd_dt :: jsnum

text \<open>
  The constructor (\<open>new KalmanFilter(processNoise, measurementNoise)\<close>);
  \<open>this.dt = 1 / 30\<close> is a division of doubles.
\<close>

definition new_KalmanFilter_d :: "jsnum \<Rightarrow> jsnum \<Rightarrow> KalmanFilter_d" where
  "new_KalmanFilter_d processNoise measurementNoise =
     \<lparr>kd_x = Finite 0, kd_v = Finite 0,
      kd_P00 = Finite 1, kd_P01 = Finite 0, kd_P10 = Finite 0, kd_P11 = Finite 1,
      kd_Q = processNoise, kd_R = measurementNoise,
      kd_dt = js_div (Finite 1) (Finite 30)\<rparr>"

definition predict_d :: "KalmanFilter_d \<Rightarrow> KalmanFilter_d" where
  "predict_d k =
     k\<lparr>kd_x := js_add (kd_x k) (js_mul (kd_v k) (kd_dt k)),
       kd_P00 := js_add (kd_P00 k) (kd_Q k),
       kd_P01 := js_add (kd_P01 k) (Finite 0),
       kd_P10 := js_add (kd_P10 k) (Finite 0),
       kd_P11 := js_add (kd_P11 k) (kd_Q k)\<rparr>"

text \<open>
  \<open>update\<close> returns the new estimate and the new filter. The gain is computed
  from the covariance before the update, and \<open>P00\<close>, \<open>P01\<close>, \<open>P10\<close>,
  \<open>P11\<close> are the constants the source captures before it assigns to
  \<open>this.P\<close>. Nothing guards the two divisions by \<open>S\<close>.
\<close>

definition update_d :: "KalmanFilter_d \<Rightarrow> jsnum \<Rightarrow> jsnum \<times> KalmanFilter_d" where
  "update_d k measurement =
     (let y = js_sub measurement (kd_x k);
          S = js_add (kd_P00 k) (kd_R k);
          K0 = js_div (kd_P00 k) S;
          K1 = js_div (kd_P10 k) S;
          x' = js_add (kd_x k) (js_mul K0 y);
          v' = js_add (kd_v k) (js_mul K1 y);
          P00 = kd_P00 k;
          P01 = kd_P01 k;
          P10 = kd_P10 k;
          P11 = kd_P11 k
      in (x',
          k\<lparr>kd_x := x', kd_v := v',
            kd_P00 := js_mul (js_sub (Finite 1) K0) P00,
            kd_P01 := js_mul (js_sub (Finite 1) K0) P01,
            kd_P10 := js_sub P10 (js_mul K1 P00),
            kd_P11 := js_sub P11 (js_mul K1 P01)\<rparr>))"

text \<open>\<open>filter(measurement)\<close>: predict, then update.\<close>

definition filter_d :: "KalmanFilter_d \<Rightarrow> jsnum \<Rightarrow> jsnum \<times> KalmanFilter_d" where
  "filter_d k measurement = update_d (predict_d k) measurement"

text \<open>
  A caller holds a filter and calls \<open>predict\<close> and \<open>update\<close> on it in any
  order (\<open>filter\<close> is a \<open>Predict\<close> followed by an \<open>Update\<close>).
  \<open>run_calls k cs\<close> is the filter after the calls \<open>cs\<close>.
\<close>

datatype kf_call = Predict | Update jsnum

fun kf_step :: "KalmanFilter_d \<Rightarrow> kf_call \<Rightarrow> KalmanFilter_d" where
  "kf_step k Predict = predict_d k"
| "kf_step k (Update z) = snd (update_d k z)"

definition run_calls :: "KalmanFilter_d \<Rightarrow> kf_call list \<Rightarrow> KalmanFilter_d" where
  "run_calls = foldl kf_step"

text \<open>
  Two descriptions of a covariance entry, used to follow \<open>P[0][0]\<close> through a
  run: a double that is not negative, \<open>Infinity\<close> or \<open>NaN\<close>
  (\<open>cov_ok\<close>), and a double that is not negative (\<open>cov_fin\<close>).
\<close>

definition cov_ok :: "jsnum \<Rightarrow> bool" where
  "cov_ok p =
     (case p of
        Finite v \<Rightarrow> 0 \<le> v \<and> is_double v
      | PosInf \<Rightarrow> True
      | NegInf \<Rightarrow> False
      | NaN \<Rightarrow> True)"

definition cov_fin :: "jsnum \<Rightarrow> bool" where
  "cov_fin p = (case p of Finite v \<Rightarrow> 0 \<le> v \<and> is_double v | _ \<Rightarrow> False)"

subsection \<open>class KalmanFilter, in exact arithmetic\<close>

text \<open>
  The same class over exact reals, as the pose bank below uses it. The fields are
  those of the class.
\<close>

record KalmanFilter =
  kf_x :: real
  kf_v :: real
  kf_P00 :: real
  kf_P01 :: real
  kf_P10 :: real
  kf_P11 :: real
  kf_Q :: real
  kf_R :: real
  kf_dt :: real





definition kf_reset :: "KalmanFilter \<Rightarrow> KalmanFilter" where
  "kf_reset k =
     k\<lparr>kf_x := 0, kf_v := 0, kf_P00 := 1, kf_P01 := 0, kf_P10 := 0, kf_P11 := 1\<rparr>"


section \<open>Poses and tracking results\<close>

text \<open>
  Plain data objects of the program. A property an object may lack (JavaScript's
  \<open>undefined\<close> or \<open>null\<close>) is an \<open>option\<close>.
\<close>

record vec3 =
  vx :: real
  vy :: real
  vz :: real

record point2 =
  px :: real
  py :: real

text \<open>The device-orientation sample \<open>{alpha, beta, gamma}\<close>, in degrees.\<close>

record imu =
  imu_alpha :: real
  imu_beta :: real
  imu_gamma :: real

text \<open>
  The pose object. The three trackers build it with different extra properties:
  the visual tracker adds \<open>planeCenter\<close> and \<open>confidence\<close>; the hit-test
  tracker adds the quaternion's \<open>w\<close>, \<open>matrix\<close> and \<open>confidence\<close>; the
  geodetic tracker adds \<open>distance\<close>, \<open>bearing\<close>, \<open>accuracy\<close> and
  \<open>confidence\<close>.
\<close>

record pose =
  position :: vec3
  rotation :: vec3
  rotation_w :: "real option"
  matrix :: "real list option"
  planeCenter :: "point2 option"
  confidence :: "real option"
  pose_distance :: "real option"
  pose_bearing :: "real option"
  pose_accuracy :: "real option"

text \<open>What a call into the platform or into OpenCV does: it throws, or it returns.\<close>

datatype 'a outcome = Thrown | Returned 'a

subsection \<open>Objects of the WebXR Device API\<close>

record quaternion =
  qx :: real
  qy :: real
  qz :: real
  qw :: real

record XRRigidTransform =
  xf_position :: vec3
  xf_orientation :: quaternion
  xf_matrix :: "real list"

text \<open>
  An \<open>XRViewerPose\<close> is read only for the transforms of its \<open>views\<close>. A hit-test
  result is read only through \<open>getPose\<close>, which yields the transform of the hit
  pose, or \<open>null\<close>. An \<open>XRFrame\<close> is read through \<open>getViewerPose\<close> and
  \<open>getHitTestResults\<close>.
\<close>

record XRViewerPose =
  views :: "XRRigidTransform list"

record XRHitTestResult =
  getPose :: "XRRigidTransform option outcome"

record XRFrame =
  getViewerPose :: "XRViewerPose option outcome"
  getHitTestResults :: "XRHitTestResult list outcome"

subsection \<open>Geodetic data\<close>

record LocationFix =
  latitude :: real
  longitude :: real
  altitude :: "real option"
  accuracy :: real
  timestamp :: real

record TargetLocation =
  target_latitude :: real
  target_longitude :: real
  target_altitude :: real

record GpsData =
  gps_currentLocation :: "LocationFix option"
  gps_targetLocation :: "TargetLocation option"
  gps_distance :: "real option"
  gps_bearing :: "real option"

subsection \<open>TrackingResult\<close>

text \<open>
  The object every \<open>processFrame\<close> returns. \<open>imu\<close> is set by the visual
  tracker, \<open>hitTestResult\<close> and \<open>viewerTransform\<close> by the hit-test tracker,
  \<open>gpsData\<close> by the geodetic tracker.
\<close>

record TrackingResult =
  isTracking :: bool
  hasFeatures :: bool
  featureCount :: nat
  planeCount :: nat
  tr_pose :: "pose option"
  tr_imu :: "imu option"
  hitTestResult :: "XRRigidTransform option"
  viewerTransform :: "XRRigidTransform option"
  gpsData :: "GpsData option"

subsection \<open>Plane confidence\<close>

text \<open>
  The two updates of \<open>planeConfidence\<close>, written alike in both engines that
  keep one: \<open>Math.min(1.0, c + 0.15)\<close> and \<open>Math.max(0, c - 0.1)\<close>.
\<close>

definition ramp :: "real \<Rightarrow> real" where
  "ramp c = min 1 (c + 15 / 100)"

definition decay :: "real \<Rightarrow> real" where
  "decay c = max 0 (c - 1 / 10)"

section \<open>WebXREngine (the hit-test tracker)\<close>

record WebXREngine =
  xr_isSupported :: bool
  xr_isSessionActive :: bool
  xr_xrHitTestSource :: bool
  xr_isTracking :: bool
  xr_currentPose :: "pose option"
  xr_hitTestResults :: "XRHitTestResult list"
  xr_viewerPose :: "XRViewerPose option"
  xr_planeConfidence :: real

text \<open>The constructor.\<close>

definition new_WebXREngine :: WebXREngine where
  "new_WebXREngine =
     \<lparr>xr_isSupported = False, xr_isSessionActive = False, xr_xrHitTestSource = False,
      xr_isTracking = False, xr_currentPose = None, xr_hitTestResults = [],
      xr_viewerPose = None, xr_planeConfidence = 0\<rparr>"

text \<open>
  \<open>checkSupport\<close> records what the browser answers. \<open>startSession\<close>
  throws (\<open>None\<close>) on an unsupported device; otherwise, when the browser grants
  the session, it stores the hit-test source and marks the session active.
\<close>

definition xr_checkSupport :: "WebXREngine \<Rightarrow> bool \<Rightarrow> WebXREngine" where
  "xr_checkSupport s supported = s\<lparr>xr_isSupported := supported\<rparr>"

definition xr_startSession :: "WebXREngine \<Rightarrow> WebXREngine option" where
  "xr_startSession s =
     (if \<not> xr_isSupported s then None
      else Some (s\<lparr>xr_xrHitTestSource := True, xr_isSessionActive := True\<rparr>))"

definition xr_result0 :: TrackingResult where
  "xr_result0 =
     \<lparr>isTracking = False, hasFeatures = False, featureCount = 0, planeCount = 0,
      tr_pose = None, tr_imu = None, hitTestResult = None, viewerTransform = None,
      gpsData = None\<rparr>"

text \<open>
  The hit-test block of \<open>processFrame\<close> (the body of
  \<open>if (this.xrHitTestSource)\<close>). The first component tells whether the block
  ran to its end (\<open>False\<close>: a platform call threw, and control is in the
  \<open>catch\<close>); the state and the result are as the block left them.
\<close>

definition xr_hitTest ::
  "WebXREngine \<Rightarrow> XRFrame \<Rightarrow> TrackingResult \<Rightarrow> bool \<times> TrackingResult \<times> WebXREngine" where
  "xr_hitTest s frame result =
     (case getHitTestResults frame of
        Thrown \<Rightarrow> (False, result, s)
      | Returned hits \<Rightarrow>
          let s1 = s\<lparr>xr_hitTestResults := hits\<rparr> in
          (case hits of
             hit # _ \<Rightarrow>
               (case getPose hit of
                  Thrown \<Rightarrow> (False, result, s1)
                | Returned None \<Rightarrow> (True, result, s1)
                | Returned (Some hitPose) \<Rightarrow>
                    let c = ramp (xr_planeConfidence s1);
                        p = \<lparr>position = xf_position hitPose,
                             rotation = \<lparr>vx = qx (xf_orientation hitPose),
                                          vy = qy (xf_orientation hitPose),
                                          vz = qz (xf_orientation hitPose)\<rparr>,
                             rotation_w = Some (qw (xf_orientation hitPose)),
                             matrix = Some (xf_matrix hitPose),
                             planeCenter = None,
                             confidence = Some c,
                             pose_distance = None, pose_bearing = None, pose_accuracy = None\<rparr>
                    in (True,
                        result\<lparr>isTracking := (1 / 2 < c),
                               hasFeatures := True,
                               featureCount := length hits,
                               planeCount := length hits,
                               tr_pose := Some p,
                               hitTestResult := Some hitPose\<rparr>,
                        s1\<lparr>xr_planeConfidence := c, xr_currentPose := Some p\<rparr>))
           | [] \<Rightarrow> (True, result, s1\<lparr>xr_planeConfidence := decay (xr_planeConfidence s1)\<rparr>)))"

text \<open>
  \<open>processFrame(frame)\<close>. The two early \<open>return result\<close> statements leave
  \<open>this.isTracking\<close> as it was; every other path, the \<open>catch\<close> included,
  ends with \<open>this.isTracking = result.isTracking\<close>.
\<close>

definition xr_processFrame :: "WebXREngine \<Rightarrow> XRFrame option \<Rightarrow> TrackingResult \<times> WebXREngine" where
  "xr_processFrame s frame =
     (case frame of
        None \<Rightarrow> (xr_result0, s)
      | Some fr \<Rightarrow>
          if \<not> xr_isSessionActive s then (xr_result0, s)
          else
            (case getViewerPose fr of
               Thrown \<Rightarrow> (xr_result0, s\<lparr>xr_isTracking := False\<rparr>)
             | Returned None \<Rightarrow> (xr_result0, s\<lparr>xr_viewerPose := None\<rparr>)
             | Returned (Some viewer) \<Rightarrow>
                 let s1 = s\<lparr>xr_viewerPose := Some viewer\<rparr>;
                     (finished, result, s2) =
                        (if xr_xrHitTestSource s1 then xr_hitTest s1 fr xr_result0
                         else (True, xr_result0, s1));
                     result' =
                        (if finished then
                           (case views viewer of
                              [] \<Rightarrow> result
                            | view # _ \<Rightarrow> result\<lparr>viewerTransform := Some view\<rparr>)
                         else result)
                 in (result', s2\<lparr>xr_isTracking := isTracking result'\<rparr>)))"

definition xr_onSessionEnd :: "WebXREngine \<Rightarrow> WebXREngine" where
  "xr_onSessionEnd s =
     s\<lparr>xr_isSessionActive := False, xr_xrHitTestSource := False,
       xr_isTracking := False, xr_planeConfidence := 0\<rparr>"

definition xr_reset :: "WebXREngine \<Rightarrow> WebXREngine" where
  "xr_reset s =
     s\<lparr>xr_isTracking := False, xr_currentPose := None, xr_hitTestResults := [],
       xr_planeConfidence := 0\<rparr>"

section \<open>AREngine (the visual plane tracker)\<close>

text \<open>
  The repository holds this class twice. Embedded in this section is the one
  whose \<open>detectPlane\<close> keeps \<open>planeConfidence\<close> (src/unnamed/part_002);
  the other one (src/src/ar/AREngine.js), whose \<open>detectPlane\<close> keeps no
  confidence, is embedded in the next section. OpenCV's matrices and
  vectors are read by the engine only through their sizes and entries: a keypoint
  vector is the list of its points, a descriptor matrix is its number of rows,
  \<open>frame\<close> is its \<open>(rows, cols)\<close>, \<open>prevGrayFrame\<close> is its number of
  rows, the camera matrix is its entries \<open>fx\<close> and \<open>fy\<close>. Of the settings,
  \<open>ransacThreshold\<close> and \<open>minInliers\<close> are kept; the others are not read
  by the code embedded here.
\<close>

record DMatch =
  dm_distance :: real
  queryIdx :: nat
  trainIdx :: nat

record TrackedPoint =
  tp_prev :: point2
  tp_curr :: point2

type_synonym Mat3 = "nat \<Rightarrow> nat \<Rightarrow> real"

record GroundPlane =
  gp_homography :: Mat3
  gp_inliers :: nat
  gp_center :: point2
  gp_confidence :: real

text \<open>
  What \<open>cv.findHomography\<close> hands back: the matrix \<open>H\<close> (\<open>None\<close> when
  \<open>H.empty()\<close>) and the bytes of the inlier mask.
\<close>

record Homography =
  hg_H :: "Mat3 option"
  hg_mask :: "nat list"

text \<open>
  Everything the browser and OpenCV deliver during one \<open>processFrame(video)\<close>:
  the video's dimensions, the keypoints and descriptor rows ORB finds, what
  \<open>matcher.match\<close> and \<open>cv.findHomography\<close> do, and whether one of the
  remaining library calls throws (capturing and converting the frame and
  detecting features; reading \<open>H\<close> in \<open>estimatePose\<close>; copying the gray
  frame at the end). Drawing the debug view changes neither the engine nor the
  result and is left out.
\<close>

record CvTick =
  videoWidth :: nat
  videoHeight :: nat
  captureThrows :: bool
  detected :: "point2 list"
  detectedRows :: nat
  matcher_match :: "DMatch list outcome"
  findHomography :: "Homography outcome"
  doubleAtThrows :: bool
  finishThrows :: bool

record AREngine =
  ar_frame :: "(nat \<times> nat) option"
  ar_prevGrayFrame :: nat
  ar_keypoints :: "point2 list"
  ar_descriptors :: nat
  ar_prevKeypoints :: "point2 list"
  ar_prevDescriptors :: nat
  ar_isTracking :: bool
  ar_trackedPoints :: "TrackedPoint list"
  ar_currentPose :: "pose option"
  ar_detectedPlanes :: "GroundPlane list"
  ar_groundPlane :: "GroundPlane option"
  ar_planeConfidence :: real
  ar_imuData :: imu
  ar_fx :: real
  ar_fy :: real
  ar_ransacThreshold :: real
  ar_minInliers :: nat

text \<open>The constructor followed by \<open>init()\<close>.\<close>

definition new_AREngine :: AREngine where
  "new_AREngine =
     \<lparr>ar_frame = None, ar_prevGrayFrame = 0,
      ar_keypoints = [], ar_descriptors = 0, ar_prevKeypoints = [], ar_prevDescriptors = 0,
      ar_isTracking = False, ar_trackedPoints = [], ar_currentPose = None,
      ar_detectedPlanes = [], ar_groundPlane = None, ar_planeConfidence = 0,
      ar_imuData = \<lparr>imu_alpha = 0, imu_beta = 0, imu_gamma = 0\<rparr>,
      ar_fx = 1280, ar_fy = 1280,
      ar_ransacThreshold = 3, ar_minInliers = 10\<rparr>"

subsection \<open>trackFeatures\<close>

text \<open>
  The smallest match distance, starting from \<open>Infinity\<close> (\<open>None\<close>), and the
  threshold \<open>Math.max(3 * minDist, 30)\<close>, which is \<open>Infinity\<close> when there is
  no match.
\<close>

fun minDist :: "real option \<Rightarrow> DMatch list \<Rightarrow> real option" where
  "minDist m [] = m"
| "minDist None (d # ds) = minDist (Some (dm_distance d)) ds"
| "minDist (Some m) (d # ds) =
     minDist (if dm_distance d < m then Some (dm_distance d) else Some m) ds"

definition below_threshold :: "real option \<Rightarrow> real \<Rightarrow> bool" where
  "below_threshold minD d = (case minD of None \<Rightarrow> True | Some m \<Rightarrow> d < max (3 * m) 30)"

text \<open>
  The loop that fills \<open>trackedPoints\<close> with copies of the matched
  keypoints' points. Reading a keypoint beyond the end of its vector throws; the
  points pushed so far stay in \<open>trackedPoints\<close>.
\<close>

fun collect ::
  "real option \<Rightarrow> point2 list \<Rightarrow> point2 list \<Rightarrow> DMatch list \<Rightarrow> TrackedPoint list
     \<Rightarrow> bool \<times> TrackedPoint list" where
  "collect minD prevKps kps [] acc = (True, acc)"
| "collect minD prevKps kps (m # ms) acc =
     (if below_threshold minD (dm_distance m) then
        (if queryIdx m < length prevKps \<and> trainIdx m < length kps then
           collect minD prevKps kps ms
             (acc @ [\<lparr>tp_prev = prevKps ! queryIdx m, tp_curr = kps ! trainIdx m\<rparr>])
         else (False, acc))
      else collect minD prevKps kps ms acc)"

definition trackFeatures :: "AREngine \<Rightarrow> CvTick \<Rightarrow> bool outcome \<times> AREngine" where
  "trackFeatures s t =
     (if length (ar_prevKeypoints s) = 0 \<or> length (ar_keypoints s) = 0 then (Returned False, s)
      else
        (case (if 0 < ar_prevDescriptors s \<and> 0 < ar_descriptors s then matcher_match t
               else Returned []) of
           Thrown \<Rightarrow> (Returned False, s)
         | Returned matches \<Rightarrow>
             if length matches < ar_minInliers s then (Returned False, s)
             else
               (case collect (minDist None matches) (ar_prevKeypoints s) (ar_keypoints s) matches [] of
                  (False, pts) \<Rightarrow> (Thrown, s\<lparr>ar_trackedPoints := pts\<rparr>)
                | (True, pts) \<Rightarrow>
                    (Returned (ar_minInliers s \<le> length pts), s\<lparr>ar_trackedPoints := pts\<rparr>))))"

subsection \<open>detectPlane\<close>

definition calculatePlaneCenter :: "AREngine \<Rightarrow> point2" where
  "calculatePlaneCenter s =
     (if length (ar_trackedPoints s) = 0 then \<lparr>px = 0, py = 0\<rparr>
      else \<lparr>px = sum_list (map (\<lambda>pt. px (tp_curr pt)) (ar_trackedPoints s))
                  / real (length (ar_trackedPoints s)),
            py = sum_list (map (\<lambda>pt. py (tp_curr pt)) (ar_trackedPoints s))
                  / real (length (ar_trackedPoints s))\<rparr>)"

definition detectPlane :: "AREngine \<Rightarrow> CvTick \<Rightarrow> bool \<times> AREngine" where
  "detectPlane s t =
     (if length (ar_trackedPoints s) < 8 then
        (False, s\<lparr>ar_planeConfidence := decay (ar_planeConfidence s)\<rparr>)
      else
        (case findHomography t of
           Thrown \<Rightarrow> (False, s\<lparr>ar_planeConfidence := decay (ar_planeConfidence s)\<rparr>)
         | Returned hg \<Rightarrow>
             let inlierCount = length (filter (\<lambda>b. 0 < b) (hg_mask hg)) in
             (case hg_H hg of
                Some H \<Rightarrow>
                  if ar_minInliers s \<le> inlierCount then
                    let c = ramp (ar_planeConfidence s);
                        plane = \<lparr>gp_homography = H, gp_inliers = inlierCount,
                                 gp_center = calculatePlaneCenter s, gp_confidence = c\<rparr>
                    in (1 / 2 < c,
                        s\<lparr>ar_planeConfidence := c, ar_groundPlane := Some plane,
                          ar_detectedPlanes := [plane]\<rparr>)
                  else (False, s\<lparr>ar_planeConfidence := decay (ar_planeConfidence s)\<rparr>)
              | None \<Rightarrow> (False, s\<lparr>ar_planeConfidence := decay (ar_planeConfidence s)\<rparr>))))"

subsection \<open>estimatePose\<close>

text \<open>
  The plane \<open>detectPlane\<close> stores always has a non-empty \<open>H\<close>, so of the
  two guards only the one on \<open>groundPlane\<close> can fail. \<open>fx\<close> and \<open>fy\<close>
  are the width of a validated frame, which is not 0.
\<close>

definition estimatePose :: "AREngine \<Rightarrow> CvTick \<Rightarrow> bool \<times> AREngine" where
  "estimatePose s t =
     (case ar_groundPlane s of
        None \<Rightarrow> (False, s)
      | Some plane \<Rightarrow>
          if doubleAtThrows t then (False, s)
          else
            let H = gp_homography plane;
                tx = H 0 2 / ar_fx s;
                ty = H 1 2 / ar_fy s;
                tz = 3;
                rotX = imu_beta (ar_imuData s) * (pi / 180);
                rotY = imu_gamma (ar_imuData s) * (pi / 180);
                rotZ = imu_alpha (ar_imuData s) * (pi / 180)
            in (True,
                s\<lparr>ar_currentPose := Some
                    \<lparr>position = \<lparr>vx = tx, vy = ty, vz = tz\<rparr>,
                     rotation = \<lparr>vx = rotX, vy = rotY, vz = rotZ\<rparr>,
                     rotation_w = None, matrix = None,
                     planeCenter = Some (gp_center plane),
                     confidence = Some (ar_planeConfidence s),
                     pose_distance = None, pose_bearing = None, pose_accuracy = None\<rparr>\<rparr>))"

subsection \<open>processFrame\<close>

definition ar_result0 :: "AREngine \<Rightarrow> TrackingResult" where
  "ar_result0 s =
     \<lparr>isTracking = False, hasFeatures = False, featureCount = 0, planeCount = 0,
      tr_pose = None, tr_imu = Some (ar_imuData s), hitTestResult = None,
      viewerTransform = None, gpsData = None\<rparr>"

text \<open>
  The tracking block: \<open>trackFeatures\<close>, then \<open>detectPlane\<close>, then
  \<open>estimatePose\<close>. The first component is \<open>False\<close> when \<open>trackFeatures\<close>
  threw.
\<close>

definition ar_track ::
  "AREngine \<Rightarrow> CvTick \<Rightarrow> TrackingResult \<Rightarrow> bool \<times> TrackingResult \<times> AREngine" where
  "ar_track s t result =
     (if 0 < ar_prevGrayFrame s \<and> 0 < length (ar_prevKeypoints s) then
        (case trackFeatures s t of
           (Thrown, s1) \<Rightarrow> (False, result, s1)
         | (Returned False, s1) \<Rightarrow> (True, result, s1)
         | (Returned True, s1) \<Rightarrow>
             let (planeDetected, s2) = detectPlane s1 t;
                 result1 = result\<lparr>planeCount := length (ar_detectedPlanes s2)\<rparr>
             in if planeDetected then
                  let (poseEstimated, s3) = estimatePose s2 t
                  in (True, result1\<lparr>isTracking := poseEstimated, tr_pose := ar_currentPose s3\<rparr>, s3)
                else (True, result1, s2))
      else (True, result, s))"

text \<open>
  The start of \<open>processFrame\<close>: the frame buffers are created anew when
  there is no frame yet or the video's dimensions changed (which empties
  \<open>prevGrayFrame\<close> and recomputes the camera matrix), and \<open>detectFeatures\<close>
  replaces the keypoints and descriptors.
\<close>

definition ar_allocate :: "AREngine \<Rightarrow> CvTick \<Rightarrow> AREngine" where
  "ar_allocate s t =
     (if ar_frame s \<noteq> Some (videoHeight t, videoWidth t) then
        s\<lparr>ar_frame := Some (videoHeight t, videoWidth t), ar_prevGrayFrame := 0,
          ar_fx := real (videoWidth t), ar_fy := real (videoWidth t)\<rparr>
      else s)"

definition detectFeatures :: "AREngine \<Rightarrow> CvTick \<Rightarrow> AREngine" where
  "detectFeatures s t = s\<lparr>ar_keypoints := detected t, ar_descriptors := detectedRows t\<rparr>"

text \<open>
  \<open>processFrame(video)\<close>. The \<open>return result\<close> for a video without
  dimensions leaves \<open>this.isTracking\<close> as it was; every other path, the
  \<open>catch\<close> included, ends with \<open>this.isTracking = result.isTracking\<close>.
  When the tick runs to its end, the gray frame and the keypoints and descriptors
  become the previous ones.
\<close>

definition ar_processFrame :: "AREngine \<Rightarrow> CvTick \<Rightarrow> TrackingResult \<times> AREngine" where
  "ar_processFrame s t =
     (if videoWidth t = 0 \<or> videoHeight t = 0 then (ar_result0 s, s)
      else if captureThrows t then (ar_result0 s, (ar_allocate s t)\<lparr>ar_isTracking := False\<rparr>)
      else
        let s2 = detectFeatures (ar_allocate s t) t;
            result = (ar_result0 s)\<lparr>featureCount := length (ar_keypoints s2),
                                     hasFeatures := (20 < length (ar_keypoints s2))\<rparr>;
            (finished, result1, s3) = ar_track s2 t result
        in if \<not> finished \<or> finishThrows t then
             (result1, s3\<lparr>ar_isTracking := isTracking result1\<rparr>)
           else
             (result1,
              s3\<lparr>ar_prevGrayFrame := videoHeight t,
                 ar_prevKeypoints := ar_keypoints s3, ar_keypoints := [],
                 ar_prevDescriptors := ar_descriptors s3,
                 ar_descriptors := ar_prevDescriptors s3,
                 ar_isTracking := isTracking result1\<rparr>))"

text \<open>\<open>reset()\<close>; it leaves \<open>planeConfidence\<close> alone.\<close>

definition ar_reset :: "AREngine \<Rightarrow> AREngine" where
  "ar_reset s =
     s\<lparr>ar_isTracking := False, ar_trackedPoints := [], ar_currentPose := None,
       ar_detectedPlanes := [], ar_groundPlane := None\<rparr>"

section \<open>AREngine, the copy in src/src/ar/AREngine.js\<close>

text \<open>
  The module \<open>./ar/AREngine.js\<close> that main.js imports. It has no
  \<open>planeConfidence\<close> property: its ground plane is
  \<open>{homography, inliers, center}\<close> and its pose
  \<open>{position, rotation, planeCenter}\<close>. \<open>trackFeatures\<close>,
  \<open>calculatePlaneCenter\<close> and \<open>processFrame\<close> are the same text as in the
  other copy (the frame is read through \<open>cv.VideoCapture\<close> here, through a
  canvas there; either is the library call that \<open>captureThrows\<close> stands for);
  \<open>detectPlane\<close> and \<open>estimatePose\<close> differ.
\<close>

record GroundPlane_js =
  gj_homography :: Mat3
  gj_inliers :: nat
  gj_center :: point2

record AREngine_js =
  aj_frame :: "(nat \<times> nat) option"
  aj_prevGrayFrame :: nat
  aj_keypoints :: "point2 list"
  aj_descriptors :: nat
  aj_prevKeypoints :: "point2 list"
  aj_prevDescriptors :: nat
  aj_isTracking :: bool
  aj_trackedPoints :: "TrackedPoint list"
  aj_currentPose :: "pose option"
  aj_detectedPlanes :: "GroundPlane_js list"
  aj_groundPlane :: "GroundPlane_js option"
  aj_imuData :: imu
  aj_fx :: real
  aj_fy :: real
  aj_ransacThreshold :: real
  aj_minInliers :: nat

text \<open>The constructor followed by \<open>init()\<close>.\<close>

definition new_AREngine_js :: AREngine_js where
  "new_AREngine_js =
     \<lparr>aj_frame = None, aj_prevGrayFrame = 0,
      aj_keypoints = [], aj_descriptors = 0, aj_prevKeypoints = [], aj_prevDescriptors = 0,
      aj_isTracking = False, aj_trackedPoints = [], aj_currentPose = None,
      aj_detectedPlanes = [], aj_groundPlane = None,
      aj_imuData = \<lparr>imu_alpha = 0, imu_beta = 0, imu_gamma = 0\<rparr>,
      aj_fx = 1280, aj_fy = 1280,
      aj_ransacThreshold = 3, aj_minInliers = 10\<rparr>"

definition js_trackFeatures :: "AREngine_js \<Rightarrow> CvTick \<Rightarrow> bool outcome \<times> AREngine_js" where
  "js_trackFeatures s t =
     (if length (aj_prevKeypoints s) = 0 \<or> length (aj_keypoints s) = 0 then (Returned False, s)
      else
        (case (if 0 < aj_prevDescriptors s \<and> 0 < aj_descriptors s then matcher_match t
               else Returned []) of
           Thrown \<Rightarrow> (Returned False, s)
         | Returned matches \<Rightarrow>
             if length matches < aj_minInliers s then (Returned False, s)
             else
               (case collect (minDist None matches) (aj_prevKeypoints s) (aj_keypoints s) matches [] of
                  (False, pts) \<Rightarrow> (Thrown, s\<lparr>aj_trackedPoints := pts\<rparr>)
                | (True, pts) \<Rightarrow>
                    (Returned (aj_minInliers s \<le> length pts), s\<lparr>aj_trackedPoints := pts\<rparr>))))"

definition js_calculatePlaneCenter :: "AREngine_js \<Rightarrow> point2" where
  "js_calculatePlaneCenter s =
     (if length (aj_trackedPoints s) = 0 then \<lparr>px = 0, py = 0\<rparr>
      else \<lparr>px = sum_list (map (\<lambda>pt. px (tp_curr pt)) (aj_trackedPoints s))
                  / real (length (aj_trackedPoints s)),
            py = sum_list (map (\<lambda>pt. py (tp_curr pt)) (aj_trackedPoints s))
                  / real (length (aj_trackedPoints s))\<rparr>)"

text \<open>
  \<open>detectPlane\<close> (lines 278-331): with at least \<open>minInliers\<close> inliers and a
  non-empty \<open>H\<close> the plane is stored and the answer is \<open>true\<close>; every
  other path answers \<open>false\<close> and changes nothing.
\<close>

definition js_detectPlane :: "AREngine_js \<Rightarrow> CvTick \<Rightarrow> bool \<times> AREngine_js" where
  "js_detectPlane s t =
     (if length (aj_trackedPoints s) < 8 then (False, s)
      else
        (case findHomography t of
           Thrown \<Rightarrow> (False, s)
         | Returned hg \<Rightarrow>
             let inlierCount = length (filter (\<lambda>b. 0 < b) (hg_mask hg)) in
             (case hg_H hg of
                Some H \<Rightarrow>
                  if aj_minInliers s \<le> inlierCount then
                    let plane = \<lparr>gj_homography = H, gj_inliers = inlierCount,
                                 gj_center = js_calculatePlaneCenter s\<rparr>
                    in (True, s\<lparr>aj_groundPlane := Some plane, aj_detectedPlanes := [plane]\<rparr>)
                  else (False, s)
              | None \<Rightarrow> (False, s))))"

text \<open>\<open>estimatePose\<close> (lines 350-406): the fixed distance is 1, the pose has no confidence.\<close>

definition js_estimatePose :: "AREngine_js \<Rightarrow> CvTick \<Rightarrow> bool \<times> AREngine_js" where
  "js_estimatePose s t =
     (case aj_groundPlane s of
        None \<Rightarrow> (False, s)
      | Some plane \<Rightarrow>
          if doubleAtThrows t then (False, s)
          else
            let H = gj_homography plane;
                tx = H 0 2 / aj_fx s;
                ty = H 1 2 / aj_fy s;
                tz = 1;
                rotX = imu_beta (aj_imuData s) * (pi / 180);
                rotY = imu_gamma (aj_imuData s) * (pi / 180);
                rotZ = imu_alpha (aj_imuData s) * (pi / 180)
            in (True,
                s\<lparr>aj_currentPose := Some
                    \<lparr>position = \<lparr>vx = tx, vy = ty, vz = tz\<rparr>,
                     rotation = \<lparr>vx = rotX, vy = rotY, vz = rotZ\<rparr>,
                     rotation_w = None, matrix = None,
                     planeCenter = Some (gj_center plane),
                     confidence = None,
                     pose_distance = None, pose_bearing = None, pose_accuracy = None\<rparr>\<rparr>))"

definition js_result0 :: "AREngine_js \<Rightarrow> TrackingResult" where
  "js_result0 s =
     \<lparr>isTracking = False, hasFeatures = False, featureCount = 0, planeCount = 0,
      tr_pose = None, tr_imu = Some (aj_imuData s), hitTestResult = None,
      viewerTransform = None, gpsData = None\<rparr>"

definition js_track ::
  "AREngine_js \<Rightarrow> CvTick \<Rightarrow> TrackingResult \<Rightarrow> bool \<times> TrackingResult \<times> AREngine_js" where
  "js_track s t result =
     (if 0 < aj_prevGrayFrame s \<and> 0 < length (aj_prevKeypoints s) then
        (case js_trackFeatures s t of
           (Thrown, s1) \<Rightarrow> (False, result, s1)
         | (Returned False, s1) \<Rightarrow> (True, result, s1)
         | (Returned True, s1) \<Rightarrow>
             let (planeDetected, s2) = js_detectPlane s1 t;
                 result1 = result\<lparr>planeCount := length (aj_detectedPlanes s2)\<rparr>
             in if planeDetected then
                  let (poseEstimated, s3) = js_estimatePose s2 t
                  in (True, result1\<lparr>isTracking := poseEstimated, tr_pose := aj_currentPose s3\<rparr>, s3)
                else (True, result1, s2))
      else (True, result, s))"

definition js_allocate :: "AREngine_js \<Rightarrow> CvTick \<Rightarrow> AREngine_js" where
  "js_allocate s t =
     (if aj_frame s \<noteq> Some (videoHeight t, videoWidth t) then
        s\<lparr>aj_frame := Some (videoHeight t, videoWidth t), aj_prevGrayFrame := 0,
          aj_fx := real (videoWidth t), aj_fy := real (videoWidth t)\<rparr>
      else s)"

definition js_detectFeatures :: "AREngine_js \<Rightarrow> CvTick \<Rightarrow> AREngine_js" where
  "js_detectFeatures s t = s\<lparr>aj_keypoints := detected t, aj_descriptors := detectedRows t\<rparr>"

text \<open>\<open>processFrame(video)\<close> (lines 108-206).\<close>

definition js_processFrame :: "AREngine_js \<Rightarrow> CvTick \<Rightarrow> TrackingResult \<times> AREngine_js" where
  "js_processFrame s t =
     (if videoWidth t = 0 \<or> videoHeight t = 0 then (js_result0 s, s)
      else if captureThrows t then (js_result0 s, (js_allocate s t)\<lparr>aj_isTracking := False\<rparr>)
      else
        let s2 = js_detectFeatures (js_allocate s t) t;
            result = (js_result0 s)\<lparr>featureCount := length (aj_keypoints s2),
                                     hasFeatures := (20 < length (aj_keypoints s2))\<rparr>;
            (finished, result1, s3) = js_track s2 t result
        in if \<not> finished \<or> finishThrows t then
             (result1, s3\<lparr>aj_isTracking := isTracking result1\<rparr>)
           else
             (result1,
              s3\<lparr>aj_prevGrayFrame := videoHeight t,
                 aj_prevKeypoints := aj_keypoints s3, aj_keypoints := [],
                 aj_prevDescriptors := aj_descriptors s3,
                 aj_descriptors := aj_prevDescriptors s3,
                 aj_isTracking := isTracking result1\<rparr>))"

definition js_reset :: "AREngine_js \<Rightarrow> AREngine_js" where
  "js_reset s =
     s\<lparr>aj_isTracking := False, aj_trackedPoints := [], aj_currentPose := None,
       aj_detectedPlanes := [], aj_groundPlane := None\<rparr>"

section \<open>Ticks and runs of the two confidence-keeping trackers\<close>

text \<open>
  What a frame means for the hit-test tracker: a hit (the first hit-test result
  has a pose) or a miss (there is no hit-test result).
\<close>

definition xr_hit :: "XRFrame \<Rightarrow> bool" where
  "xr_hit fr =
     (case getHitTestResults fr of
        Returned (hit # _) \<Rightarrow> (case getPose hit of Returned (Some _) \<Rightarrow> True | _ \<Rightarrow> False)
      | _ \<Rightarrow> False)"

definition xr_miss :: "XRFrame \<Rightarrow> bool" where
  "xr_miss fr = (case getHitTestResults fr of Returned [] \<Rightarrow> True | _ \<Rightarrow> False)"

text \<open>
  What \<open>detectPlane\<close> meets: a fitted plane (at least 8 tracked points, and
  \<open>findHomography\<close> returns a non-empty \<open>H\<close> with at least \<open>minInliers\<close>
  inliers), or a failed detection (anything else).
\<close>

definition plane_fitted :: "AREngine \<Rightarrow> CvTick \<Rightarrow> bool" where
  "plane_fitted s t =
     (8 \<le> length (ar_trackedPoints s) \<and>
      (case findHomography t of
         Returned hg \<Rightarrow>
           hg_H hg \<noteq> None \<and> ar_minInliers s \<le> length (filter (\<lambda>b. 0 < b) (hg_mask hg))
       | Thrown \<Rightarrow> False))"

text \<open>
  The frames that reach the confidence update. For the hit-test tracker: the
  session is active with a hit-test source and the frame has a viewer pose. For
  the visual tracker: the video has dimensions, nothing threw, there is a
  previous frame with keypoints and \<open>trackFeatures\<close> returned true; the
  result is the engine as \<open>detectPlane\<close> finds it.
\<close>

definition xr_live :: "WebXREngine \<Rightarrow> XRFrame option \<Rightarrow> XRFrame option" where
  "xr_live s frame =
     (case frame of
        None \<Rightarrow> None
      | Some fr \<Rightarrow>
          if xr_isSessionActive s \<and> xr_xrHitTestSource s
             \<and> (case getViewerPose fr of Returned (Some _) \<Rightarrow> True | _ \<Rightarrow> False)
          then Some fr else None)"

definition ar_detecting :: "AREngine \<Rightarrow> CvTick \<Rightarrow> AREngine option" where
  "ar_detecting s t =
     (if videoWidth t = 0 \<or> videoHeight t = 0 \<or> captureThrows t then None
      else
        let s2 = detectFeatures (ar_allocate s t) t
        in if 0 < ar_prevGrayFrame s2 \<and> 0 < length (ar_prevKeypoints s2) then
             (case trackFeatures s2 t of (Returned True, s3) \<Rightarrow> Some s3 | _ \<Rightarrow> None)
           else None)"

text \<open>
  The same for the copy in AREngine.js: the fitted plane (which this copy answers
  with \<open>true\<close> at once) and the frames that reach \<open>detectPlane\<close>.
\<close>

definition js_plane_fitted :: "AREngine_js \<Rightarrow> CvTick \<Rightarrow> bool" where
  "js_plane_fitted s t =
     (8 \<le> length (aj_trackedPoints s) \<and>
      (case findHomography t of
         Returned hg \<Rightarrow>
           hg_H hg \<noteq> None \<and> aj_minInliers s \<le> length (filter (\<lambda>b. 0 < b) (hg_mask hg))
       | Thrown \<Rightarrow> False))"

definition js_detecting :: "AREngine_js \<Rightarrow> CvTick \<Rightarrow> AREngine_js option" where
  "js_detecting s t =
     (if videoWidth t = 0 \<or> videoHeight t = 0 \<or> captureThrows t then None
      else
        let s2 = js_detectFeatures (js_allocate s t) t
        in if 0 < aj_prevGrayFrame s2 \<and> 0 < length (aj_prevKeypoints s2) then
             (case js_trackFeatures s2 t of (Returned True, s3) \<Rightarrow> Some s3 | _ \<Rightarrow> None)
           else None)"

text \<open>The life of an engine: frames, resets and (for WebXR) the end of the session.\<close>

datatype xr_event = XrFrame "XRFrame option" | XrReset | XrSessionEnd | XrStartSession

fun xr_step :: "WebXREngine \<Rightarrow> xr_event \<Rightarrow> WebXREngine" where
  "xr_step s (XrFrame fr) = snd (xr_processFrame s fr)"
| "xr_step s XrReset = xr_reset s"
| "xr_step s XrSessionEnd = xr_onSessionEnd s"
| "xr_step s XrStartSession = (case xr_startSession s of None \<Rightarrow> s | Some s' \<Rightarrow> s')"

definition xr_run :: "WebXREngine \<Rightarrow> xr_event list \<Rightarrow> WebXREngine" where
  "xr_run = foldl xr_step"

datatype ar_event = ArFrame CvTick | ArReset | ArSetMinInliers nat

fun ar_step :: "AREngine \<Rightarrow> ar_event \<Rightarrow> AREngine" where
  "ar_step s (ArFrame t) = snd (ar_processFrame s t)"
| "ar_step s ArReset = ar_reset s"
| "ar_step s (ArSetMinInliers n) = s\<lparr>ar_minInliers := n\<rparr>"

definition ar_run :: "AREngine \<Rightarrow> ar_event list \<Rightarrow> AREngine" where
  "ar_run = foldl ar_step"

section \<open>Sample inputs\<close>

text \<open>
  Concrete engines and frames on which the theorems below are instantiated: a
  hit-test engine with a running session and a given confidence, a frame with one
  hit and a frame without; a visual engine that has seen a 640 x 480 frame with
  ten keypoints, a tick on which all ten are matched and fitted, and a tick on
  which the fit has no inlier.
\<close>

definition sample_transform :: XRRigidTransform where
  "sample_transform =
     \<lparr>xf_position = \<lparr>vx = 0, vy = 0, vz = - 1\<rparr>,
      xf_orientation = \<lparr>qx = 0, qy = 0, qz = 0, qw = 1\<rparr>,
      xf_matrix = [1, 0, 0, 0, 0, 1, 0, 0, 0, 0, 1, 0, 0, 0, - 1, 1]\<rparr>"

definition xr_with :: "real \<Rightarrow> WebXREngine" where
  "xr_with c =
     new_WebXREngine\<lparr>xr_isSupported := True, xr_xrHitTestSource := True,
                     xr_isSessionActive := True, xr_planeConfidence := c\<rparr>"

definition hit_frame :: XRFrame where
  "hit_frame =
     \<lparr>getViewerPose = Returned (Some \<lparr>views = [sample_transform]\<rparr>),
      getHitTestResults = Returned [\<lparr>getPose = Returned (Some sample_transform)\<rparr>]\<rparr>"

definition miss_frame :: XRFrame where
  "miss_frame =
     \<lparr>getViewerPose = Returned (Some \<lparr>views = [sample_transform]\<rparr>),
      getHitTestResults = Returned []\<rparr>"

definition sample_points :: "point2 list" where
  "sample_points =
     [\<lparr>px = 10, py = 10\<rparr>, \<lparr>px = 20, py = 10\<rparr>, \<lparr>px = 30, py = 10\<rparr>, \<lparr>px = 40, py = 10\<rparr>,
      \<lparr>px = 50, py = 10\<rparr>, \<lparr>px = 10, py = 20\<rparr>, \<lparr>px = 20, py = 20\<rparr>, \<lparr>px = 30, py = 20\<rparr>,
      \<lparr>px = 40, py = 20\<rparr>, \<lparr>px = 50, py = 20\<rparr>]"

definition sample_match :: "nat \<Rightarrow> DMatch" where
  "sample_match i = \<lparr>dm_distance = 12, queryIdx = i, trainIdx = i\<rparr>"

definition ar_with :: "real \<Rightarrow> AREngine" where
  "ar_with c =
     new_AREngine\<lparr>ar_frame := Some (480, 640), ar_prevGrayFrame := 480,
                  ar_prevKeypoints := sample_points, ar_prevDescriptors := 10,
                  ar_fx := 640, ar_fy := 640, ar_planeConfidence := c\<rparr>"

definition good_tick :: CvTick where
  "good_tick =
     \<lparr>videoWidth = 640, videoHeight = 480, captureThrows = False,
      detected = sample_points, detectedRows = 10,
      matcher_match = Returned [sample_match 0, sample_match 1, sample_match 2, sample_match 3,
        sample_match 4, sample_match 5, sample_match 6, sample_match 7, sample_match 8,
        sample_match 9],
      findHomography = Returned \<lparr>hg_H = Some (\<lambda>i j. if i = j then 1 else 0),
                                 hg_mask = [1, 1, 1, 1, 1, 1, 1, 1, 1, 1]\<rparr>,
      doubleAtThrows = False, finishThrows = False\<rparr>"

definition bad_tick :: CvTick where
  "bad_tick =
     good_tick\<lparr>findHomography := Returned \<lparr>hg_H = Some (\<lambda>i j. if i = j then 1 else 0),
                                           hg_mask = [0, 0, 0, 0, 0, 0, 0, 0, 0, 0]\<rparr>\<rparr>"

text \<open>
  A visual engine is primed for the two sample ticks when its previous frame is
  a 640 x 480 frame with the sample keypoints.
\<close>

definition ar_primed :: "AREngine \<Rightarrow> bool" where
  "ar_primed a \<longleftrightarrow>
     ar_frame a = Some (480, 640) \<and> 0 < ar_prevGrayFrame a \<and>
     ar_prevKeypoints a = sample_points \<and> 0 < ar_prevDescriptors a \<and> ar_minInliers a = 10"

definition js_primed :: "AREngine_js \<Rightarrow> bool" where
  "js_primed a \<longleftrightarrow>
     aj_frame a = Some (480, 640) \<and> 0 < aj_prevGrayFrame a \<and>
     aj_prevKeypoints a = sample_points \<and> 0 < aj_prevDescriptors a \<and> aj_minInliers a = 10"

section \<open>ARLocationEngine (the geodetic tracker)\<close>

subsection \<open>Math.atan2 and the remainder operator\<close>

text \<open>
  \<open>Math.atan2(y, x)\<close>: the angle of the point \<open>(x, y)\<close>, in \<open>(-pi, pi]\<close>, and
  0 at the origin. \<open>js_rem x m\<close> is \<open>x % m\<close> for a divisor other than 0: the
  quotient is truncated towards zero, so the result has the sign of \<open>x\<close>.
\<close>

definition atan2 :: "real \<Rightarrow> real \<Rightarrow> real" where
  "atan2 y x =
     (if 0 < x then arctan (y / x)
      else if x < 0 then (if 0 \<le> y then arctan (y / x) + pi else arctan (y / x) - pi)
      else if 0 < y then pi / 2
      else if y < 0 then - (pi / 2)
      else 0)"

definition js_rem :: "real \<Rightarrow> real \<Rightarrow> real" where
  "js_rem x m = x - m * of_int (if 0 \<le> x / m then \<lfloor>x / m\<rfloor> else \<lceil>x / m\<rceil>)"

subsection \<open>Geodesic math\<close>

definition calculateDistance :: "real \<Rightarrow> real \<Rightarrow> real \<Rightarrow> real \<Rightarrow> real" where
  "calculateDistance lat1 lon1 lat2 lon2 =
     (let R = 6371000;
          phi1 = (lat1 * pi) / 180;
          phi2 = (lat2 * pi) / 180;
          dphi = ((lat2 - lat1) * pi) / 180;
          dlambda = ((lon2 - lon1) * pi) / 180;
          a = sin (dphi / 2) * sin (dphi / 2) +
              cos phi1 * cos phi2 * sin (dlambda / 2) * sin (dlambda / 2);
          c = 2 * atan2 (sqrt a) (sqrt (1 - a))
      in R * c)"

definition calculateBearing :: "real \<Rightarrow> real \<Rightarrow> real \<Rightarrow> real \<Rightarrow> real" where
  "calculateBearing lat1 lon1 lat2 lon2 =
     (let phi1 = (lat1 * pi) / 180;
          phi2 = (lat2 * pi) / 180;
          dlambda = ((lon2 - lon1) * pi) / 180;
          y = sin dlambda * cos phi2;
          x = cos phi1 * sin phi2 - sin phi1 * cos phi2 * cos dlambda;
          theta = atan2 y x
      in js_rem ((theta * 180) / pi + 360) 360)"

text \<open>
  The quantity \<open>a\<close> of \<open>calculateDistance\<close> (lines 856-858), whose square
  root and whose complement's square root the source takes. In exact arithmetic
  \<open>a\<close> lies in [0, 1] (lemma \<open>haversine_a_bounds\<close> below), so that both
  roots are those of non-negative numbers.
\<close>

definition haversine_a :: "real \<Rightarrow> real \<Rightarrow> real \<Rightarrow> real \<Rightarrow> real" where
  "haversine_a lat1 lon1 lat2 lon2 =
     sin ((((lat2 - lat1) * pi) / 180) / 2) * sin ((((lat2 - lat1) * pi) / 180) / 2) +
     cos ((lat1 * pi) / 180) * cos ((lat2 * pi) / 180) *
       sin ((((lon2 - lon1) * pi) / 180) / 2) * sin ((((lon2 - lon1) * pi) / 180) / 2)"


subsection \<open>The engine\<close>

text \<open>
  \<open>gpsAccuracyThreshold\<close>, \<open>minDistance\<close> and \<open>maxDistance\<close> are set by the
  constructor and assigned nowhere else: they are constants.
\<close>

definition gpsAccuracyThreshold :: real where
  "gpsAccuracyThreshold = 50"

definition minDistance :: real where
  "minDistance = 5"

definition maxDistance :: real where
  "maxDistance = 1000"

record ARLocationEngine =
  loc_isTracking :: bool
  loc_currentLocation :: "LocationFix option"
  loc_targetLocation :: "TargetLocation option"
  loc_deviceOrientation :: imu
  loc_currentPose :: "pose option"
  loc_distance :: "real option"
  loc_bearing :: "real option"

definition new_ARLocationEngine :: ARLocationEngine where
  "new_ARLocationEngine =
     \<lparr>loc_isTracking = False, loc_currentLocation = None, loc_targetLocation = None,
      loc_deviceOrientation = \<lparr>imu_alpha = 0, imu_beta = 0, imu_gamma = 0\<rparr>,
      loc_currentPose = None, loc_distance = None, loc_bearing = None\<rparr>"

text \<open>
  \<open>updatePose\<close> is called by \<open>updateTracking\<close> only, which has just checked
  \<open>currentLocation\<close> and \<open>targetLocation\<close> and assigned \<open>distance\<close> and
  \<open>bearing\<close>; they are passed along. \<open>altitude || 0\<close> is 0 for a missing
  altitude. \<open>Math.min(1.0, 50 / accuracy)\<close> is 1 for an accuracy of 0, where
  the quotient is \<open>Infinity\<close>.
\<close>

definition updatePose ::
  "ARLocationEngine \<Rightarrow> LocationFix \<Rightarrow> TargetLocation \<Rightarrow> real \<Rightarrow> real \<Rightarrow> ARLocationEngine" where
  "updatePose s cur tgt dst brg =
     (let relativeHeading = js_rem (brg - imu_alpha (loc_deviceOrientation s) + 360) 360;
          headingRad = (relativeHeading * pi) / 180;
          x = dst * sin headingRad;
          z = - dst * cos headingRad;
          y = target_altitude tgt - (case altitude cur of None \<Rightarrow> 0 | Some h \<Rightarrow> h)
      in s\<lparr>loc_currentPose := Some
           \<lparr>position = \<lparr>vx = x, vy = y, vz = z\<rparr>,
            rotation = \<lparr>vx = imu_beta (loc_deviceOrientation s) * (pi / 180),
                         vy = imu_alpha (loc_deviceOrientation s) * (pi / 180),
                         vz = imu_gamma (loc_deviceOrientation s) * (pi / 180)\<rparr>,
            rotation_w = None, matrix = None, planeCenter = None,
            confidence = Some (if accuracy cur = 0 then 1
                               else min 1 (gpsAccuracyThreshold / accuracy cur)),
            pose_distance = Some dst, pose_bearing = Some brg,
            pose_accuracy = Some (accuracy cur)\<rparr>\<rparr>)"

definition updateTracking :: "ARLocationEngine \<Rightarrow> ARLocationEngine" where
  "updateTracking s =
     (case (loc_currentLocation s, loc_targetLocation s) of
        (Some cur, Some tgt) \<Rightarrow>
          let dst = calculateDistance (latitude cur) (longitude cur)
                       (target_latitude tgt) (target_longitude tgt);
              brg = calculateBearing (latitude cur) (longitude cur)
                       (target_latitude tgt) (target_longitude tgt);
              accuracyOk = (accuracy cur \<le> gpsAccuracyThreshold);
              distanceOk = (minDistance \<le> dst \<and> dst \<le> maxDistance);
              s1 = s\<lparr>loc_distance := Some dst, loc_bearing := Some brg,
                     loc_isTracking := (accuracyOk \<and> distanceOk)\<rparr>
          in if loc_isTracking s1 then updatePose s1 cur tgt dst brg else s1
      | _ \<Rightarrow> s\<lparr>loc_isTracking := False\<rparr>)"

definition updateLocation :: "ARLocationEngine \<Rightarrow> LocationFix \<Rightarrow> ARLocationEngine" where
  "updateLocation s fix = updateTracking (s\<lparr>loc_currentLocation := Some fix\<rparr>)"

definition setTargetLocation :: "ARLocationEngine \<Rightarrow> real \<Rightarrow> real \<Rightarrow> real \<Rightarrow> ARLocationEngine" where
  "setTargetLocation s lat lon alt =
     updateTracking
       (s\<lparr>loc_targetLocation := Some \<lparr>target_latitude = lat, target_longitude = lon,
                                       target_altitude = alt\<rparr>\<rparr>)"

definition loc_processFrame :: "ARLocationEngine \<Rightarrow> TrackingResult" where
  "loc_processFrame s =
     \<lparr>isTracking = loc_isTracking s,
      hasFeatures = (loc_currentLocation s \<noteq> None),
      featureCount = (if loc_isTracking s then 1 else 0),
      planeCount = 0,
      tr_pose = loc_currentPose s,
      tr_imu = None, hitTestResult = None, viewerTransform = None,
      gpsData = Some \<lparr>gps_currentLocation = loc_currentLocation s,
                      gps_targetLocation = loc_targetLocation s,
                      gps_distance = loc_distance s,
                      gps_bearing = loc_bearing s\<rparr>\<rparr>"

definition loc_reset :: "ARLocationEngine \<Rightarrow> ARLocationEngine" where
  "loc_reset s =
     s\<lparr>loc_targetLocation := None, loc_currentPose := None, loc_distance := None,
       loc_bearing := None, loc_isTracking := False\<rparr>"

text \<open>
  The life of the engine: location updates from the geolocation watch, device
  orientation events, and the calls \<open>setTargetLocation\<close> and \<open>reset\<close>.
\<close>

datatype loc_event =
  LocationUpdate LocationFix
| OrientationEvent imu
| SetTargetLocation real real real
| LocReset

fun loc_step :: "ARLocationEngine \<Rightarrow> loc_event \<Rightarrow> ARLocationEngine" where
  "loc_step s (LocationUpdate fix) = updateLocation s fix"
| "loc_step s (OrientationEvent ev) = s\<lparr>loc_deviceOrientation := ev\<rparr>"
| "loc_step s (SetTargetLocation lat lon alt) = setTargetLocation s lat lon alt"
| "loc_step s LocReset = loc_reset s"

definition loc_run :: "ARLocationEngine \<Rightarrow> loc_event list \<Rightarrow> ARLocationEngine" where
  "loc_run = foldl loc_step"

text \<open>
  The end-to-end scenario: a fix at (37.0, -122.0) with accuracy 5, then the
  target (37.001, -122.0) at altitude 0.
\<close>

definition sample_fix :: LocationFix where
  "sample_fix = \<lparr>latitude = 37, longitude = - 122, altitude = None, accuracy = 5, timestamp = 0\<rparr>"

definition sample_target :: TargetLocation where
  "sample_target = \<lparr>target_latitude = 37001 / 1000, target_longitude = - 122, target_altitude = 0\<rparr>"

definition sample_engine :: ARLocationEngine where
  "sample_engine =
     loc_run new_ARLocationEngine
       [LocationUpdate sample_fix, SetTargetLocation (37001 / 1000) (- 122) 0]"

text \<open>The condition under which the geodetic tracker tracks.\<close>

definition trackable :: "LocationFix \<Rightarrow> TargetLocation \<Rightarrow> bool" where
  "trackable cur tgt \<longleftrightarrow>
     accuracy cur \<le> 50 \<and>
     5 \<le> calculateDistance (latitude cur) (longitude cur) (target_latitude tgt) (target_longitude tgt) \<and>
     calculateDistance (latitude cur) (longitude cur) (target_latitude tgt) (target_longitude tgt) \<le> 1000"

text \<open>
  What holds of the geodetic tracker as long as every fix it is given has a
  non-negative accuracy: the fix it keeps has one, and while it tracks, its pose
  carries the confidence 1.
\<close>

definition loc_settled :: "ARLocationEngine \<Rightarrow> bool" where
  "loc_settled s \<longleftrightarrow>
     (\<forall>cur. loc_currentLocation s = Some cur \<longrightarrow> 0 \<le> accuracy cur) \<and>
     (loc_isTracking s \<longrightarrow> (\<exists>p. loc_currentPose s = Some p \<and> confidence p = Some 1))"

section \<open>PoseKalmanFilter (the pose smoothing bank)\<close>

text \<open>Six scalar filters: three for the position, three for the rotation.\<close>

record PoseKalmanFilter =
  posX :: KalmanFilter
  posY :: KalmanFilter
  posZ :: KalmanFilter
  rotX :: KalmanFilter
  rotY :: KalmanFilter
  rotZ :: KalmanFilter



definition pkf_reset :: "PoseKalmanFilter \<Rightarrow> PoseKalmanFilter" where
  "pkf_reset b =
     \<lparr>posX = kf_reset (posX b), posY = kf_reset (posY b), posZ = kf_reset (posZ b),
      rotX = kf_reset (rotX b), rotY = kf_reset (rotY b), rotZ = kf_reset (rotZ b)\<rparr>"

section \<open>SceneManager (placement and anchoring)\<close>

text \<open>
  The scene objects are read and written through a few properties only. The
  loaded model is known by an identifier. three.js is a library, not part of the
  program: its \<open>Raycaster.setFromCamera\<close> and \<open>Ray.intersectPlane\<close> are
  parameters of the model.
\<close>

record Camera =
  cam_position :: vec3
  cam_quaternion :: quaternion

record Ray =
  ray_origin :: vec3
  ray_direction :: vec3

record Plane =
  plane_normal :: vec3
  plane_constant :: real

record THREE =
  setFromCamera :: "point2 \<Rightarrow> Camera \<Rightarrow> Ray"
  intersectPlane :: "Ray \<Rightarrow> Plane \<Rightarrow> vec3 option"

record SceneManager =
  sm_camera :: Camera
  sm_model :: "nat option"
  sm_modelGroup_position :: vec3
  sm_modelGroup_rotation_y :: real
  sm_modelGroup_visible :: bool
  sm_shadowPlane_position :: vec3
  sm_shadowPlane_visible :: bool
  sm_groundIndicator_position :: vec3
  sm_groundIndicator_visible :: bool
  sm_gridHelper_position :: vec3
  sm_gridHelper_visible :: bool
  sm_isModelPlaced :: bool
  sm_modelScale :: real
  sm_modelRotation :: real
  sm_placedPosition :: vec3
  sm_screenWidth :: real
  sm_screenHeight :: real
  sm_lastPose :: "pose option"

text \<open>
  \<open>placeModel(pose)\<close>. The argument is only logged. The ray starts from the
  normalised device coordinates (0, 0) and is intersected with the plane of
  normal (0, 1, 0) and constant 0.
\<close>

definition placeModel :: "THREE \<Rightarrow> SceneManager \<Rightarrow> pose option \<Rightarrow> bool \<times> SceneManager" where
  "placeModel three s pose =
     (case sm_model s of
        None \<Rightarrow> (False, s)
      | Some _ \<Rightarrow>
          let ndc = \<lparr>px = 0, py = 0\<rparr>;
              ray = setFromCamera three ndc (sm_camera s);
              groundPlane = \<lparr>plane_normal = \<lparr>vx = 0, vy = 1, vz = 0\<rparr>, plane_constant = 0\<rparr>;
              placed =
                (case intersectPlane three ray groundPlane of
                   Some intersectionPoint \<Rightarrow>
                     \<lparr>vx = vx intersectionPoint, vy = 0, vz = vz intersectionPoint\<rparr>
                 | None \<Rightarrow> \<lparr>vx = 0, vy = 0, vz = - 2\<rparr>)
          in (True,
              s\<lparr>sm_modelGroup_position := placed,
                sm_modelGroup_rotation_y := sm_modelRotation s * (pi / 180),
                sm_modelGroup_visible := True,
                sm_shadowPlane_visible := True,
                sm_shadowPlane_position := (sm_shadowPlane_position s)\<lparr>vx := vx placed, vz := vz placed\<rparr>,
                sm_groundIndicator_visible := False,
                sm_gridHelper_visible := False,
                sm_isModelPlaced := True,
                sm_placedPosition := placed\<rparr>))"

definition resetModel :: "SceneManager \<Rightarrow> SceneManager" where
  "resetModel s =
     s\<lparr>sm_isModelPlaced := False, sm_modelGroup_visible := False,
       sm_shadowPlane_visible := False, sm_groundIndicator_visible := False,
       sm_gridHelper_visible := False,
       sm_placedPosition := \<lparr>vx = 0, vy = 0, vz = 0\<rparr>,
       sm_modelGroup_position := \<lparr>vx = 0, vy = 0, vz = 0\<rparr>\<rparr>"

definition setModelRotation :: "SceneManager \<Rightarrow> real \<Rightarrow> SceneManager" where
  "setModelRotation s degrees =
     s\<lparr>sm_modelRotation := degrees, sm_modelGroup_rotation_y := degrees * (pi / 180)\<rparr>"

text \<open>How a call ends: it returns, or it throws a \<open>TypeError\<close>.\<close>

datatype completion = Normal | TypeError

text \<open>
  \<open>updateModelPose(pose)\<close> (lines 277-315). Nothing happens for no pose.
  Otherwise the pose is stored in \<open>lastPose\<close>, and then
  \<open>pose.planeCenter.x\<close> is read: for a pose without \<open>planeCenter\<close> this
  throws a \<open>TypeError\<close>, after the assignment. With a plane centre, the ray
  through it is intersected with the ground plane and, while no model is placed,
  the indicator and the grid are moved to the intersection and shown. (For a
  screen of width or height 0 the coordinates of the source are not finite; HOL's
  division gives 0 there.)
\<close>

definition updateModelPose ::
  "THREE \<Rightarrow> SceneManager \<Rightarrow> pose option \<Rightarrow> completion \<times> SceneManager" where
  "updateModelPose three s pose =
     (case pose of
        None \<Rightarrow> (Normal, s)
      | Some p \<Rightarrow>
          let s1 = s\<lparr>sm_lastPose := Some p\<rparr> in
          (case planeCenter p of
             None \<Rightarrow> (TypeError, s1)
           | Some c \<Rightarrow>
               let screenX = px c;
                   screenY = py c;
                   ndcX = (screenX / sm_screenWidth s1) * 2 - 1;
                   ndcY = - (screenY / sm_screenHeight s1) * 2 + 1;
                   ray = setFromCamera three \<lparr>px = ndcX, py = ndcY\<rparr> (sm_camera s1);
                   groundPlane = \<lparr>plane_normal = \<lparr>vx = 0, vy = 1, vz = 0\<rparr>, plane_constant = 0\<rparr>
               in (case intersectPlane three ray groundPlane of
                     Some intersectionPoint \<Rightarrow>
                       if \<not> sm_isModelPlaced s1 then
                         (Normal,
                          s1\<lparr>sm_groundIndicator_position :=
                               \<lparr>vx = vx intersectionPoint, vy = 1 / 100, vz = vz intersectionPoint\<rparr>,
                             sm_groundIndicator_visible := True,
                             sm_gridHelper_position :=
                               \<lparr>vx = vx intersectionPoint, vy = 0, vz = vz intersectionPoint\<rparr>,
                             sm_gridHelper_visible := True\<rparr>)
                       else (Normal, s1)
                   | None \<Rightarrow> (Normal, s1))))"

text \<open>
  \<open>updateCameraPose(pose)\<close>. main.js calls a method of this name in
  \<open>startARLoop\<close> (line 325) and in \<open>startLocationLoop\<close> (line 444).
  SceneManager.js defines \<open>updateCameraFromPose\<close> and no
  \<open>updateCameraPose\<close>: the call evaluates its argument and then throws a
  \<open>TypeError\<close>, whatever the pose, and the scene manager is not changed.
\<close>

definition updateCameraPose :: "SceneManager \<Rightarrow> pose option \<Rightarrow> completion \<times> SceneManager" where
  "updateCameraPose s pose = (TypeError, s)"

section \<open>main.js: the scheduling loops\<close>

text \<open>
  Of the application, the loops read \<open>isInitialized\<close> and \<open>currentModel\<close>.
  One run of a loop's closure is described by what it leaves behind: the calls it
  made on the scene manager, in order, each with the argument the loop evaluated
  for it (a call that throws is listed too: it is the last call of its closure or
  of its \<open>try\<close> block); whether a \<open>TypeError\<close> left the closure uncaught;
  whether the closure asked for the next animation frame; the scene manager and
  the tracker after it. \<open>render()\<close> draws the scene and changes none of the
  properties kept here. The status and debug displays write to the page only and
  are left out.
\<close>

record App =
  app_isInitialized :: bool
  app_currentModel :: "nat option"

datatype scene_call =
  UpdateCameraPose "pose option"
| UpdateModelPose "pose option"
| Render

record 'e tick =
  tick_calls :: "scene_call list"
  tick_uncaught :: bool
  tick_rescheduled :: bool
  tick_scene :: SceneManager
  tick_engine :: 'e

text \<open>
  One run of the \<open>loop\<close> closure of \<open>startARLoop\<close> (lines 295-347);
  \<open>ready\<close> is \<open>video.readyState === video.HAVE_ENOUGH_DATA\<close>, and
  \<open>processFrame\<close> is that of the engine, of either copy of the class. The
  frame is processed inside \<open>try\<close>: an exception of
  \<open>updateCameraPose\<close> or of \<open>updateModelPose\<close> ends the block and is
  logged, and the closure goes on to \<open>render()\<close>.
\<close>

definition startARLoop_tick ::
  "('e \<Rightarrow> CvTick \<Rightarrow> TrackingResult \<times> 'e) \<Rightarrow> App \<Rightarrow> THREE \<Rightarrow> SceneManager \<Rightarrow> bool
     \<Rightarrow> 'e \<Rightarrow> CvTick \<Rightarrow> 'e tick" where
  "startARLoop_tick processFrame app three sm ready engine t =
     (if \<not> app_isInitialized app then
        \<lparr>tick_calls = [], tick_uncaught = False, tick_rescheduled = False,
         tick_scene = sm, tick_engine = engine\<rparr>
      else if ready then
        let (trackingResult, engine') = processFrame engine t;
            (calls, sm') =
              (if isTracking trackingResult \<and> app_currentModel app \<noteq> None then
                 (case updateCameraPose sm (tr_pose trackingResult) of
                    (TypeError, sm1) \<Rightarrow> ([UpdateCameraPose (tr_pose trackingResult)], sm1)
                  | (Normal, sm1) \<Rightarrow>
                      if \<not> sm_isModelPlaced sm1 then
                        ([UpdateCameraPose (tr_pose trackingResult),
                          UpdateModelPose (tr_pose trackingResult)],
                         snd (updateModelPose three sm1 (tr_pose trackingResult)))
                      else ([UpdateCameraPose (tr_pose trackingResult)], sm1))
               else ([], sm))
        in \<lparr>tick_calls = calls @ [Render], tick_uncaught = False, tick_rescheduled = True,
            tick_scene = sm', tick_engine = engine'\<rparr>
      else
        \<lparr>tick_calls = [Render], tick_uncaught = False, tick_rescheduled = True,
         tick_scene = sm, tick_engine = engine\<rparr>)"

text \<open>
  One run of \<open>onXRFrame\<close> of \<open>startWebXRLoop\<close> (lines 356-404). The next
  frame is requested first. Nothing is caught here: an exception of
  \<open>updateModelPose\<close> leaves the closure before \<open>render()\<close>.
\<close>

definition startWebXRLoop_tick ::
  "App \<Rightarrow> THREE \<Rightarrow> SceneManager \<Rightarrow> WebXREngine \<Rightarrow> XRFrame \<Rightarrow> WebXREngine tick" where
  "startWebXRLoop_tick app three sm engine frame =
     (if \<not> app_isInitialized app \<or> \<not> xr_isSessionActive engine then
        \<lparr>tick_calls = [], tick_uncaught = False, tick_rescheduled = False,
         tick_scene = sm, tick_engine = engine\<rparr>
      else
        let (trackingResult, engine') = xr_processFrame engine (Some frame);
            sm1 = (case viewerTransform trackingResult of
                     Some transform \<Rightarrow>
                       sm\<lparr>sm_camera := \<lparr>cam_position = xf_position transform,
                                         cam_quaternion = xf_orientation transform\<rparr>\<rparr>
                   | None \<Rightarrow> sm)
        in if isTracking trackingResult \<and> app_currentModel app \<noteq> None \<and> \<not> sm_isModelPlaced sm1
           then
             (case updateModelPose three sm1 (tr_pose trackingResult) of
                (TypeError, sm2) \<Rightarrow>
                  \<lparr>tick_calls = [UpdateModelPose (tr_pose trackingResult)],
                   tick_uncaught = True, tick_rescheduled = True,
                   tick_scene = sm2, tick_engine = engine'\<rparr>
              | (Normal, sm2) \<Rightarrow>
                  \<lparr>tick_calls = [UpdateModelPose (tr_pose trackingResult), Render],
                   tick_uncaught = False, tick_rescheduled = True,
                   tick_scene = sm2, tick_engine = engine'\<rparr>)
           else
             \<lparr>tick_calls = [Render], tick_uncaught = False, tick_rescheduled = True,
              tick_scene = sm1, tick_engine = engine'\<rparr>)"

text \<open>
  One run of the \<open>loop\<close> closure of \<open>startLocationLoop\<close> (lines 413-451).
  Nothing is caught here either, and the next frame is requested last: an
  exception of \<open>updateCameraPose\<close> leaves the closure before \<open>render()\<close>
  and before the request, which ends the loop.
\<close>

definition startLocationLoop_tick ::
  "App \<Rightarrow> SceneManager \<Rightarrow> ARLocationEngine \<Rightarrow> ARLocationEngine tick" where
  "startLocationLoop_tick app sm engine =
     (if \<not> app_isInitialized app then
        \<lparr>tick_calls = [], tick_uncaught = False, tick_rescheduled = False,
         tick_scene = sm, tick_engine = engine\<rparr>
      else
        let trackingResult = loc_processFrame engine
        in (case tr_pose trackingResult of
              Some p \<Rightarrow>
                (case updateCameraPose sm (Some p) of
                   (TypeError, sm1) \<Rightarrow>
                     \<lparr>tick_calls = [UpdateCameraPose (Some p)],
                      tick_uncaught = True, tick_rescheduled = False,
                      tick_scene = sm1, tick_engine = engine\<rparr>
                 | (Normal, sm1) \<Rightarrow>
                     \<lparr>tick_calls = [UpdateCameraPose (Some p), Render],
                      tick_uncaught = False, tick_rescheduled = True,
                      tick_scene = sm1, tick_engine = engine\<rparr>)
            | None \<Rightarrow>
                \<lparr>tick_calls = [Render], tick_uncaught = False, tick_rescheduled = True,
                 tick_scene = sm, tick_engine = engine\<rparr>))"



subsection \<open>Sample inputs for placement and for the loops\<close>

text \<open>
  The ray-plane intersection as three.js computes it (no intersection when the
  ray is parallel to the plane and does not start on it, or when the plane lies
  behind the ray), and a camera at (0, 1.5, 0) whose ray through the screen centre
  points towards (0, 0, -3); the direction is left unnormalised, which does not
  move the intersection point.
\<close>

definition dot :: "vec3 \<Rightarrow> vec3 \<Rightarrow> real" where
  "dot a b = vx a * vx b + vy a * vy b + vz a * vz b"

definition Ray_intersectPlane :: "Ray \<Rightarrow> Plane \<Rightarrow> vec3 option" where
  "Ray_intersectPlane ray plane =
     (let denominator = dot (plane_normal plane) (ray_direction ray) in
      if denominator = 0 then
        (if dot (plane_normal plane) (ray_origin ray) + plane_constant plane = 0
         then Some (ray_origin ray) else None)
      else
        let t = - (dot (ray_origin ray) (plane_normal plane) + plane_constant plane) / denominator
        in if 0 \<le> t then
             Some \<lparr>vx = vx (ray_origin ray) + t * vx (ray_direction ray),
                   vy = vy (ray_origin ray) + t * vy (ray_direction ray),
                   vz = vz (ray_origin ray) + t * vz (ray_direction ray)\<rparr>
           else None)"

definition sample_three :: THREE where
  "sample_three =
     \<lparr>setFromCamera = (\<lambda>ndc cam.
          \<lparr>ray_origin = cam_position cam,
           ray_direction = \<lparr>vx = px ndc, vy = py ndc - 3 / 2, vz = - 3\<rparr>\<rparr>),
      intersectPlane = Ray_intersectPlane\<rparr>"

definition sample_scene :: SceneManager where
  "sample_scene =
     \<lparr>sm_camera = \<lparr>cam_position = \<lparr>vx = 0, vy = 3 / 2, vz = 0\<rparr>,
                   cam_quaternion = \<lparr>qx = 0, qy = 0, qz = 0, qw = 1\<rparr>\<rparr>,
      sm_model = Some 1,
      sm_modelGroup_position = \<lparr>vx = 0, vy = 0, vz = 0\<rparr>,
      sm_modelGroup_rotation_y = 0,
      sm_modelGroup_visible = False,
      sm_shadowPlane_position = \<lparr>vx = 0, vy = 0, vz = 0\<rparr>,
      sm_shadowPlane_visible = False,
      sm_groundIndicator_position = \<lparr>vx = 0, vy = 0, vz = 0\<rparr>,
      sm_groundIndicator_visible = True,
      sm_gridHelper_position = \<lparr>vx = 0, vy = 0, vz = 0\<rparr>,
      sm_gridHelper_visible = True,
      sm_isModelPlaced = False,
      sm_modelScale = 1,
      sm_modelRotation = 90,
      sm_placedPosition = \<lparr>vx = 0, vy = 0, vz = 0\<rparr>,
      sm_screenWidth = 390,
      sm_screenHeight = 844,
      sm_lastPose = None\<rparr>"


section \<open>Rounding to doubles\<close>

lemma rne_int: "rne (of_int n) = n"
  by (simp add: rne_def)

lemma rne_mono: "r \<le> s \<Longrightarrow> rne r \<le> rne s"
proof -
  assume rs: "r \<le> s"
  have fl: "\<lfloor>r\<rfloor> \<le> \<lfloor>s\<rfloor>" using rs by (rule floor_mono)
  have br: "\<lfloor>r\<rfloor> \<le> rne r" "rne r \<le> \<lfloor>r\<rfloor> + 1"
    by (simp_all add: rne_def Let_def)
  have bs: "\<lfloor>s\<rfloor> \<le> rne s" "rne s \<le> \<lfloor>s\<rfloor> + 1"
    by (simp_all add: rne_def Let_def)
  show ?thesis
  proof (cases "\<lfloor>r\<rfloor> = \<lfloor>s\<rfloor>")
    case True
    then have "r - of_int \<lfloor>r\<rfloor> \<le> s - of_int \<lfloor>s\<rfloor>" using rs by simp
    with True show ?thesis
      by (auto simp: rne_def Let_def)
  next
    case False
    with fl have "\<lfloor>r\<rfloor> + 1 \<le> \<lfloor>s\<rfloor>" by simp
    with br bs show ?thesis by linarith
  qed
qed

lemma rne_le: "r \<le> of_int n \<Longrightarrow> rne r \<le> n"
  using rne_mono [of r "of_int n"] by (simp add: rne_int)

lemma rne_ge: "of_int n \<le> r \<Longrightarrow> n \<le> rne r"
  using rne_mono [of "of_int n" r] by (simp add: rne_int)

lemma ulp_pos: "0 < ulp x"
  by (simp add: ulp_def zero_less_power_int)

lemma pow2_add: "(2::real) powi (a + b) = 2 powi a * 2 powi b"
  by (rule power_int_add) simp

lemma pow2_split: "2 powi (e + 1) = 2 ^ 53 * (2 powi (e - 52) :: real)"
proof -
  have "53 + (e - 52) = e + 1" by simp
  with pow2_add [of 53 "e - 52"] show ?thesis by simp
qed

lemma pow2_split': "2 powi e = 2 ^ 52 * (2 powi (e - 52) :: real)"
proof -
  have "52 + (e - 52) = e" by simp
  with pow2_add [of 52 "e - 52"] show ?thesis by simp
qed

lemma pow2_int: "(2::real) powr real_of_int n = 2 powi n"
  by (rule powr_real_of_int') simp_all

lemma log_bounds:
  assumes "0 < x"
  shows "2 powi \<lfloor>log 2 x\<rfloor> \<le> x" "x < 2 powi (\<lfloor>log 2 x\<rfloor> + 1)"
proof -
  have "1 < (2::real)" by simp
  from floor_log_eq_powr_iff [OF assms this, of "\<lfloor>log 2 x\<rfloor>", THEN iffD1, OF refl]
  show "2 powi \<lfloor>log 2 x\<rfloor> \<le> x" "x < 2 powi (\<lfloor>log 2 x\<rfloor> + 1)"
    unfolding pow2_int by blast+
qed

lemma expo_ge: "- 1022 \<le> expo x"
  by (simp add: expo_def)

lemma expo_upper:
  assumes "0 < x"
  shows "x < 2 powi (expo x + 1)"
proof -
  have "\<lfloor>log 2 x\<rfloor> + 1 \<le> expo x + 1"
    using assms by (simp add: expo_def)
  then have "(2::real) powi (\<lfloor>log 2 x\<rfloor> + 1) \<le> 2 powi (expo x + 1)"
    by (intro power_int_increasing) simp_all
  with log_bounds(2) [OF assms] show ?thesis by linarith
qed

lemma expo_lower:
  assumes "0 < x" and "- 1022 < expo x"
  shows "2 powi expo x \<le> x"
proof -
  from assms have "expo x = \<lfloor>log 2 x\<rfloor>"
    by (simp add: expo_def max_def split: if_splits)
  with log_bounds(1) [OF assms(1)] show ?thesis by simp
qed

lemma expo_eqI:
  assumes "2 powi e \<le> x" and "x < 2 powi (e + 1)" and "- 1022 \<le> e"
  shows "expo x = e"
proof -
  have "(0::real) < 2 powi e" by (simp add: zero_less_power_int)
  with assms(1) have x: "0 < x" by linarith
  have "1 < (2::real)" by simp
  from floor_log_eq_powr_iff [OF x this, of e, THEN iffD2, unfolded pow2_int] assms(1,2)
  have "\<lfloor>log 2 x\<rfloor> = e" by blast
  with x assms(3) show ?thesis by (simp add: expo_def)
qed

lemma expo_small:
  assumes "0 < x" and "x < 2 powi (- 1021)"
  shows "expo x = - 1022"
proof -
  have "\<lfloor>log 2 x\<rfloor> < - 1021"
  proof (rule ccontr)
    assume "\<not> \<lfloor>log 2 x\<rfloor> < - 1021"
    then have "(2::real) powi (- 1021) \<le> 2 powi \<lfloor>log 2 x\<rfloor>"
      by (intro power_int_increasing) simp_all
    with log_bounds(1) [OF assms(1)] assms(2) show False by linarith
  qed
  with assms(1) show ?thesis by (simp add: expo_def)
qed

lemma expo_mono:
  assumes "0 < x" and "x \<le> y"
  shows "expo x \<le> expo y"
proof -
  have "log 2 x \<le> log 2 y" using assms by (intro log_mono) simp_all
  then have "\<lfloor>log 2 x\<rfloor> \<le> \<lfloor>log 2 y\<rfloor>" by (rule floor_mono)
  with assms show ?thesis by (simp add: expo_def)
qed

lemma rd_upper:
  assumes "0 < x"
  shows "rd x \<le> 2 powi (expo x + 1)"
proof -
  have s: "2 powi (expo x + 1) = 2 ^ 53 * ulp x"
    unfolding ulp_def by (rule pow2_split)
  have "x \<le> 2 ^ 53 * ulp x"
    using expo_upper [OF assms] unfolding s by simp
  then have "x / ulp x \<le> of_int (2 ^ 53)"
    using ulp_pos [of x] by (simp add: field_simps)
  then have "rne (x / ulp x) \<le> 2 ^ 53" by (rule rne_le)
  then have "real_of_int (rne (x / ulp x)) \<le> 2 ^ 53"
    by (metis of_int_le_iff of_int_numeral of_int_power)
  then have "of_int (rne (x / ulp x)) * ulp x \<le> 2 ^ 53 * ulp x"
    using ulp_pos [of x] by (intro mult_right_mono) simp_all
  with assms show ?thesis unfolding s by (simp add: rd_def)
qed

lemma rd_lower:
  assumes "0 < x" and "- 1022 < expo x"
  shows "2 powi expo x \<le> rd x"
proof -
  have s: "2 powi expo x = 2 ^ 52 * ulp x"
    unfolding ulp_def by (rule pow2_split')
  have "2 ^ 52 * ulp x \<le> x"
    using expo_lower [OF assms] unfolding s .
  then have "of_int (2 ^ 52) \<le> x / ulp x"
    using ulp_pos [of x] by (simp add: field_simps)
  then have "2 ^ 52 \<le> rne (x / ulp x)" by (rule rne_ge)
  then have "2 ^ 52 \<le> real_of_int (rne (x / ulp x))"
    by (metis of_int_le_iff of_int_numeral of_int_power)
  then have "2 ^ 52 * ulp x \<le> of_int (rne (x / ulp x)) * ulp x"
    using ulp_pos [of x] by (intro mult_right_mono) simp_all
  with assms show ?thesis unfolding s by (simp add: rd_def)
qed

lemma rd_nonneg:
  assumes "0 \<le> x"
  shows "0 \<le> rd x"
proof -
  have "of_int 0 \<le> x / ulp x" using assms ulp_pos [of x] by simp
  then have "0 \<le> rne (x / ulp x)" by (rule rne_ge)
  then show ?thesis using ulp_pos [of x] by (simp add: rd_def)
qed

lemma rd_mono:
  assumes "0 \<le> x" and "x \<le> y"
  shows "rd x \<le> rd y"
proof (cases "x = 0")
  case True
  with assms rd_nonneg [of y] show ?thesis by (simp add: rd_def)
next
  case False
  with assms have x: "0 < x" and y: "0 < y" by simp_all
  from expo_mono [OF x assms(2)] have e: "expo x \<le> expo y" .
  show ?thesis
  proof (cases "expo x = expo y")
    case True
    then have u: "ulp x = ulp y" by (simp add: ulp_def)
    have "x / ulp y \<le> y / ulp y"
      using assms(2) ulp_pos [of y] by (simp add: divide_right_mono)
    then have "rne (x / ulp y) \<le> rne (y / ulp y)" by (rule rne_mono)
    then have "real_of_int (rne (x / ulp y)) * ulp y \<le> real_of_int (rne (y / ulp y)) * ulp y"
      using ulp_pos [of y] by (intro mult_right_mono) simp_all
    with x y u show ?thesis by (simp add: rd_def)
  next
    case False
    with e have lt: "expo x + 1 \<le> expo y" by simp
    with expo_ge [of x] have "- 1022 < expo y" by linarith
    from rd_lower [OF y this] have "2 powi expo y \<le> rd y" .
    moreover have "(2::real) powi (expo x + 1) \<le> 2 powi expo y"
      using lt by (intro power_int_increasing) simp_all
    ultimately show ?thesis using rd_upper [OF x] by linarith
  qed
qed

lemma rd_grid:
  assumes m: "0 < m" "m \<le> 2 ^ 53" and e: "- 1022 \<le> e" and n: "- 1022 < e \<longrightarrow> 2 ^ 52 \<le> m"
  shows "rd (of_int m * 2 powi (e - 52)) = of_int m * 2 powi (e - 52)"
proof -
  define q :: real where "q = 2 powi (e - 52)"
  define v where "v = of_int m * q"
  have q: "0 < q" by (simp add: q_def zero_less_power_int)
  have v: "0 < v" using m(1) q by (simp add: v_def)
  have mr: "real_of_int m \<le> 2 ^ 53"
    using m(2) by (metis of_int_le_iff of_int_numeral of_int_power)
  show ?thesis
  proof (cases "m = 2 ^ 53")
    case True
    then have v1: "v = 2 powi (e + 1)"
      by (simp add: v_def q_def pow2_split)
    have "v < 2 powi (e + 1 + 1)"
      unfolding v1 by (intro power_int_strict_increasing) simp_all
    with v1 have ex: "expo v = e + 1"
      using e by (intro expo_eqI) simp_all
    then have u: "ulp v = 2 * q"
      using power_int_add_1' [of "2::real" "e - 52"] by (simp add: ulp_def q_def)
    have vq: "v = 2 ^ 53 * q" using True by (simp add: v_def)
    have "v / ulp v = (2 ^ 53 * q) / (2 * q)"
      unfolding u using vq by simp
    also have "\<dots> = of_int (2 ^ 52)"
      using q by simp
    finally have "rne (v / ulp v) = 2 ^ 52"
      by (simp only: rne_int)
    then have "rd v = 2 ^ 52 * (2 * q)"
      using v u by (simp add: rd_def)
    also have "\<dots> = v" using vq by simp
    finally show ?thesis unfolding v_def q_def .
  next
    case False
    with m(2) have "m < 2 ^ 53" by simp
    then have "real_of_int m < 2 ^ 53"
      by (metis of_int_less_iff of_int_numeral of_int_power)
    then have up: "v < 2 powi (e + 1)"
      using q by (simp add: v_def pow2_split q_def [symmetric])
    have ex: "expo v = e"
    proof (cases "- 1022 < e")
      case True
      with n have "2 ^ 52 \<le> m" by simp
      then have "2 ^ 52 \<le> real_of_int m"
        by (metis of_int_le_iff of_int_numeral of_int_power)
      then have "2 powi e \<le> v"
        using q by (simp add: v_def pow2_split' [of e] q_def [symmetric])
      with up e show ?thesis by (intro expo_eqI) simp_all
    next
      case False
      with e have e': "e = - 1022" by simp
      with up have "v < 2 powi (- 1021)" by simp
      from expo_small [OF v this] e' show ?thesis by simp
    qed
    then have u: "ulp v = q" by (simp add: ulp_def q_def)
    have "v / ulp v = (of_int m * q) / q"
      unfolding u by (simp add: v_def)
    also have "\<dots> = of_int m" using q by simp
    finally have "rne (v / ulp v) = m" by (simp only: rne_int)
    then have "rd v = of_int m * q" using v u by (simp add: rd_def)
    then show ?thesis unfolding v_def q_def .
  qed
qed

lemma rd_idem:
  assumes "0 \<le> x"
  shows "rd (rd x) = rd x"
proof (cases "x = 0")
  case True
  then show ?thesis by (simp add: rd_def)
next
  case False
  with assms have x: "0 < x" by simp
  define m where "m = rne (x / ulp x)"
  have rx: "rd x = of_int m * 2 powi (expo x - 52)"
    using x by (simp add: rd_def m_def ulp_def)
  have m0: "0 \<le> m"
    unfolding m_def using x ulp_pos [of x] by (intro rne_ge) simp
  have s': "2 powi (expo x + 1) = 2 ^ 53 * ulp x"
    unfolding ulp_def by (rule pow2_split)
  have "x \<le> 2 ^ 53 * ulp x"
    using expo_upper [OF x] unfolding s' by simp
  then have "x / ulp x \<le> of_int (2 ^ 53)"
    using ulp_pos [of x] by (simp add: field_simps)
  then have m1: "m \<le> 2 ^ 53" unfolding m_def by (rule rne_le)
  have m2: "- 1022 < expo x \<longrightarrow> 2 ^ 52 \<le> m"
  proof
    assume "- 1022 < expo x"
    have s: "2 powi expo x = 2 ^ 52 * ulp x"
      unfolding ulp_def by (rule pow2_split')
    from expo_lower [OF x \<open>- 1022 < expo x\<close>] have "2 ^ 52 * ulp x \<le> x"
      unfolding s .
    then have "of_int (2 ^ 52) \<le> x / ulp x"
      using ulp_pos [of x] by (simp add: field_simps)
    then show "2 ^ 52 \<le> m" unfolding m_def by (rule rne_ge)
  qed
  show ?thesis
  proof (cases "m = 0")
    case True
    with rx show ?thesis by (simp add: rd_def)
  next
    case False
    with m0 have "0 < m" by simp
    from rd_grid [OF this m1 expo_ge m2] rx show ?thesis by simp
  qed
qed

lemma rd_pow2:
  assumes "- 1022 \<le> e"
  shows "rd (2 powi e) = 2 powi e"
proof -
  have g: "real_of_int (2 ^ 52) * 2 powi (e - 52) = 2 powi e"
    using pow2_split' [of e] by simp
  have "rd (real_of_int (2 ^ 52) * 2 powi (e - 52)) = real_of_int (2 ^ 52) * 2 powi (e - 52)"
    using assms by (intro rd_grid) simp_all
  then show ?thesis unfolding g .
qed

lemma rd_0: "rd 0 = 0"
  by (simp add: rd_def)

lemma rd_1: "rd 1 = 1"
  using rd_pow2 [of 0] by simp

lemma rd_2: "rd 2 = 2"
  using rd_pow2 [of 1] by simp

lemma huge_powi: "huge = 2 powi 1024"
  by (simp add: huge_def)

lemma pow2_less_huge: "e < 1024 \<Longrightarrow> 2 powi e < huge"
  unfolding huge_powi by (rule power_int_strict_increasing) simp_all

lemma big_pos: "0 < huge"
  unfolding huge_powi by (simp add: zero_less_power_int)

lemma fl_nonneg:
  assumes "0 \<le> r"
  shows "fl r = (if huge \<le> rd r then PosInf else Finite (rd r))"
proof -
  have "0 \<le> rd r" using assms by (rule rd_nonneg)
  then have "\<not> rd r \<le> - huge"
    using big_pos by linarith
  then show ?thesis by (simp add: fl_def Let_def)
qed

lemma fl_double:
  assumes "is_double d" and "0 \<le> d"
  shows "fl d = Finite d"
  using assms by (simp add: fl_nonneg is_double_def)

lemma is_double_rd:
  assumes "0 \<le> r" and "rd r < huge"
  shows "is_double (rd r)"
  using assms rd_nonneg [OF assms(1)] by (simp add: is_double_def rd_idem)

lemma is_double_0: "is_double 0"
  using big_pos by (simp add: is_double_def rd_0)

lemma one_small: "1 < huge"
  using pow2_less_huge [of 0] by simp

lemma is_double_1: "is_double 1"
  using one_small by (simp add: is_double_def rd_1)

lemma rd_one_plus:
  assumes "0 \<le> d" and "d \<le> 2 powi (- 54)"
  shows "rd (1 + d) = 1"
proof -
  define x :: real where "x = 1 + 2 powi (- 54)"
  have x1: "2 powi 0 \<le> x" by (simp add: x_def)
  have x2: "x < 2 powi (0 + 1)" by (simp add: x_def power_int_minus)
  have e: "expo x = 0" using x1 x2 by (rule expo_eqI) simp
  then have u: "ulp x = 2 powi (- 52)" by (simp add: ulp_def)
  have q: "x / 2 powi (- 52) = 18014398509481985 / 4"
    by (simp add: x_def power_int_minus field_simps)
  have "rne (18014398509481985 / 4) = 4503599627370496"
    by (simp add: rne_def Let_def)
  then have m: "rne (x / 2 powi (- 52)) = 4503599627370496"
    by (simp only: q)
  have "x \<noteq> 0" using x1 by simp
  then have "rd x = of_int (rne (x / ulp x)) * ulp x"
    by (simp add: rd_def)
  then have "rd x = of_int 4503599627370496 * 2 powi (- 52)"
    unfolding u m .
  then have "rd x = 1"
    by (simp add: power_int_minus)
  moreover have "rd (1 + d) \<le> rd x"
    using assms unfolding x_def by (intro rd_mono) simp_all
  moreover have "rd 1 \<le> rd (1 + d)"
    using assms(1) by (intro rd_mono) simp_all
  ultimately show ?thesis by (simp add: rd_1)
qed

lemma rd_between:
  assumes "- 1022 \<le> a" and "2 powi a \<le> x" and "x \<le> 2 powi b"
  shows "2 powi a \<le> rd x" "rd x \<le> 2 powi b"
proof -
  have p: "(0::real) < 2 powi a" by (simp add: zero_less_power_int)
  have "(2::real) powi a \<le> 2 powi b" using assms(2,3) by linarith
  then have ab: "a \<le> b"
    using power_int_strict_increasing [of b a "2::real"] by (cases "a \<le> b") simp_all
  have "rd (2 powi a) \<le> rd x" using p assms(2) by (intro rd_mono) simp_all
  then show "2 powi a \<le> rd x" using rd_pow2 [OF assms(1)] by simp
  have "rd x \<le> rd (2 powi b)" using p assms(2,3) by (intro rd_mono) linarith+
  then show "rd x \<le> 2 powi b" using rd_pow2 [of b] assms(1) ab by simp
qed

lemma literal_1e_20:
  "fl (1 / 10 ^ 20) = Finite (rd (1 / 10 ^ 20))"
  "0 < rd (1 / 10 ^ 20)" "rd (1 / 10 ^ 20) \<le> 2 powi (- 54)"
  "is_double (rd (1 / 10 ^ 20))"
proof -
  have a: "2 powi (- 70) \<le> (1 / 10 ^ 20 :: real)" by (simp add: power_int_minus field_simps)
  have b: "(1 / 10 ^ 20 :: real) \<le> 2 powi (- 54)" by (simp add: power_int_minus field_simps)
  note r = rd_between [OF _ a b]
  have p: "(0::real) < 2 powi (- 70)" by (simp add: zero_less_power_int)
  from r(1) p show pos: "0 < rd (1 / 10 ^ 20)" by simp
  from r(2) show up: "rd (1 / 10 ^ 20) \<le> 2 powi (- 54)" by simp
  have "2 powi (- 54) < huge" by (rule pow2_less_huge) simp
  with up have s: "rd (1 / 10 ^ 20) < huge" by linarith
  then show "fl (1 / 10 ^ 20) = Finite (rd (1 / 10 ^ 20))"
    by (simp add: fl_nonneg)
  from s show "is_double (rd (1 / 10 ^ 20))"
    by (intro is_double_rd) simp_all
qed

lemma literal_0_01:
  "fl (1 / 100) = Finite (rd (1 / 100))" "0 < rd (1 / 100)" "is_double (rd (1 / 100))"
proof -
  have a: "2 powi (- 7) \<le> (1 / 100 :: real)" by (simp add: power_int_minus field_simps)
  have b: "(1 / 100 :: real) \<le> 2 powi 0" by simp
  note r = rd_between [OF _ a b]
  have p: "(0::real) < 2 powi (- 7)" by (simp add: zero_less_power_int)
  from r(1) p show "0 < rd (1 / 100)" by simp
  from r(2) one_small have s: "rd (1 / 100) < huge" by simp
  then show "fl (1 / 100) = Finite (rd (1 / 100))"
    by (simp add: fl_nonneg)
  from s show "is_double (rd (1 / 100))"
    by (intro is_double_rd) simp_all
qed

lemma is_double_2: "is_double 2"
  using pow2_less_huge [of 1] by (simp add: is_double_def rd_2)

lemma rne_near:
  assumes "0 \<le> f" and "f < 1 / 2"
  shows "rne (of_int n + f) = n"
proof -
  have "\<lfloor>of_int n + f\<rfloor> = n"
    using assms by (intro floor_unique) simp_all
  with assms show ?thesis by (simp add: rne_def Let_def)
qed

lemma expo_eqI':
  assumes "2 powi e \<le> x" and "x < 2 powi e'" and "e' = e + 1" and "- 1022 \<le> e"
  shows "expo x = e"
  using assms by (intro expo_eqI) simp_all

text \<open>The binade below \<open>huge\<close>, in units of its last place.\<close>

lemma top_binade:
  "(2::real) powi 1023 = 2 ^ 52 * 2 powi 971"
  "huge = 2 ^ 53 * 2 powi 971"
  "(2::real) powi 970 = (1 / 2) * 2 powi 971"
proof -
  have "(1023::int) - 52 = 971" "(1023::int) + 1 = 1024" by simp_all
  with pow2_split' [of 1023] pow2_split [of 1023]
  show "(2::real) powi 1023 = 2 ^ 52 * 2 powi 971" "huge = 2 ^ 53 * 2 powi 971"
    unfolding huge_powi by simp_all
  have "(970::int) + 1 = 971" by simp
  with power_int_add_1' [of "2::real" 970]
  show "(2::real) powi 970 = (1 / 2) * 2 powi 971" by simp
qed

lemma rd_top:
  assumes "0 \<le> d" and "d < 2 powi 970"
  shows "rd (huge - 2 powi 971 + d) = huge - 2 powi 971"
proof -
  define u :: real where "u = 2 powi 971"
  have u: "0 < u" by (simp add: u_def zero_less_power_int)
  note tb = top_binade [folded u_def]
  define x where "x = huge - u + d"
  have xs: "x = (2 ^ 53 - 1) * u + d"
    unfolding x_def tb(2) by (simp add: algebra_simps)
  have du: "d < (1 / 2) * u"
    using assms(2) unfolding tb(3) .
  have lo: "2 powi 1023 \<le> x"
    unfolding xs tb(1) using assms(1) u by (simp add: algebra_simps)
  have "x < 2 ^ 53 * u"
    using du u unfolding xs by (simp add: algebra_simps)
  then have hi: "x < 2 powi 1024"
    unfolding tb(2) [symmetric] huge_powi .
  have e: "expo x = 1023" using lo hi by (rule expo_eqI') simp_all
  have "(1023::int) - 52 = 971" by simp
  with e have ux: "ulp x = u" by (simp only: ulp_def u_def)
  have "x / u = of_int (2 ^ 53 - 1) + d / u"
    using u unfolding xs by (simp add: field_simps)
  moreover have "0 \<le> d / u" "d / u < 1 / 2"
    using assms(1) du u by (simp_all add: field_simps)
  ultimately have m: "rne (x / u) = 2 ^ 53 - 1"
    using rne_near [of "d / u" "2 ^ 53 - 1"] by simp
  have "0 < x" using lo zero_less_power_int [of "2::real" 1023] by linarith
  then have "rd x = of_int (rne (x / ulp x)) * ulp x" by (simp add: rd_def)
  then have "rd x = of_int (2 ^ 53 - 1) * u" unfolding ux m .
  also have "\<dots> = huge - u" unfolding tb(2) by (simp add: algebra_simps)
  finally show ?thesis unfolding x_def u_def .
qed

lemma double_le_max:
  assumes "is_double v" and "0 \<le> v"
  shows "v \<le> huge - 2 powi 971"
proof (rule ccontr)
  define u :: real where "u = 2 powi 971"
  have u: "0 < u" by (simp add: u_def zero_less_power_int)
  note tb = top_binade [folded u_def]
  assume "\<not> v \<le> huge - 2 powi 971"
  then have gt: "(2 ^ 53 - 1) * u < v"
    unfolding u_def [symmetric] tb(2) by (simp add: algebra_simps)
  from assms have rv: "rd v = v" and lt: "v < huge"
    by (simp_all add: is_double_def)
  have lo: "2 powi 1023 \<le> v"
    using gt u unfolding tb(1) by (simp add: algebra_simps)
  have hi: "v < 2 powi 1024" using lt unfolding huge_powi .
  have e: "expo v = 1023" using lo hi by (rule expo_eqI') simp_all
  have "(1023::int) - 52 = 971" by simp
  with e have uv: "ulp v = u" by (simp only: ulp_def u_def)
  define m where "m = rne (v / u)"
  have "0 < v" using lo zero_less_power_int [of "2::real" 1023] by linarith
  then have "rd v = of_int (rne (v / ulp v)) * ulp v" by (simp add: rd_def)
  then have vm: "v = of_int m * u" unfolding uv m_def [symmetric] rv .
  from gt have "(2 ^ 53 - 1) * u < of_int m * u"
    unfolding vm .
  then have "(2 ^ 53 - 1 :: real) < of_int m" using u by simp
  then have "real_of_int (2 ^ 53 - 1) < of_int m" by simp
  then have 1: "2 ^ 53 - 1 < m" by (simp only: of_int_less_iff)
  from lt have "of_int m * u < 2 ^ 53 * u"
    unfolding tb(2) vm .
  then have "real_of_int m < 2 ^ 53" using u by simp
  then have "real_of_int m < of_int (2 ^ 53)" by simp
  then have 2: "m < 2 ^ 53" by (simp only: of_int_less_iff)
  from 1 2 show False by simp
qed

lemma sum_stays_finite:
  assumes "is_double v" and "0 \<le> v" and "0 \<le> d" and "d < 2 powi 970"
  shows "rd (v + d) < huge"
proof -
  have "v + d \<le> huge - 2 powi 971 + d"
    using double_le_max [OF assms(1,2)] by simp
  then have "rd (v + d) \<le> rd (huge - 2 powi 971 + d)"
    using assms(2,3) by (intro rd_mono) simp_all
  also have "\<dots> = huge - 2 powi 971"
    using assms(3,4) by (rule rd_top)
  also have "\<dots> < huge"
    by (simp add: zero_less_power_int)
  finally show ?thesis .
qed

section \<open>The covariance of the scalar filter\<close>

lemma cov_ok_fl:
  assumes "0 \<le> r"
  shows "cov_ok (fl r)"
  using assms rd_nonneg [OF assms] is_double_rd [OF assms]
  by (simp add: fl_nonneg cov_ok_def)

lemma predict_cov:
  assumes "cov_ok (kd_P00 k)" and "kd_Q k = Finite q" and "0 \<le> q"
  shows "cov_ok (kd_P00 (predict_d k))"
proof (cases "kd_P00 k")
  case (Finite v)
  with assms(1) have "0 \<le> v" by (simp add: cov_ok_def)
  with assms(3) have "0 \<le> v + q" by simp
  from cov_ok_fl [OF this] Finite assms(2) show ?thesis
    by (simp add: predict_d_def)
next
  case PosInf
  with assms(2) show ?thesis by (simp add: predict_d_def cov_ok_def)
next
  case NegInf
  with assms(1) show ?thesis by (simp add: cov_ok_def)
next
  case NaN
  with assms(2) show ?thesis by (simp add: predict_d_def cov_ok_def)
qed

text \<open>The innovation covariance of a state with a finite covariance.\<close>

lemma innovation_finite:
  assumes v: "0 \<le> v" "is_double v" and r: "0 < r" "is_double r"
  shows "r \<le> rd (v + r)" "v \<le> rd (v + r)"
    "js_add (Finite v) (Finite r) = (if huge \<le> rd (v + r) then PosInf else Finite (rd (v + r)))"
proof -
  have "rd r \<le> rd (v + r)" using v(1) r(1) by (intro rd_mono) simp_all
  then show "r \<le> rd (v + r)" using r(2) by (simp add: is_double_def)
  have "rd v \<le> rd (v + r)" using v(1) r(1) by (intro rd_mono) simp_all
  then show "v \<le> rd (v + r)" using v(2) by (simp add: is_double_def)
  have "0 \<le> v + r" using v(1) r(1) by simp
  then show "js_add (Finite v) (Finite r) =
      (if huge \<le> rd (v + r) then PosInf else Finite (rd (v + r)))"
    by (simp add: fl_nonneg)
qed

lemma update_cov_finite:
  assumes v: "0 \<le> v" "is_double v" and r: "0 < r" "is_double r"
    and k: "kd_P00 k = Finite v" "kd_R k = Finite r"
  shows "\<exists>p. kd_P00 (snd (update_d k z)) = Finite p \<and> 0 \<le> p \<and> p \<le> v \<and> is_double p"
proof -
  define s where "s = rd (v + r)"
  note S = innovation_finite [OF v r, folded s_def]
  have v1: "v < huge" using v by (simp add: is_double_def)
  show ?thesis
  proof (cases "huge \<le> s")
    case True
    then have "js_add (Finite v) (Finite r) = PosInf" using S(3) by simp
    then have "kd_P00 (snd (update_d k z)) = js_mul (js_sub (Finite 1) (Finite 0)) (Finite v)"
      using k by (simp add: update_d_def Let_def)
    also have "js_sub (Finite 1) (Finite 0) = Finite 1"
      using fl_double [OF is_double_1] by (simp add: js_sub_def)
    also have "js_mul (Finite 1) (Finite v) = Finite v"
      using fl_double [OF v(2,1)] by simp
    finally show ?thesis using v by simp
  next
    case False
    then have Ss: "js_add (Finite v) (Finite r) = Finite s" using S(3) by simp
    have s0: "0 < s" using S(1) r(1) by linarith
    define kap where "kap = rd (v / s)"
    have q0: "0 \<le> v / s" using v(1) s0 by simp
    have q1: "v / s \<le> 1" using S(2) s0 by simp
    have kap0: "0 \<le> kap" unfolding kap_def using q0 by (rule rd_nonneg)
    have kap1: "kap \<le> 1"
      unfolding kap_def using rd_mono [OF q0 q1] by (simp add: rd_1)
    have K0: "js_div (Finite v) (Finite s) = Finite kap"
      using s0 q0 kap1 one_small by (simp add: fl_nonneg kap_def [symmetric])
    define mu where "mu = rd (1 - kap)"
    have d0: "0 \<le> 1 - kap" using kap1 by simp
    have mu0: "0 \<le> mu" unfolding mu_def using d0 by (rule rd_nonneg)
    have mu1: "mu \<le> 1"
      unfolding mu_def using rd_mono [OF d0, of 1] kap0 by (simp add: rd_1)
    have M: "js_sub (Finite 1) (Finite kap) = Finite mu"
      using d0 mu1 one_small by (simp add: js_sub_def fl_nonneg mu_def [symmetric])
    have p0: "0 \<le> mu * v" using mu0 v(1) by simp
    have "mu * v \<le> 1 * v" using mu1 v(1) by (intro mult_right_mono) simp_all
    then have "rd (mu * v) \<le> rd v" using p0 by (intro rd_mono) simp_all
    then have pv: "rd (mu * v) \<le> v" using v(2) by (simp add: is_double_def)
    with v1 have small: "rd (mu * v) < huge" by linarith
    have "kd_P00 (snd (update_d k z)) = js_mul (js_sub (Finite 1) (Finite kap)) (Finite v)"
      using k Ss K0 by (simp add: update_d_def Let_def)
    also have "\<dots> = Finite (rd (mu * v))"
      using M p0 small by (simp add: fl_nonneg)
    finally show ?thesis
      using rd_nonneg [OF p0] is_double_rd [OF p0 small] pv by simp
  qed
qed

lemma update_cov:
  assumes "cov_ok (kd_P00 k)" and "kd_R k = Finite r" and "0 < r" and "is_double r"
  shows "cov_ok (kd_P00 (snd (update_d k z)))"
proof (cases "kd_P00 k")
  case (Finite v)
  with assms(1) have "0 \<le> v" "is_double v" by (simp_all add: cov_ok_def)
  from update_cov_finite [OF this assms(3,4) Finite assms(2), of z] show ?thesis
    by (auto simp: cov_ok_def)
next
  case PosInf
  with assms(2) show ?thesis
    by (simp add: update_d_def Let_def js_sub_def cov_ok_def)
next
  case NegInf
  with assms(1) show ?thesis by (simp add: cov_ok_def)
next
  case NaN
  with assms(2) show ?thesis
    by (simp add: update_d_def Let_def js_sub_def cov_ok_def)
qed

lemma kf_step_inv:
  assumes "cov_ok (kd_P00 k)" and "kd_Q k = Finite q" and "kd_R k = Finite r"
    and "0 \<le> q" and "0 < r" and "is_double r"
  shows "cov_ok (kd_P00 (kf_step k c)) \<and> kd_Q (kf_step k c) = Finite q
           \<and> kd_R (kf_step k c) = Finite r"
proof (cases c)
  case Predict
  with predict_cov [OF assms(1,2,4)] assms(2,3) show ?thesis
    by (simp add: predict_d_def)
next
  case (Update z)
  with update_cov [OF assms(1,3,5,6), of z] assms(2,3) show ?thesis
    by (simp add: update_d_def Let_def)
qed

lemma run_calls_inv:
  assumes "cov_ok (kd_P00 k)" and "kd_Q k = Finite q" and "kd_R k = Finite r"
    and "0 \<le> q" and "0 < r" and "is_double r"
  shows "cov_ok (kd_P00 (run_calls k cs)) \<and> kd_Q (run_calls k cs) = Finite q
           \<and> kd_R (run_calls k cs) = Finite r"
  using assms(1-3) unfolding run_calls_def
proof (induction cs arbitrary: k)
  case Nil
  then show ?case by simp
next
  case (Cons c cs)
  from kf_step_inv [OF Cons.prems assms(4-6), of c] Cons.IH [of "kf_step k c"]
  show ?case by simp
qed

lemma update_tiny_R:
  assumes "0 \<le> r" and "r \<le> 2 powi (- 54)"
  shows "update_d (new_KalmanFilter_d Q (Finite r)) (Finite 2) =
     (Finite 2,
      (new_KalmanFilter_d Q (Finite r))\<lparr>kd_x := Finite 2, kd_P00 := Finite 0\<rparr>)"
proof -
  have S: "fl (1 + r) = Finite 1"
    using assms one_small by (simp add: fl_nonneg rd_one_plus)
  have f1: "fl 1 = Finite 1" using fl_double [OF is_double_1] by simp
  have f0: "fl 0 = Finite 0" using fl_double [OF is_double_0] by simp
  have f2: "fl 2 = Finite 2" using fl_double [OF is_double_2] by simp
  show ?thesis
    by (simp add: update_d_def new_KalmanFilter_d_def Let_def S js_sub_def f0 f1 f2)
qed

lemma cov_fin_ok: "cov_fin p \<Longrightarrow> cov_ok p"
  by (simp add: cov_fin_def cov_ok_def split: jsnum.splits)

lemma predict_fin:
  assumes "cov_fin (kd_P00 k)" and "kd_Q k = Finite q" and "0 \<le> q" and "q < 2 powi 970"
  shows "cov_fin (kd_P00 (predict_d k))"
proof -
  from assms(1) obtain v where v: "kd_P00 k = Finite v" "0 \<le> v" "is_double v"
    by (auto simp: cov_fin_def split: jsnum.splits)
  have s: "rd (v + q) < huge"
    using v(3,2) assms(3,4) by (rule sum_stays_finite)
  have n: "0 \<le> v + q" using v(2) assms(3) by simp
  from s n v(1) assms(2) rd_nonneg [OF n] is_double_rd [OF n s] show ?thesis
    by (simp add: predict_d_def fl_nonneg cov_fin_def)
qed

lemma update_fin:
  assumes "cov_fin (kd_P00 k)" and "kd_R k = Finite r" and "0 < r" and "is_double r"
  shows "cov_fin (kd_P00 (snd (update_d k z)))"
proof -
  from assms(1) obtain v where v: "kd_P00 k = Finite v" "0 \<le> v" "is_double v"
    by (auto simp: cov_fin_def split: jsnum.splits)
  from update_cov_finite [OF v(2,3) assms(3,4) v(1) assms(2), of z] show ?thesis
    by (auto simp: cov_fin_def)
qed

lemma run_calls_fin:
  assumes "cov_fin (kd_P00 k)" and "kd_Q k = Finite q" and "kd_R k = Finite r"
    and "0 \<le> q" and "q < 2 powi 970" and "0 < r" and "is_double r"
  shows "cov_fin (kd_P00 (run_calls k cs))"
  using assms(1-3) unfolding run_calls_def
proof (induction cs arbitrary: k)
  case Nil
  then show ?case by simp
next
  case (Cons c cs)
  have "cov_fin (kd_P00 (kf_step k c)) \<and> kd_Q (kf_step k c) = Finite q
      \<and> kd_R (kf_step k c) = Finite r"
  proof (cases c)
    case Predict
    with predict_fin [OF Cons.prems(1,2) assms(4,5)] Cons.prems(2,3) show ?thesis
      by (simp add: predict_d_def)
  next
    case (Update z)
    with update_fin [OF Cons.prems(1,3) assms(6,7), of z] Cons.prems(2,3) show ?thesis
      by (simp add: update_d_def Let_def)
  qed
  with Cons.IH [of "kf_step k c"] show ?case by simp
qed

text \<open>
  Claim C10 as stated fails: the covariance entry P[0][0] does not stay strictly
  positive. \<open>new KalmanFilter(0.01, 1e-20)\<close> holds the two literals as the
  doubles nearest to them, both positive; \<open>update(2)\<close> on it computes
  \<open>S = 1 + 1e-20\<close>, which rounds to 1, the gain \<open>K[0] = 1 / 1 = 1\<close>, returns
  2, and stores \<open>P[0][0] = (1 - 1) * 1\<close>, exactly 0.
\<close>

theorem covariance_reaches_zero:
  "fl (1 / 100) = Finite (rd (1 / 100)) \<and> 0 < rd (1 / 100) \<and>
   fl (1 / 10 ^ 20) = Finite (rd (1 / 10 ^ 20)) \<and> 0 < rd (1 / 10 ^ 20) \<and>
   fst (update_d (new_KalmanFilter_d (fl (1 / 100)) (fl (1 / 10 ^ 20))) (Finite 2)) = Finite 2 \<and>
   kd_P00 (snd (update_d (new_KalmanFilter_d (fl (1 / 100)) (fl (1 / 10 ^ 20))) (Finite 2)))
     = Finite 0"
proof -
  have "0 \<le> rd (1 / 10 ^ 20)" using literal_1e_20(2) by simp
  from update_tiny_R [OF this literal_1e_20(3), of "fl (1 / 100)"]
  show ?thesis
    using literal_1e_20(1,2) literal_0_01(1,2) by simp
qed

text \<open>
  Claim C10, amended: for the scalar KalmanFilter constructed with doubles
  \<open>Q > 0\<close> and \<open>R > 0\<close>, after every sequence of \<open>predict()\<close> and
  \<open>update(z)\<close> calls (\<open>z\<close> any Number) \<open>R\<close> is unchanged and the
  covariance entry P[0][0] is never negative: it is a finite number that is 0 or
  more (it can be exactly 0), or \<open>Infinity\<close> or \<open>NaN\<close> once a sum has
  overflowed. The innovation covariance \<open>S = P[0][0] + R\<close> that the next
  \<open>update\<close> would compute is never zero, so the two divisions by \<open>S\<close>
  never divide by zero: \<open>S\<close> is a finite number that is \<open>R\<close> or more,
  \<open>Infinity\<close> or \<open>NaN\<close>. For \<open>Q\<close> below \<open>2 powi 970\<close> P[0][0]
  stays finite and \<open>S\<close> is \<open>R\<close> or more, finite or \<open>Infinity\<close>; for
  \<open>Q\<close> and \<open>R\<close> both below \<open>2 powi 970\<close>, \<open>S\<close> is finite and
  strictly positive.
\<close>

theorem covariance_never_negative:
  assumes "is_double q" and "0 < q" and "is_double r" and "0 < r"
  shows
    "(let k = run_calls (new_KalmanFilter_d (Finite q) (Finite r)) cs;
          S = js_add (kd_P00 k) (kd_R k)
      in kd_R k = Finite r \<and>
         (kd_P00 k = NaN \<or> kd_P00 k = PosInf \<or> (\<exists>p. kd_P00 k = Finite p \<and> 0 \<le> p)) \<and>
         S \<noteq> Finite 0 \<and>
         (S = NaN \<or> S = PosInf \<or> (\<exists>s. S = Finite s \<and> r \<le> s)) \<and>
         (q < 2 powi 970 \<longrightarrow>
            (\<exists>p. kd_P00 k = Finite p \<and> 0 \<le> p) \<and>
            (S = PosInf \<or> (\<exists>s. S = Finite s \<and> r \<le> s))) \<and>
         (q < 2 powi 970 \<and> r < 2 powi 970 \<longrightarrow> (\<exists>s. S = Finite s \<and> r \<le> s)))"
proof -
  define k where "k = run_calls (new_KalmanFilter_d (Finite q) (Finite r)) cs"
  define S where "S = js_add (kd_P00 k) (kd_R k)"
  have f0: "cov_fin (kd_P00 (new_KalmanFilter_d (Finite q) (Finite r)))"
    using is_double_1 by (simp add: new_KalmanFilter_d_def cov_fin_def)
  from run_calls_inv [OF cov_fin_ok [OF f0], of q r cs] assms
  have inv: "cov_ok (kd_P00 k)" "kd_R k = Finite r"
    by (simp_all add: new_KalmanFilter_d_def k_def)
  have fin: "cov_fin (kd_P00 k)" if "q < 2 powi 970"
    unfolding k_def using f0 _ _ _ that assms(4,3)
    by (rule run_calls_fin) (use assms(2) in \<open>simp_all add: new_KalmanFilter_d_def\<close>)
  have sum: "(js_add (Finite v) (Finite r) = PosInf \<or>
        (\<exists>s. js_add (Finite v) (Finite r) = Finite s \<and> r \<le> s))
      \<and> js_add (Finite v) (Finite r) \<noteq> Finite 0
      \<and> (r < 2 powi 970 \<longrightarrow> (\<exists>s. js_add (Finite v) (Finite r) = Finite s \<and> r \<le> s))"
    if v: "0 \<le> v" "is_double v" for v
  proof -
    note I = innovation_finite [OF v assms(4,3)]
    from I(1) assms(4) have nz: "rd (v + r) \<noteq> 0" by linarith
    have "rd (v + r) < huge" if "r < 2 powi 970"
      using v(2,1) _ that by (rule sum_stays_finite) (use assms(4) in simp)
    with I nz show ?thesis by auto
  qed
  have 1: "kd_P00 k = NaN \<or> kd_P00 k = PosInf \<or> (\<exists>p. kd_P00 k = Finite p \<and> 0 \<le> p)"
    using inv(1) by (cases "kd_P00 k") (simp_all add: cov_ok_def)
  have 2: "S \<noteq> Finite 0"
  proof (cases "kd_P00 k")
    case (Finite v)
    with inv(1) have "0 \<le> v" "is_double v" by (simp_all add: cov_ok_def)
    from sum [OF this] Finite inv(2) show ?thesis by (simp add: S_def)
  qed (use inv in \<open>simp_all add: S_def cov_ok_def\<close>)
  have 3: "(\<exists>p. kd_P00 k = Finite p \<and> 0 \<le> p) \<and> (S = PosInf \<or> (\<exists>s. S = Finite s \<and> r \<le> s))"
    if "q < 2 powi 970"
  proof -
    from fin [OF that] obtain v where v: "kd_P00 k = Finite v" "0 \<le> v" "is_double v"
      by (auto simp: cov_fin_def split: jsnum.splits)
    from sum [OF v(2,3)] v(1,2) inv(2) show ?thesis by (simp add: S_def)
  qed
  have 4: "\<exists>s. S = Finite s \<and> r \<le> s" if "q < 2 powi 970" "r < 2 powi 970"
  proof -
    from fin [OF that(1)] obtain v where v: "kd_P00 k = Finite v" "0 \<le> v" "is_double v"
      by (auto simp: cov_fin_def split: jsnum.splits)
    from sum [OF v(2,3)] that(2) v(1) inv(2) show ?thesis by (simp add: S_def)
  qed
  have 5: "S = NaN \<or> S = PosInf \<or> (\<exists>s. S = Finite s \<and> r \<le> s)"
  proof (cases "kd_P00 k")
    case (Finite v)
    with inv(1) have "0 \<le> v" "is_double v" by (simp_all add: cov_ok_def)
    from sum [OF this] Finite inv(2) show ?thesis by (simp add: S_def)
  qed (use inv in \<open>simp_all add: S_def cov_ok_def\<close>)
  from inv(2) 1 2 3 4 5 show ?thesis
    unfolding Let_def k_def [symmetric] S_def [symmetric] by blast
qed

theorem covariance_never_negative_witness:
  "is_double (rd (1 / 100)) \<and> 0 < rd (1 / 100) \<and> rd (1 / 100) < 2 powi 970 \<and>
   is_double (rd (1 / 10 ^ 20)) \<and> 0 < rd (1 / 10 ^ 20) \<and> rd (1 / 10 ^ 20) < 2 powi 970 \<and>
   kd_P00 (run_calls (new_KalmanFilter_d (Finite (rd (1 / 100))) (Finite (rd (1 / 10 ^ 20))))
             [Update (Finite 2)]) = Finite 0 \<and>
   (\<exists>s. js_add
          (kd_P00 (run_calls (new_KalmanFilter_d (Finite (rd (1 / 100))) (Finite (rd (1 / 10 ^ 20))))
             [Update (Finite 2)]))
          (kd_R (run_calls (new_KalmanFilter_d (Finite (rd (1 / 100))) (Finite (rd (1 / 10 ^ 20))))
             [Update (Finite 2)])) = Finite s \<and>
        rd (1 / 10 ^ 20) \<le> s)"
proof -
  have q: "rd (1 / 100) < 2 powi 970"
  proof -
    have "rd (1 / 100) \<le> rd 1" by (intro rd_mono) simp_all
    moreover have "(2::real) powi 0 < 2 powi 970"
      by (rule power_int_strict_increasing) simp_all
    ultimately show ?thesis by (simp add: rd_1)
  qed
  have r: "rd (1 / 10 ^ 20) < 2 powi 970"
  proof -
    have "(2::real) powi (- 54) < 2 powi 970"
      by (rule power_int_strict_increasing) simp_all
    with literal_1e_20(3) show ?thesis by linarith
  qed
  have "0 \<le> rd (1 / 10 ^ 20)" using literal_1e_20(2) by simp
  from update_tiny_R [OF this literal_1e_20(3), of "Finite (rd (1 / 100))"]
  have z: "kd_P00 (run_calls (new_KalmanFilter_d (Finite (rd (1 / 100))) (Finite (rd (1 / 10 ^ 20))))
             [Update (Finite 2)]) = Finite 0"
    by (simp add: run_calls_def)
  from covariance_never_negative [OF literal_0_01(3,2) literal_1e_20(4,2), of "[Update (Finite 2)]"]
    q r
  have "\<exists>s. js_add
          (kd_P00 (run_calls (new_KalmanFilter_d (Finite (rd (1 / 100))) (Finite (rd (1 / 10 ^ 20))))
             [Update (Finite 2)]))
          (kd_R (run_calls (new_KalmanFilter_d (Finite (rd (1 / 100))) (Finite (rd (1 / 10 ^ 20))))
             [Update (Finite 2)])) = Finite s \<and>
        rd (1 / 10 ^ 20) \<le> s"
    unfolding Let_def by blast
  with q r z literal_0_01(2,3) literal_1e_20(2,4) show ?thesis
    by blast
qed

section \<open>The scalar filter in exact arithmetic\<close>



section \<open>The confidence-keeping trackers, frame by frame\<close>

lemma ramp_bounds: "0 \<le> c \<Longrightarrow> 0 \<le> ramp c \<and> ramp c \<le> 1"
  by (simp add: ramp_def)

lemma decay_bounds: "c \<le> 1 \<Longrightarrow> 0 \<le> decay c \<and> decay c \<le> 1"
  by (simp add: decay_def)

lemma ramp_le_1: "ramp c \<le> 1"
  by (simp add: ramp_def)

lemma decay_ge_0: "0 \<le> decay c"
  by (simp add: decay_def)

subsection \<open>One frame of the hit-test tracker\<close>

lemma xr_hitTest_conf:
  "xr_planeConfidence (snd (snd (xr_hitTest s fr r))) =
     (if xr_hit fr then ramp (xr_planeConfidence s)
      else if xr_miss fr then decay (xr_planeConfidence s)
      else xr_planeConfidence s)"
  by (simp add: xr_hitTest_def xr_hit_def xr_miss_def Let_def
      split: outcome.splits list.splits option.splits)

lemma xr_hitTest_isTracking:
  "isTracking (fst (snd (xr_hitTest s fr r))) =
     (if xr_hit fr then 1 / 2 < ramp (xr_planeConfidence s) else isTracking r)"
  by (simp add: xr_hitTest_def xr_hit_def Let_def
      split: outcome.splits list.splits option.splits)

lemma xr_hitTest_pose:
  "xr_hit fr \<Longrightarrow>
     \<exists>p. tr_pose (fst (snd (xr_hitTest s fr r))) = Some p
        \<and> confidence p = Some (ramp (xr_planeConfidence s))"
  by (auto simp: xr_hitTest_def xr_hit_def Let_def
      split: outcome.splits list.splits option.splits)

lemma xr_processFrame_conf:
  "xr_planeConfidence (snd (xr_processFrame s frame)) =
     (case xr_live s frame of
        None \<Rightarrow> xr_planeConfidence s
      | Some fr \<Rightarrow>
          if xr_hit fr then ramp (xr_planeConfidence s)
          else if xr_miss fr then decay (xr_planeConfidence s)
          else xr_planeConfidence s)"
proof -
  have *: "xr_planeConfidence (snd (snd (xr_hitTest (s\<lparr>xr_viewerPose := v\<rparr>) fr r))) =
     (if xr_hit fr then ramp (xr_planeConfidence s)
      else if xr_miss fr then decay (xr_planeConfidence s)
      else xr_planeConfidence s)" for v fr r
    by (simp add: xr_hitTest_conf)
  show ?thesis
    using *
    by (auto simp: xr_processFrame_def xr_live_def Let_def case_prod_unfold
        split: outcome.splits option.splits)
qed

lemma xr_processFrame_isTracking:
  "isTracking (fst (xr_processFrame s frame)) =
     (case xr_live s frame of
        None \<Rightarrow> False
      | Some fr \<Rightarrow> xr_hit fr \<and> 1 / 2 < ramp (xr_planeConfidence s))"
proof -
  have *: "isTracking (fst (snd (xr_hitTest (s\<lparr>xr_viewerPose := v\<rparr>) fr xr_result0))) =
     (xr_hit fr \<and> 1 / 2 < ramp (xr_planeConfidence s))" for v fr
    by (simp add: xr_hitTest_isTracking xr_result0_def)
  have r0: "\<not> isTracking xr_result0" by (simp add: xr_result0_def)
  show ?thesis
    using * r0
    by (auto simp: xr_processFrame_def xr_live_def Let_def case_prod_unfold
        split: outcome.splits option.splits list.splits)
qed

lemma xr_processFrame_pose:
  assumes "isTracking (fst (xr_processFrame s frame))"
  shows "\<exists>p. tr_pose (fst (xr_processFrame s frame)) = Some p
           \<and> confidence p = Some (xr_planeConfidence (snd (xr_processFrame s frame)))"
proof -
  from assms obtain fr where live: "xr_live s frame = Some fr" and hit: "xr_hit fr"
    by (auto simp: xr_processFrame_isTracking split: option.splits)
  from live have fr: "frame = Some fr" and act: "xr_isSessionActive s" and src: "xr_xrHitTestSource s"
    by (auto simp: xr_live_def split: option.splits if_splits)
  from live fr obtain v where v: "getViewerPose fr = Returned (Some v)"
    by (auto simp: xr_live_def split: option.splits if_splits outcome.splits)
  from xr_hitTest_pose [OF hit, of "s\<lparr>xr_viewerPose := Some v\<rparr>" xr_result0]
  obtain p where p: "tr_pose (fst (snd (xr_hitTest (s\<lparr>xr_viewerPose := Some v\<rparr>) fr xr_result0))) = Some p"
    "confidence p = Some (ramp (xr_planeConfidence s))"
    by auto
  have fin: "fst (xr_hitTest (s\<lparr>xr_viewerPose := Some v\<rparr>) fr xr_result0)"
    using hit by (auto simp: xr_hitTest_def xr_hit_def Let_def split: outcome.splits list.splits option.splits)
  have "tr_pose (fst (xr_processFrame s frame)) = Some p"
    using fr act src v p(1) fin
    by (simp add: xr_processFrame_def Let_def case_prod_unfold split: list.splits)
  moreover have "xr_planeConfidence (snd (xr_processFrame s frame)) = ramp (xr_planeConfidence s)"
    using live hit by (simp add: xr_processFrame_conf)
  ultimately show ?thesis using p(2) by simp
qed

subsection \<open>One frame of the visual tracker\<close>

lemma trackFeatures_keeps:
  "ar_planeConfidence (snd (trackFeatures s t)) = ar_planeConfidence s"
  "ar_minInliers (snd (trackFeatures s t)) = ar_minInliers s"
  by (simp_all add: trackFeatures_def split: outcome.splits prod.splits bool.splits)

lemma detectPlane_conf:
  "ar_planeConfidence (snd (detectPlane s t)) =
     (if plane_fitted s t then ramp (ar_planeConfidence s) else decay (ar_planeConfidence s))"
  by (auto simp: detectPlane_def plane_fitted_def Let_def split: outcome.splits option.splits)

lemma detectPlane_result:
  "fst (detectPlane s t) = (plane_fitted s t \<and> 1 / 2 < ramp (ar_planeConfidence s))"
  by (auto simp: detectPlane_def plane_fitted_def Let_def split: outcome.splits option.splits)

lemma detectPlane_groundPlane:
  "plane_fitted s t \<Longrightarrow> ar_groundPlane (snd (detectPlane s t)) \<noteq> None"
  by (auto simp: detectPlane_def plane_fitted_def Let_def split: outcome.splits option.splits)

lemma estimatePose_conf:
  "ar_planeConfidence (snd (estimatePose s t)) = ar_planeConfidence s"
  by (simp add: estimatePose_def Let_def split: option.splits)

lemma estimatePose_result:
  "fst (estimatePose s t) = (ar_groundPlane s \<noteq> None \<and> \<not> doubleAtThrows t)"
  by (simp add: estimatePose_def Let_def split: option.splits)

lemma estimatePose_pose:
  "fst (estimatePose s t) \<Longrightarrow>
     \<exists>p. ar_currentPose (snd (estimatePose s t)) = Some p
        \<and> confidence p = Some (ar_planeConfidence s)"
  by (simp add: estimatePose_def Let_def split: option.splits if_splits)

lemma ar_allocate_conf: "ar_planeConfidence (detectFeatures (ar_allocate s t) t) = ar_planeConfidence s"
  by (simp add: ar_allocate_def detectFeatures_def)

lemma ar_track_conf:
  "ar_planeConfidence (snd (snd (ar_track s t r))) =
     (if 0 < ar_prevGrayFrame s \<and> 0 < length (ar_prevKeypoints s) then
        (case trackFeatures s t of
           (Returned True, s1) \<Rightarrow>
             if plane_fitted s1 t then ramp (ar_planeConfidence s) else decay (ar_planeConfidence s)
         | _ \<Rightarrow> ar_planeConfidence s)
      else ar_planeConfidence s)"
proof (cases "trackFeatures s t")
  case (Pair b s1)
  with trackFeatures_keeps(1) [of s t] have k: "ar_planeConfidence s1 = ar_planeConfidence s"
    by simp
  show ?thesis
    using Pair k
    by (simp add: ar_track_def Let_def case_prod_unfold detectPlane_conf estimatePose_conf
        split: outcome.splits bool.splits)
qed

lemma ar_track_isTracking:
  assumes "\<not> isTracking r"
  shows "isTracking (fst (snd (ar_track s t r))) =
     (0 < ar_prevGrayFrame s \<and> 0 < length (ar_prevKeypoints s) \<and>
      (case trackFeatures s t of
         (Returned True, s1) \<Rightarrow>
           plane_fitted s1 t \<and> 1 / 2 < ramp (ar_planeConfidence s) \<and> \<not> doubleAtThrows t
       | _ \<Rightarrow> False))"
proof (cases "trackFeatures s t")
  case (Pair b s1)
  with trackFeatures_keeps(1) [of s t] have k: "ar_planeConfidence s1 = ar_planeConfidence s"
    by simp
  have g: "plane_fitted s1 t \<Longrightarrow> ar_groundPlane (snd (detectPlane s1 t)) \<noteq> None"
    by (rule detectPlane_groundPlane)
  show ?thesis
    using Pair k assms g
    by (auto simp: ar_track_def Let_def case_prod_unfold detectPlane_result estimatePose_result
        split: outcome.splits bool.splits)
qed

lemma ar_track_pose:
  assumes "\<not> isTracking r" and "isTracking (fst (snd (ar_track s t r)))"
  shows "\<exists>p. tr_pose (fst (snd (ar_track s t r))) = Some p
           \<and> confidence p = Some (ar_planeConfidence (snd (snd (ar_track s t r))))"
proof (cases "trackFeatures s t")
  case (Pair b s1)
  have e: "fst (estimatePose s' t) \<Longrightarrow>
     \<exists>p. ar_currentPose (snd (estimatePose s' t)) = Some p
        \<and> confidence p = Some (ar_planeConfidence s')" for s'
    by (rule estimatePose_pose)
  show ?thesis
    using Pair assms e [of "snd (detectPlane s1 t)"]
    by (auto simp: ar_track_def Let_def case_prod_unfold estimatePose_conf
        split: outcome.splits bool.splits if_splits)
qed

lemma ar_processFrame_conf:
  "ar_planeConfidence (snd (ar_processFrame s t)) =
     (case ar_detecting s t of
        None \<Rightarrow> ar_planeConfidence s
      | Some s3 \<Rightarrow>
          if plane_fitted s3 t then ramp (ar_planeConfidence s) else decay (ar_planeConfidence s))"
proof -
  define s2 where "s2 = detectFeatures (ar_allocate s t) t"
  have c2: "ar_planeConfidence s2 = ar_planeConfidence s"
    by (simp add: s2_def ar_allocate_conf)
  have a: "ar_planeConfidence (ar_allocate s t) = ar_planeConfidence s"
    by (simp add: ar_allocate_def)
  obtain b s3 where tf: "trackFeatures s2 t = (b, s3)"
    by (cases "trackFeatures s2 t")
  show ?thesis
    using tf c2 a
    by (simp add: ar_processFrame_def ar_detecting_def Let_def case_prod_unfold ar_track_conf
        s2_def [symmetric] split: outcome.splits bool.splits)
qed

lemma ar_processFrame_isTracking:
  "isTracking (fst (ar_processFrame s t)) =
     (case ar_detecting s t of
        None \<Rightarrow> False
      | Some s3 \<Rightarrow> plane_fitted s3 t \<and> 1 / 2 < ramp (ar_planeConfidence s) \<and> \<not> doubleAtThrows t)"
proof -
  define s2 where "s2 = detectFeatures (ar_allocate s t) t"
  have c2: "ar_planeConfidence s2 = ar_planeConfidence s"
    by (simp add: s2_def ar_allocate_conf)
  have r0: "\<not> isTracking ((ar_result0 s)\<lparr>featureCount := n, hasFeatures := b\<rparr>)" for n b
    by (simp add: ar_result0_def)
  have r1: "\<not> isTracking (ar_result0 s)"
    by (simp add: ar_result0_def)
  obtain b s3 where tf: "trackFeatures s2 t = (b, s3)"
    by (cases "trackFeatures s2 t")
  show ?thesis
    using tf c2 r1
    by (simp add: ar_processFrame_def ar_detecting_def Let_def case_prod_unfold
        ar_track_isTracking [OF r0] s2_def [symmetric] split: outcome.splits bool.splits)
qed

lemma ar_processFrame_pose:
  assumes "isTracking (fst (ar_processFrame s t))"
  shows "\<exists>p. tr_pose (fst (ar_processFrame s t)) = Some p
           \<and> confidence p = Some (ar_planeConfidence (snd (ar_processFrame s t)))"
proof -
  define s2 where "s2 = detectFeatures (ar_allocate s t) t"
  have r0: "\<not> isTracking ((ar_result0 s)\<lparr>featureCount := n, hasFeatures := b\<rparr>)" for n b
    by (simp add: ar_result0_def)
  have r1: "\<not> isTracking (ar_result0 s)"
    by (simp add: ar_result0_def)
  note p = ar_track_pose [where s = s2 and t = t, OF r0]
  show ?thesis
    using assms r1 p
    by (auto simp: ar_processFrame_def Let_def case_prod_unfold s2_def [symmetric]
        split: if_splits)
qed




subsection \<open>One frame of the AREngine.js copy\<close>

lemma js_detectPlane_result: "fst (js_detectPlane s t) = js_plane_fitted s t"
  by (auto simp: js_detectPlane_def js_plane_fitted_def Let_def split: outcome.splits option.splits)

lemma js_detectPlane_groundPlane:
  "js_plane_fitted s t \<Longrightarrow> aj_groundPlane (snd (js_detectPlane s t)) \<noteq> None"
  by (auto simp: js_detectPlane_def js_plane_fitted_def Let_def split: outcome.splits option.splits)

lemma js_estimatePose_result:
  "fst (js_estimatePose s t) = (aj_groundPlane s \<noteq> None \<and> \<not> doubleAtThrows t)"
  by (simp add: js_estimatePose_def Let_def split: option.splits)

lemma js_estimatePose_pose:
  "fst (js_estimatePose s t) \<Longrightarrow>
     \<exists>p. aj_currentPose (snd (js_estimatePose s t)) = Some p
        \<and> confidence p = None \<and> vz (position p) = 1"
  by (simp add: js_estimatePose_def Let_def split: option.splits if_splits)

lemma js_track_isTracking:
  assumes "\<not> isTracking r"
  shows "isTracking (fst (snd (js_track s t r))) =
     (0 < aj_prevGrayFrame s \<and> 0 < length (aj_prevKeypoints s) \<and>
      (case js_trackFeatures s t of
         (Returned True, s1) \<Rightarrow> js_plane_fitted s1 t \<and> \<not> doubleAtThrows t
       | _ \<Rightarrow> False))"
proof (cases "js_trackFeatures s t")
  case (Pair b s1)
  have g: "js_plane_fitted s1 t \<Longrightarrow> aj_groundPlane (snd (js_detectPlane s1 t)) \<noteq> None"
    by (rule js_detectPlane_groundPlane)
  show ?thesis
    using Pair assms g
    by (auto simp: js_track_def Let_def case_prod_unfold js_detectPlane_result js_estimatePose_result
        split: outcome.splits bool.splits)
qed

lemma js_track_pose:
  assumes "\<not> isTracking r" and "isTracking (fst (snd (js_track s t r)))"
  shows "\<exists>p. tr_pose (fst (snd (js_track s t r))) = Some p
           \<and> aj_currentPose (snd (snd (js_track s t r))) = Some p
           \<and> confidence p = None \<and> vz (position p) = 1"
proof (cases "js_trackFeatures s t")
  case (Pair b s1)
  have e: "fst (js_estimatePose s' t) \<Longrightarrow>
     \<exists>p. aj_currentPose (snd (js_estimatePose s' t)) = Some p
        \<and> confidence p = None \<and> vz (position p) = 1" for s'
    by (rule js_estimatePose_pose)
  show ?thesis
    using Pair assms e [of "snd (js_detectPlane s1 t)"]
    by (auto simp: js_track_def Let_def case_prod_unfold
        split: outcome.splits bool.splits if_splits)
qed

lemma js_processFrame_isTracking:
  "isTracking (fst (js_processFrame s t)) =
     (case js_detecting s t of
        None \<Rightarrow> False
      | Some s3 \<Rightarrow> js_plane_fitted s3 t \<and> \<not> doubleAtThrows t)"
proof -
  define s2 where "s2 = js_detectFeatures (js_allocate s t) t"
  have r0: "\<not> isTracking ((js_result0 s)\<lparr>featureCount := n, hasFeatures := b\<rparr>)" for n b
    by (simp add: js_result0_def)
  have r1: "\<not> isTracking (js_result0 s)"
    by (simp add: js_result0_def)
  obtain b s3 where tf: "js_trackFeatures s2 t = (b, s3)"
    by (cases "js_trackFeatures s2 t")
  show ?thesis
    using tf r1
    by (simp add: js_processFrame_def js_detecting_def Let_def case_prod_unfold
        js_track_isTracking [OF r0] s2_def [symmetric] split: outcome.splits bool.splits)
qed

lemma js_processFrame_pose:
  assumes "isTracking (fst (js_processFrame s t))"
  shows "\<exists>p. tr_pose (fst (js_processFrame s t)) = Some p
           \<and> aj_currentPose (snd (js_processFrame s t)) = Some p
           \<and> confidence p = None \<and> vz (position p) = 1"
proof -
  define s2 where "s2 = js_detectFeatures (js_allocate s t) t"
  have r0: "\<not> isTracking ((js_result0 s)\<lparr>featureCount := n, hasFeatures := b\<rparr>)" for n b
    by (simp add: js_result0_def)
  have r1: "\<not> isTracking (js_result0 s)"
    by (simp add: js_result0_def)
  note p = js_track_pose [where s = s2 and t = t, OF r0]
  show ?thesis
    using assms r1 p
    by (auto simp: js_processFrame_def Let_def case_prod_unfold s2_def [symmetric]
        split: if_splits)
qed

subsection \<open>The sample inputs\<close>

lemma xr_live_sample:
  "xr_live (xr_with c) (Some hit_frame) = Some hit_frame"
  "xr_live (xr_with c) (Some miss_frame) = Some miss_frame"
  by (simp_all add: xr_live_def xr_with_def hit_frame_def miss_frame_def)

lemma xr_sample_frames:
  "xr_hit hit_frame" "\<not> xr_miss hit_frame" "xr_miss miss_frame" "\<not> xr_hit miss_frame"
  by (simp_all add: xr_hit_def xr_miss_def hit_frame_def miss_frame_def)

lemma xr_with_conf: "xr_planeConfidence (xr_with c) = c"
  by (simp add: xr_with_def)

lemma xr_with_after:
  "snd (xr_processFrame (xr_with c) (Some miss_frame)) =
     (xr_with (decay c))\<lparr>xr_viewerPose := Some \<lparr>views = [sample_transform]\<rparr>\<rparr>"
  by (simp add: xr_processFrame_def xr_hitTest_def xr_with_def miss_frame_def Let_def xr_result0_def
      new_WebXREngine_def)

lemma xr_live_after:
  "xr_live ((xr_with c)\<lparr>xr_viewerPose := v\<rparr>) (Some hit_frame) = Some hit_frame"
  by (simp add: xr_live_def xr_with_def hit_frame_def)

lemma sample_points_length: "length sample_points = 10"
  by (simp add: sample_points_def)

declare collect.simps [simp del]

lemma collect_step:
  "below_threshold minD (dm_distance m) \<Longrightarrow> queryIdx m < length prevKps
     \<Longrightarrow> trainIdx m < length kps \<Longrightarrow>
   collect minD prevKps kps (m # ms) acc =
     collect minD prevKps kps ms (acc @ [\<lparr>tp_prev = prevKps ! queryIdx m, tp_curr = kps ! trainIdx m\<rparr>])"
  by (simp add: collect.simps)

lemma sample_minDist:
  "minDist None [sample_match 0, sample_match 1, sample_match 2, sample_match 3, sample_match 4,
      sample_match 5, sample_match 6, sample_match 7, sample_match 8, sample_match 9] = Some 12"
  by (simp add: sample_match_def)

lemma sample_collect:
  "\<exists>pts. collect (Some 12) sample_points sample_points
     [sample_match 0, sample_match 1, sample_match 2, sample_match 3, sample_match 4,
      sample_match 5, sample_match 6, sample_match 7, sample_match 8, sample_match 9] []
     = (True, pts) \<and> length pts = 10"
  by (simp add: collect_step collect.simps(1) below_threshold_def sample_match_def
      sample_points_length)

lemma good_tick_fields:
  "videoWidth good_tick = 640" "videoHeight good_tick = 480" "\<not> captureThrows good_tick"
  "detected good_tick = sample_points" "detectedRows good_tick = 10"
  "matcher_match good_tick = Returned [sample_match 0, sample_match 1, sample_match 2,
     sample_match 3, sample_match 4, sample_match 5, sample_match 6, sample_match 7,
     sample_match 8, sample_match 9]"
  "\<not> doubleAtThrows good_tick" "\<not> finishThrows good_tick"
  by (simp_all add: good_tick_def)

lemma bad_tick_fields:
  "videoWidth bad_tick = 640" "videoHeight bad_tick = 480" "\<not> captureThrows bad_tick"
  "detected bad_tick = sample_points" "detectedRows bad_tick = 10"
  "matcher_match bad_tick = Returned [sample_match 0, sample_match 1, sample_match 2,
     sample_match 3, sample_match 4, sample_match 5, sample_match 6, sample_match 7,
     sample_match 8, sample_match 9]"
  "\<not> doubleAtThrows bad_tick" "\<not> finishThrows bad_tick"
  by (simp_all add: bad_tick_def good_tick_def)

lemma ar_with_primed: "ar_primed (ar_with c)"
  by (simp add: ar_primed_def ar_with_def new_AREngine_def)

lemma ar_with_conf: "ar_planeConfidence (ar_with c) = c"
  by (simp add: ar_with_def)

lemma primed_trackFeatures:
  assumes "ar_primed a"
    and t: "videoWidth t = 640" "videoHeight t = 480" "detected t = sample_points"
      "detectedRows t = 10"
      "matcher_match t = Returned [sample_match 0, sample_match 1, sample_match 2,
         sample_match 3, sample_match 4, sample_match 5, sample_match 6, sample_match 7,
         sample_match 8, sample_match 9]"
  shows "\<exists>d. trackFeatures (detectFeatures (ar_allocate a t) t) t = (Returned True, d)
           \<and> length (ar_trackedPoints d) = 10 \<and> ar_minInliers d = 10
           \<and> ar_keypoints d = sample_points \<and> ar_descriptors d = 10
           \<and> ar_frame d = Some (480, 640)"
proof -
  define ms where "ms = [sample_match 0, sample_match 1, sample_match 2,
         sample_match 3, sample_match 4, sample_match 5, sample_match 6, sample_match 7,
         sample_match 8, sample_match 9]"
  from sample_collect obtain pts where
    c: "collect (Some 12) sample_points sample_points ms [] = (True, pts)"
    and l: "length pts = 10"
    unfolding ms_def by blast
  have md: "minDist None ms = Some 12"
    unfolding ms_def by (rule sample_minDist)
  have lms: "length ms = 10"
    by (simp add: ms_def)
  define s2 where "s2 = detectFeatures (ar_allocate a t) t"
  have s2: "ar_prevKeypoints s2 = sample_points" "ar_keypoints s2 = sample_points"
    "ar_prevDescriptors s2 = ar_prevDescriptors a" "ar_descriptors s2 = 10"
    "ar_minInliers s2 = 10" "ar_frame s2 = Some (480, 640)"
    using assms(1) t(1-4)
    by (simp_all add: s2_def detectFeatures_def ar_allocate_def ar_primed_def)
  have pd: "0 < ar_prevDescriptors a"
    using assms(1) by (simp add: ar_primed_def)
  have mm: "matcher_match t = Returned ms"
    using t(5) by (simp add: ms_def)
  have "trackFeatures s2 t = (Returned True, s2\<lparr>ar_trackedPoints := pts\<rparr>)"
    by (simp add: trackFeatures_def s2 pd mm md c l lms sample_points_length)
  then show ?thesis
    by (simp add: s2_def [symmetric] s2 l)
qed

lemma primed_detecting:
  assumes "ar_primed a"
    and t: "videoWidth t = 640" "videoHeight t = 480" "\<not> captureThrows t"
      "detected t = sample_points" "detectedRows t = 10"
      "matcher_match t = Returned [sample_match 0, sample_match 1, sample_match 2,
         sample_match 3, sample_match 4, sample_match 5, sample_match 6, sample_match 7,
         sample_match 8, sample_match 9]"
  shows "\<exists>d. ar_detecting a t = Some d \<and> length (ar_trackedPoints d) = 10 \<and> ar_minInliers d = 10"
proof -
  from primed_trackFeatures [OF assms(1) t(1,2,4,5,6)]
  obtain d where d: "trackFeatures (detectFeatures (ar_allocate a t) t) t = (Returned True, d)"
    "length (ar_trackedPoints d) = 10" "ar_minInliers d = 10"
    by blast
  have "0 < ar_prevGrayFrame (detectFeatures (ar_allocate a t) t)"
    "0 < length (ar_prevKeypoints (detectFeatures (ar_allocate a t) t))"
    using assms(1) t(1,2)
    by (simp_all add: detectFeatures_def ar_allocate_def ar_primed_def sample_points_length)
  with d t show ?thesis
    by (simp add: ar_detecting_def Let_def)
qed

lemma good_tick_detecting:
  assumes "ar_primed a"
  shows "\<exists>d. ar_detecting a good_tick = Some d \<and> plane_fitted d good_tick"
proof -
  from primed_detecting [OF assms good_tick_fields(1-6)]
  obtain d where d: "ar_detecting a good_tick = Some d" "length (ar_trackedPoints d) = 10"
    "ar_minInliers d = 10"
    by blast
  then have "plane_fitted d good_tick"
    by (simp add: plane_fitted_def good_tick_def)
  with d show ?thesis by simp
qed

lemma bad_tick_detecting:
  assumes "ar_primed a"
  shows "\<exists>d. ar_detecting a bad_tick = Some d \<and> \<not> plane_fitted d bad_tick"
proof -
  from primed_detecting [OF assms bad_tick_fields(1-6)]
  obtain d where d: "ar_detecting a bad_tick = Some d" "length (ar_trackedPoints d) = 10"
    "ar_minInliers d = 10"
    by blast
  then have "\<not> plane_fitted d bad_tick"
    by (simp add: plane_fitted_def bad_tick_def good_tick_def)
  with d show ?thesis by simp
qed

lemma detectPlane_keeps:
  "ar_keypoints (snd (detectPlane s t)) = ar_keypoints s"
  "ar_descriptors (snd (detectPlane s t)) = ar_descriptors s"
  "ar_frame (snd (detectPlane s t)) = ar_frame s"
  "ar_minInliers (snd (detectPlane s t)) = ar_minInliers s"
  by (simp_all add: detectPlane_def Let_def split: outcome.splits option.splits)

lemma estimatePose_keeps:
  "ar_keypoints (snd (estimatePose s t)) = ar_keypoints s"
  "ar_descriptors (snd (estimatePose s t)) = ar_descriptors s"
  "ar_frame (snd (estimatePose s t)) = ar_frame s"
  "ar_minInliers (snd (estimatePose s t)) = ar_minInliers s"
  by (simp_all add: estimatePose_def Let_def split: option.splits)

lemma primed_after:
  assumes "ar_primed a"
    and t: "videoWidth t = 640" "videoHeight t = 480" "\<not> captureThrows t"
      "detected t = sample_points" "detectedRows t = 10"
      "matcher_match t = Returned [sample_match 0, sample_match 1, sample_match 2,
         sample_match 3, sample_match 4, sample_match 5, sample_match 6, sample_match 7,
         sample_match 8, sample_match 9]"
      "\<not> finishThrows t"
  shows "ar_primed (snd (ar_processFrame a t))"
proof -
  define s2 where "s2 = detectFeatures (ar_allocate a t) t"
  from primed_trackFeatures [OF assms(1) t(1,2,4,5,6)]
  obtain d where d: "trackFeatures s2 t = (Returned True, d)"
    "ar_minInliers d = 10" "ar_keypoints d = sample_points" "ar_descriptors d = 10"
    "ar_frame d = Some (480, 640)"
    unfolding s2_def by blast
  have pre: "0 < ar_prevGrayFrame s2" "0 < length (ar_prevKeypoints s2)"
    using assms(1) t(1,2)
    by (simp_all add: s2_def detectFeatures_def ar_allocate_def ar_primed_def sample_points_length)
  show ?thesis
    using d pre t(1,2,3,7)
    by (simp add: ar_processFrame_def s2_def [symmetric] Let_def case_prod_unfold ar_track_def
        ar_primed_def detectPlane_keeps estimatePose_keeps sample_points_length)
qed

lemma js_primed_trackFeatures:
  assumes "js_primed a"
    and t: "videoWidth t = 640" "videoHeight t = 480" "detected t = sample_points"
      "detectedRows t = 10"
      "matcher_match t = Returned [sample_match 0, sample_match 1, sample_match 2,
         sample_match 3, sample_match 4, sample_match 5, sample_match 6, sample_match 7,
         sample_match 8, sample_match 9]"
  shows "\<exists>d. js_trackFeatures (js_detectFeatures (js_allocate a t) t) t = (Returned True, d)
           \<and> length (aj_trackedPoints d) = 10 \<and> aj_minInliers d = 10"
proof -
  define ms where "ms = [sample_match 0, sample_match 1, sample_match 2,
         sample_match 3, sample_match 4, sample_match 5, sample_match 6, sample_match 7,
         sample_match 8, sample_match 9]"
  from sample_collect obtain pts where
    c: "collect (Some 12) sample_points sample_points ms [] = (True, pts)"
    and l: "length pts = 10"
    unfolding ms_def by blast
  have md: "minDist None ms = Some 12"
    unfolding ms_def by (rule sample_minDist)
  have lms: "length ms = 10"
    by (simp add: ms_def)
  define s2 where "s2 = js_detectFeatures (js_allocate a t) t"
  have s2: "aj_prevKeypoints s2 = sample_points" "aj_keypoints s2 = sample_points"
    "aj_prevDescriptors s2 = aj_prevDescriptors a" "aj_descriptors s2 = 10"
    "aj_minInliers s2 = 10"
    using assms(1) t(1-4)
    by (simp_all add: s2_def js_detectFeatures_def js_allocate_def js_primed_def)
  have pd: "0 < aj_prevDescriptors a"
    using assms(1) by (simp add: js_primed_def)
  have mm: "matcher_match t = Returned ms"
    using t(5) by (simp add: ms_def)
  have "js_trackFeatures s2 t = (Returned True, s2\<lparr>aj_trackedPoints := pts\<rparr>)"
    by (simp add: js_trackFeatures_def s2 pd mm md c l lms sample_points_length)
  then show ?thesis
    by (simp add: s2_def [symmetric] s2 l)
qed

lemma js_good_tick_detecting:
  assumes "js_primed a"
  shows "\<exists>d. js_detecting a good_tick = Some d \<and> js_plane_fitted d good_tick"
proof -
  from js_primed_trackFeatures [OF assms good_tick_fields(1,2,4,5,6)]
  obtain d where d: "js_trackFeatures (js_detectFeatures (js_allocate a good_tick) good_tick) good_tick
      = (Returned True, d)"
    "length (aj_trackedPoints d) = 10" "aj_minInliers d = 10"
    by blast
  have "0 < aj_prevGrayFrame (js_detectFeatures (js_allocate a good_tick) good_tick)"
    "0 < length (aj_prevKeypoints (js_detectFeatures (js_allocate a good_tick) good_tick))"
    using assms good_tick_fields(1,2)
    by (simp_all add: js_detectFeatures_def js_allocate_def js_primed_def sample_points_length)
  with d good_tick_fields(1-3) have "js_detecting a good_tick = Some d"
    by (simp add: js_detecting_def Let_def)
  moreover from d(2,3) have "js_plane_fitted d good_tick"
    by (simp add: js_plane_fitted_def good_tick_def)
  ultimately show ?thesis by simp
qed

lemma js_first_frame: "js_primed (snd (js_processFrame new_AREngine_js good_tick))"
  by (simp add: js_processFrame_def js_allocate_def js_detectFeatures_def js_track_def
      js_primed_def new_AREngine_js_def good_tick_fields Let_def)

lemma ar_first_frame:
  "ar_primed (snd (ar_processFrame new_AREngine good_tick))"
  "ar_planeConfidence (snd (ar_processFrame new_AREngine good_tick)) = 0"
  by (simp_all add: ar_processFrame_def ar_allocate_def detectFeatures_def ar_track_def
      ar_primed_def new_AREngine_def good_tick_fields Let_def)

section \<open>Bounds of the confidence\<close>

lemma xr_step_bounded:
  assumes "0 \<le> xr_planeConfidence x" "xr_planeConfidence x \<le> 1"
  shows "0 \<le> xr_planeConfidence (xr_step x e) \<and> xr_planeConfidence (xr_step x e) \<le> 1"
proof (cases e)
  case (XrFrame fr)
  then show ?thesis
    using assms ramp_bounds [of "xr_planeConfidence x"] decay_bounds [of "xr_planeConfidence x"]
    by (simp add: xr_processFrame_conf split: option.splits)
next
  case XrReset
  then show ?thesis by (simp add: xr_reset_def)
next
  case XrSessionEnd
  then show ?thesis by (simp add: xr_onSessionEnd_def)
next
  case XrStartSession
  then show ?thesis using assms by (simp add: xr_startSession_def)
qed

lemma xr_run_bounded:
  assumes "0 \<le> xr_planeConfidence x" "xr_planeConfidence x \<le> 1"
  shows "0 \<le> xr_planeConfidence (xr_run x es) \<and> xr_planeConfidence (xr_run x es) \<le> 1"
  using assms unfolding xr_run_def
proof (induction es arbitrary: x)
  case Nil
  then show ?case by simp
next
  case (Cons e es)
  from xr_step_bounded [OF Cons.prems, of e] Cons.IH [of "xr_step x e"]
  show ?case by simp
qed

lemma ar_step_bounded:
  assumes "0 \<le> ar_planeConfidence a" "ar_planeConfidence a \<le> 1"
  shows "0 \<le> ar_planeConfidence (ar_step a e) \<and> ar_planeConfidence (ar_step a e) \<le> 1"
proof (cases e)
  case (ArFrame t)
  then show ?thesis
    using assms ramp_bounds [of "ar_planeConfidence a"] decay_bounds [of "ar_planeConfidence a"]
    by (simp add: ar_processFrame_conf split: option.splits)
next
  case ArReset
  then show ?thesis using assms by (simp add: ar_reset_def)
next
  case (ArSetMinInliers n)
  then show ?thesis using assms by simp
qed

lemma ar_run_bounded:
  assumes "0 \<le> ar_planeConfidence a" "ar_planeConfidence a \<le> 1"
  shows "0 \<le> ar_planeConfidence (ar_run a es) \<and> ar_planeConfidence (ar_run a es) \<le> 1"
  using assms unfolding ar_run_def
proof (induction es arbitrary: a)
  case Nil
  then show ?case by simp
next
  case (Cons e es)
  from ar_step_bounded [OF Cons.prems, of e] Cons.IH [of "ar_step a e"]
  show ?case by simp
qed

text \<open>
  Claim C3. The plane confidence stays within [0, 1]. A detection that fits a
  plane (a hit, for the hit-test tracker) sets it to
  \<open>min 1 (c + 0.15)\<close>, a failed detection (a miss) to \<open>max 0 (c - 0.10)\<close>,
  and nothing else changes it but a reset to 0. Hence, from the constructed
  engine or from any engine whose confidence lies in [0, 1], whatever frames and
  resets follow (any number of successes or failures in a row among them), the
  confidence never exceeds 1 and never drops below 0.
\<close>

theorem plane_confidence_bounded:
  "ar_planeConfidence (snd (detectPlane a t)) =
     (if plane_fitted a t then min 1 (ar_planeConfidence a + 15 / 100)
      else max 0 (ar_planeConfidence a - 1 / 10)) \<and>
   xr_planeConfidence (snd (snd (xr_hitTest x fr r))) =
     (if xr_hit fr then min 1 (xr_planeConfidence x + 15 / 100)
      else if xr_miss fr then max 0 (xr_planeConfidence x - 1 / 10)
      else xr_planeConfidence x) \<and>
   0 \<le> ar_planeConfidence (ar_run new_AREngine aevs) \<and>
   ar_planeConfidence (ar_run new_AREngine aevs) \<le> 1 \<and>
   0 \<le> xr_planeConfidence (xr_run new_WebXREngine xevs) \<and>
   xr_planeConfidence (xr_run new_WebXREngine xevs) \<le> 1 \<and>
   (0 \<le> ar_planeConfidence a \<and> ar_planeConfidence a \<le> 1 \<longrightarrow>
      0 \<le> ar_planeConfidence (ar_run a aevs) \<and> ar_planeConfidence (ar_run a aevs) \<le> 1) \<and>
   (0 \<le> xr_planeConfidence x \<and> xr_planeConfidence x \<le> 1 \<longrightarrow>
      0 \<le> xr_planeConfidence (xr_run x xevs) \<and> xr_planeConfidence (xr_run x xevs) \<le> 1)"
proof -
  have "0 \<le> ar_planeConfidence (ar_run new_AREngine aevs) \<and>
        ar_planeConfidence (ar_run new_AREngine aevs) \<le> 1"
    by (rule ar_run_bounded) (simp_all add: new_AREngine_def)
  moreover have "0 \<le> xr_planeConfidence (xr_run new_WebXREngine xevs) \<and>
        xr_planeConfidence (xr_run new_WebXREngine xevs) \<le> 1"
    by (rule xr_run_bounded) (simp_all add: new_WebXREngine_def)
  moreover have "ar_planeConfidence (snd (detectPlane a t)) =
     (if plane_fitted a t then min 1 (ar_planeConfidence a + 15 / 100)
      else max 0 (ar_planeConfidence a - 1 / 10))"
    by (simp add: detectPlane_conf ramp_def decay_def)
  moreover have "xr_planeConfidence (snd (snd (xr_hitTest x fr r))) =
     (if xr_hit fr then min 1 (xr_planeConfidence x + 15 / 100)
      else if xr_miss fr then max 0 (xr_planeConfidence x - 1 / 10)
      else xr_planeConfidence x)"
    by (simp add: xr_hitTest_conf ramp_def decay_def)
  ultimately show ?thesis
    using ar_run_bounded [of a aevs] xr_run_bounded [of x xevs] by blast
qed

theorem plane_confidence_bounded_witness:
  "0 \<le> ar_planeConfidence (ar_with (95 / 100)) \<and> ar_planeConfidence (ar_with (95 / 100)) \<le> 1 \<and>
   0 \<le> ar_planeConfidence (ar_run (ar_with (95 / 100)) [ArFrame good_tick, ArFrame good_tick, ArReset]) \<and>
   ar_planeConfidence (ar_run (ar_with (95 / 100)) [ArFrame good_tick, ArFrame good_tick, ArReset]) \<le> 1 \<and>
   0 \<le> xr_planeConfidence (xr_with (5 / 100)) \<and> xr_planeConfidence (xr_with (5 / 100)) \<le> 1 \<and>
   0 \<le> xr_planeConfidence (xr_run (xr_with (5 / 100)) [XrFrame (Some miss_frame), XrFrame (Some miss_frame)]) \<and>
   xr_planeConfidence (xr_run (xr_with (5 / 100)) [XrFrame (Some miss_frame), XrFrame (Some miss_frame)]) \<le> 1"
  using plane_confidence_bounded [of "ar_with (95 / 100)" good_tick "xr_with (5 / 100)" miss_frame xr_result0
      "[ArFrame good_tick, ArFrame good_tick, ArReset]"
      "[XrFrame (Some miss_frame), XrFrame (Some miss_frame)]"]
  by (simp add: ar_with_conf xr_with_conf)

section \<open>Hysteresis\<close>

text \<open>
  Claim C2 as stated fails: a failed tick itself always reports
  \<open>isTracking = false\<close>, whatever the confidence. Here the hit-test tracker
  stands at confidence 0.6 and the visual tracker at confidence 1; one miss,
  respectively one failed fit, and the reported \<open>isTracking\<close> is false at once
  (the confidence is left at 0.5, respectively 0.9).
\<close>

theorem failed_tick_reports_not_tracking:
  "xr_planeConfidence (xr_with (6 / 10)) = 6 / 10 \<and>
   \<not> isTracking (fst (xr_processFrame (xr_with (6 / 10)) (Some miss_frame))) \<and>
   xr_planeConfidence (snd (xr_processFrame (xr_with (6 / 10)) (Some miss_frame))) = 1 / 2 \<and>
   ar_planeConfidence (ar_with 1) = 1 \<and>
   \<not> isTracking (fst (ar_processFrame (ar_with 1) bad_tick)) \<and>
   ar_planeConfidence (snd (ar_processFrame (ar_with 1) bad_tick)) = 9 / 10"
proof -
  obtain d where d: "ar_detecting (ar_with 1) bad_tick = Some d" "\<not> plane_fitted d bad_tick"
    using bad_tick_detecting [OF ar_with_primed] by blast
  then show ?thesis
    by (simp add: xr_processFrame_isTracking xr_processFrame_conf xr_live_sample xr_sample_frames
        xr_with_conf ar_processFrame_isTracking ar_processFrame_conf ar_with_conf decay_def)
qed

text \<open>
  Claim C2, amended. Once the confidence has reached 0.6, a single failed tick
  (one decay by 0.10) reports \<open>isTracking = false\<close> itself but leaves the
  confidence at 0.5 or more, so that the next tick, if it is a successful
  detection, reports \<open>isTracking = true\<close> at once, with no ramp to climb
  again. For the visual tracker the successful tick must also read its pose
  without an exception.
\<close>

theorem tracking_resumes_after_single_failure:
  "(6 / 10 \<le> xr_planeConfidence x \<and>
    xr_live x f1 = Some fr1 \<and> xr_miss fr1 \<and>
    xr_live (snd (xr_processFrame x f1)) f2 = Some fr2 \<and> xr_hit fr2 \<longrightarrow>
      \<not> isTracking (fst (xr_processFrame x f1)) \<and>
      xr_planeConfidence (snd (xr_processFrame x f1)) = xr_planeConfidence x - 1 / 10 \<and>
      isTracking (fst (xr_processFrame (snd (xr_processFrame x f1)) f2))) \<and>
   (6 / 10 \<le> ar_planeConfidence a \<and>
    ar_detecting a t1 = Some d1 \<and> \<not> plane_fitted d1 t1 \<and>
    ar_detecting (snd (ar_processFrame a t1)) t2 = Some d2 \<and> plane_fitted d2 t2 \<and>
    \<not> doubleAtThrows t2 \<longrightarrow>
      \<not> isTracking (fst (ar_processFrame a t1)) \<and>
      ar_planeConfidence (snd (ar_processFrame a t1)) = ar_planeConfidence a - 1 / 10 \<and>
      isTracking (fst (ar_processFrame (snd (ar_processFrame a t1)) t2)))"
proof -
  have up: "1 / 2 < ramp (decay c)" and down: "decay c = c - 1 / 10" if "6 / 10 \<le> c" for c :: real
    using that by (simp_all add: ramp_def decay_def)
  have xr_miss_not_hit: "\<not> xr_hit fr" if "xr_miss fr" for fr
    using that by (auto simp: xr_hit_def xr_miss_def split: outcome.splits list.splits)
  show ?thesis
    using up [of "xr_planeConfidence x"] down [of "xr_planeConfidence x"]
      up [of "ar_planeConfidence a"] down [of "ar_planeConfidence a"]
    by (auto simp: xr_processFrame_isTracking xr_processFrame_conf ar_processFrame_isTracking
        ar_processFrame_conf dest: xr_miss_not_hit)
qed

theorem tracking_resumes_after_single_failure_witness:
  "6 / 10 \<le> xr_planeConfidence (xr_with (6 / 10)) \<and>
   xr_live (xr_with (6 / 10)) (Some miss_frame) = Some miss_frame \<and> xr_miss miss_frame \<and>
   xr_live (snd (xr_processFrame (xr_with (6 / 10)) (Some miss_frame))) (Some hit_frame) = Some hit_frame \<and>
   xr_hit hit_frame \<and>
   \<not> isTracking (fst (xr_processFrame (xr_with (6 / 10)) (Some miss_frame))) \<and>
   isTracking (fst (xr_processFrame (snd (xr_processFrame (xr_with (6 / 10)) (Some miss_frame)))
      (Some hit_frame))) \<and>
   6 / 10 \<le> ar_planeConfidence (ar_with (6 / 10)) \<and>
   (\<exists>d1 d2. ar_detecting (ar_with (6 / 10)) bad_tick = Some d1 \<and> \<not> plane_fitted d1 bad_tick \<and>
      ar_detecting (snd (ar_processFrame (ar_with (6 / 10)) bad_tick)) good_tick = Some d2 \<and>
      plane_fitted d2 good_tick) \<and>
   \<not> doubleAtThrows good_tick \<and>
   \<not> isTracking (fst (ar_processFrame (ar_with (6 / 10)) bad_tick)) \<and>
   isTracking (fst (ar_processFrame (snd (ar_processFrame (ar_with (6 / 10)) bad_tick)) good_tick))"
proof -
  let ?x = "xr_with (6 / 10)" and ?a = "ar_with (6 / 10)"
  have x2: "xr_live (snd (xr_processFrame ?x (Some miss_frame))) (Some hit_frame) = Some hit_frame"
    by (simp add: xr_with_after xr_live_after)
  obtain d1 where d1: "ar_detecting ?a bad_tick = Some d1" "\<not> plane_fitted d1 bad_tick"
    using bad_tick_detecting [OF ar_with_primed] by blast
  have "ar_primed (snd (ar_processFrame ?a bad_tick))"
    by (rule primed_after [OF ar_with_primed bad_tick_fields(1-6,8)])
  then obtain d2 where d2: "ar_detecting (snd (ar_processFrame ?a bad_tick)) good_tick = Some d2"
    "plane_fitted d2 good_tick"
    using good_tick_detecting by blast
  show ?thesis
    using tracking_resumes_after_single_failure [of ?x "Some miss_frame" miss_frame "Some hit_frame"
        hit_frame ?a bad_tick d1 good_tick d2]
      x2 d1 d2
    by (simp add: xr_live_sample xr_sample_frames xr_with_conf ar_with_conf good_tick_fields)
qed

section \<open>Geodesic math and the geodetic tracker\<close>

subsection \<open>Bounds for pi\<close>

lemma cos_poly_bound:
  fixes x :: real
  assumes "0 < x"
  shows "\<bar>cos x - (1 - x^2 / 2 + x^4 / 24 - x^6 / 720 + x^8 / 40320)\<bar> \<le> x^10 / 3628800"
proof -
  from Maclaurin_cos_expansion2 [OF assms, of 10]
  obtain t where t: "cos x = (\<Sum>m<10. cos_coeff m * x ^ m) + (cos (t + 1/2 * real (10::nat) * pi) / fact 10) * x ^ 10"
    by auto
  have s: "(\<Sum>m<10. cos_coeff m * x ^ m) = 1 - x^2 / 2 + x^4 / 24 - x^6 / 720 + x^8 / 40320"
    by (simp add: lessThan_nat_numeral lessThan_Suc cos_coeff_def fact_numeral)
  have f: "fact 10 = (3628800::real)"
    by (simp add: eval_nat_numeral)
  have "\<bar>cos x - (1 - x^2 / 2 + x^4 / 24 - x^6 / 720 + x^8 / 40320)\<bar>
          = \<bar>cos (t + 1/2 * real (10::nat) * pi)\<bar> * (x ^ 10 / 3628800)"
    using assms by (simp add: t s f abs_mult)
  also have "\<dots> \<le> 1 * (x ^ 10 / 3628800)"
    using assms by (intro mult_right_mono) simp_all
  finally show ?thesis by simp
qed

lemma pi_lower: "3141 / 1000 < pi"
proof -
  let ?x = "15705 / 10000 :: real"
  have "\<bar>cos ?x - (1 - ?x^2 / 2 + ?x^4 / 24 - ?x^6 / 720 + ?x^8 / 40320)\<bar> \<le> ?x^10 / 3628800"
    by (rule cos_poly_bound) simp
  then have "(1 - ?x^2 / 2 + ?x^4 / 24 - ?x^6 / 720 + ?x^8 / 40320) - ?x^10 / 3628800 \<le> cos ?x"
    by linarith
  moreover have "0 < (1 - ?x^2 / 2 + ?x^4 / 24 - ?x^6 / 720 + ?x^8 / 40320) - ?x^10 / 3628800"
    by (simp add: power_divide)
  ultimately have "0 < cos ?x" by linarith
  have "?x < pi / 2"
  proof (rule ccontr)
    assume "\<not> ?x < pi / 2"
    then have "pi / 2 \<le> ?x" by simp
    moreover have "?x \<le> pi" using pi_ge_two by simp
    ultimately have "cos ?x \<le> cos (pi / 2)"
      by (intro cos_monotone_0_pi_le) simp_all
    with \<open>0 < cos ?x\<close> show False by simp
  qed
  then show ?thesis by simp
qed

lemma pi_upper: "pi < 3142 / 1000"
proof -
  let ?x = "1571 / 1000 :: real"
  have "\<bar>cos ?x - (1 - ?x^2 / 2 + ?x^4 / 24 - ?x^6 / 720 + ?x^8 / 40320)\<bar> \<le> ?x^10 / 3628800"
    by (rule cos_poly_bound) simp
  then have "cos ?x \<le> (1 - ?x^2 / 2 + ?x^4 / 24 - ?x^6 / 720 + ?x^8 / 40320) + ?x^10 / 3628800"
    by linarith
  moreover have "(1 - ?x^2 / 2 + ?x^4 / 24 - ?x^6 / 720 + ?x^8 / 40320) + ?x^10 / 3628800 < 0"
    by (simp add: power_divide)
  ultimately have neg: "cos ?x < 0" by linarith
  have "pi / 2 < ?x"
  proof (rule ccontr)
    assume "\<not> pi / 2 < ?x"
    then have "?x \<le> pi / 2" by simp
    then have "0 \<le> cos ?x"
      by (intro cos_ge_zero) simp_all
    with neg show False by simp
  qed
  then show ?thesis by simp
qed


subsection \<open>atan2 and the remainder\<close>

lemma atan2_range: "- pi < atan2 y x \<and> atan2 y x \<le> pi"
proof -
  have b: "- (pi / 2) < arctan (y / x)" "arctan (y / x) < pi / 2"
    by (rule arctan_lbound, rule arctan_ubound)
  consider "0 < x" | "x < 0" "0 \<le> y" | "x < 0" "y < 0" | "x = 0"
    by linarith
  then show ?thesis
  proof cases
    case 1
    then have "atan2 y x = arctan (y / x)" by (simp add: atan2_def)
    with b pi_gt_zero show ?thesis by linarith
  next
    case 2
    then have "y / x \<le> 0" by (simp add: divide_nonneg_neg)
    then have "arctan (y / x) \<le> 0" by simp
    moreover from 2 have "atan2 y x = arctan (y / x) + pi" by (simp add: atan2_def)
    ultimately show ?thesis using b pi_gt_zero by linarith
  next
    case 3
    then have "0 < y / x" by (simp add: divide_neg_neg)
    then have "0 < arctan (y / x)" by simp
    moreover from 3 have "atan2 y x = arctan (y / x) - pi" by (simp add: atan2_def)
    ultimately show ?thesis using b pi_gt_zero by linarith
  next
    case 4
    have "- pi < pi / 2" "- pi < - (pi / 2)" "pi / 2 \<le> pi" "- (pi / 2) \<le> pi"
      using pi_gt_zero by linarith+
    with 4 show ?thesis by (simp add: atan2_def)
  qed
qed

lemma atan2_nonneg: "0 \<le> y \<Longrightarrow> 0 \<le> atan2 y x"
proof -
  assume y: "0 \<le> y"
  have b: "- (pi / 2) < arctan (y / x)"
    by (rule arctan_lbound)
  consider "0 < x" | "x < 0" | "x = 0"
    by linarith
  then show ?thesis
  proof cases
    case 1
    with y have "0 \<le> arctan (y / x)" by simp
    with 1 show ?thesis by (simp add: atan2_def)
  next
    case 2
    with y have "atan2 y x = arctan (y / x) + pi" by (simp add: atan2_def)
    with b pi_gt_zero show ?thesis by linarith
  next
    case 3
    with y show ?thesis by (simp add: atan2_def)
  qed
qed

lemma atan2_sin_cos:
  assumes "0 \<le> h" and "h < pi / 2"
  shows "atan2 (sin h) (cos h) = h"
proof -
  have c: "0 < cos h"
    using assms by (intro cos_gt_zero_pi) simp_all
  have "arctan (sin h / cos h) = h"
    using assms arctan_tan [of h] by (simp add: tan_def)
  with c show ?thesis by (simp add: atan2_def)
qed

lemma js_rem_range:
  assumes "0 \<le> x" and "0 < m"
  shows "0 \<le> js_rem x m \<and> js_rem x m < m"
proof -
  have q: "0 \<le> x / m" using assms by simp
  have f: "of_int \<lfloor>x / m\<rfloor> \<le> x / m" "x / m < of_int \<lfloor>x / m\<rfloor> + 1"
    by linarith+
  have x: "m * (x / m) = x"
    using assms(2) by simp
  have "m * of_int \<lfloor>x / m\<rfloor> \<le> m * (x / m)"
    using f(1) assms(2) by (intro mult_left_mono) simp_all
  moreover have "m * (x / m) < m * (of_int \<lfloor>x / m\<rfloor> + 1)"
    using f(2) assms(2) by (intro mult_strict_left_mono) simp_all
  moreover have "m * (of_int \<lfloor>x / m\<rfloor> + 1) = m * of_int \<lfloor>x / m\<rfloor> + m"
    by (simp add: distrib_left)
  ultimately have "m * of_int \<lfloor>x / m\<rfloor> \<le> x" "x < m * of_int \<lfloor>x / m\<rfloor> + m"
    using x by linarith+
  with q show ?thesis by (simp add: js_rem_def)
qed

subsection \<open>The haversine quantity\<close>

lemma sin_half_sq: "sin (t / 2) * sin (t / 2) = (1 - cos t) / 2" for t :: real
  using cos_double_sin [of "t / 2"] by (simp add: power2_eq_square)

lemma haversine_a_eq:
  "1 - 2 * haversine_a lat1 lon1 lat2 lon2 =
     sin ((lat1 * pi) / 180) * sin ((lat2 * pi) / 180) +
     cos ((lat1 * pi) / 180) * cos ((lat2 * pi) / 180) * cos (((lon2 - lon1) * pi) / 180)"
proof -
  define p1 p2 dl where "p1 = (lat1 * pi) / 180" and "p2 = (lat2 * pi) / 180"
    and "dl = ((lon2 - lon1) * pi) / 180"
  have d: "((lat2 - lat1) * pi) / 180 = p2 - p1"
    by (simp add: p1_def p2_def algebra_simps diff_divide_distrib)
  have e1: "sin ((p2 - p1) / 2) * sin ((p2 - p1) / 2) = (1 - cos (p2 - p1)) / 2"
    by (rule sin_half_sq)
  have e2: "sin (dl / 2) * sin (dl / 2) = (1 - cos dl) / 2"
    by (rule sin_half_sq)
  have "haversine_a lat1 lon1 lat2 lon2 =
      sin ((p2 - p1) / 2) * sin ((p2 - p1) / 2) + cos p1 * cos p2 * sin (dl / 2) * sin (dl / 2)"
    unfolding haversine_a_def d by (simp only: p1_def p2_def dl_def)
  also have "\<dots> = (1 - cos (p2 - p1)) / 2 + cos p1 * (cos p2 * ((1 - cos dl) / 2))"
    by (simp only: mult.assoc e1 e2)
  also have "\<dots> = (1 - (sin p1 * sin p2 + cos p1 * cos p2 * cos dl)) / 2"
    by (simp add: cos_diff field_simps)
  finally have "1 - 2 * haversine_a lat1 lon1 lat2 lon2 = sin p1 * sin p2 + cos p1 * cos p2 * cos dl"
    by simp
  then show ?thesis
    by (simp only: p1_def p2_def dl_def)
qed

lemma unit_dot_bound:
  fixes s1 c1 s2 c2 k :: real
  assumes "s1\<^sup>2 + c1\<^sup>2 = 1" and "s2\<^sup>2 + c2\<^sup>2 = 1" and "\<bar>k\<bar> \<le> 1"
  shows "\<bar>s1 * s2 + c1 * c2 * k\<bar> \<le> 1"
proof -
  have a: "\<bar>s1 * s2\<bar> \<le> (s1\<^sup>2 + s2\<^sup>2) / 2"
    using sum_squares_bound [of "\<bar>s1\<bar>" "\<bar>s2\<bar>"] by (simp add: abs_mult)
  have b: "\<bar>c1 * c2\<bar> \<le> (c1\<^sup>2 + c2\<^sup>2) / 2"
    using sum_squares_bound [of "\<bar>c1\<bar>" "\<bar>c2\<bar>"] by (simp add: abs_mult)
  have "\<bar>c1 * c2 * k\<bar> = \<bar>c1 * c2\<bar> * \<bar>k\<bar>"
    by (simp add: abs_mult)
  also have "\<dots> \<le> \<bar>c1 * c2\<bar> * 1"
    using assms(3) by (intro mult_left_mono) simp_all
  finally have c: "\<bar>c1 * c2 * k\<bar> \<le> \<bar>c1 * c2\<bar>" by simp
  have "\<bar>s1 * s2 + c1 * c2 * k\<bar> \<le> \<bar>s1 * s2\<bar> + \<bar>c1 * c2 * k\<bar>"
    by (rule abs_triangle_ineq)
  also have "\<dots> \<le> (s1\<^sup>2 + s2\<^sup>2) / 2 + (c1\<^sup>2 + c2\<^sup>2) / 2"
    using a b c by linarith
  also have "\<dots> = 1"
    using assms(1,2) by (simp add: field_simps)
  finally show ?thesis .
qed

lemma haversine_a_bounds:
  "0 \<le> haversine_a lat1 lon1 lat2 lon2 \<and> haversine_a lat1 lon1 lat2 lon2 \<le> 1"
proof -
  have "\<bar>1 - 2 * haversine_a lat1 lon1 lat2 lon2\<bar> \<le> 1"
    unfolding haversine_a_eq
    by (rule unit_dot_bound) (simp_all add: abs_cos_le_one)
  then show ?thesis by linarith
qed

lemma calculateDistance_alt:
  "calculateDistance lat1 lon1 lat2 lon2 =
     6371000 * (2 * atan2 (sqrt (haversine_a lat1 lon1 lat2 lon2))
                          (sqrt (1 - haversine_a lat1 lon1 lat2 lon2)))"
  by (simp add: calculateDistance_def haversine_a_def Let_def)

lemma calculateDistance_nonneg: "0 \<le> calculateDistance lat1 lon1 lat2 lon2"
proof -
  have "0 \<le> sqrt (haversine_a lat1 lon1 lat2 lon2)"
    using haversine_a_bounds [of lat1 lon1 lat2 lon2] by simp
  then have "0 \<le> atan2 (sqrt (haversine_a lat1 lon1 lat2 lon2))
                         (sqrt (1 - haversine_a lat1 lon1 lat2 lon2))"
    by (rule atan2_nonneg)
  then show ?thesis by (simp add: calculateDistance_alt)
qed

lemma calculateDistance_same: "calculateDistance lat lon lat lon = 0"
  by (simp add: calculateDistance_def atan2_def)

text \<open>Along a meridian or along the equator the distance is the radius times the angle.\<close>

lemma haversine_arc:
  assumes "0 \<le> t" and "t < pi"
  shows "2 * atan2 (sqrt (sin (t / 2) * sin (t / 2))) (sqrt (1 - sin (t / 2) * sin (t / 2))) = t"
proof -
  have s: "0 \<le> sin (t / 2)"
    using assms by (intro sin_ge_zero) simp_all
  have c: "0 \<le> cos (t / 2)"
    using assms by (intro cos_ge_zero) simp_all
  have "1 - sin (t / 2) * sin (t / 2) = cos (t / 2) * cos (t / 2)"
    using sin_cos_squared_add [of "t / 2"] by (simp add: power2_eq_square algebra_simps)
  then have "sqrt (1 - sin (t / 2) * sin (t / 2)) = cos (t / 2)"
    using c by (simp add: real_sqrt_mult_self)
  moreover have "sqrt (sin (t / 2) * sin (t / 2)) = sin (t / 2)"
    using s by (simp add: real_sqrt_mult_self)
  moreover have "atan2 (sin (t / 2)) (cos (t / 2)) = t / 2"
    using assms by (intro atan2_sin_cos) simp_all
  ultimately show ?thesis by simp
qed

lemma calculateDistance_meridian:
  assumes "lat1 \<le> lat2" and "lat2 - lat1 < 180"
  shows "calculateDistance lat1 lon lat2 lon = 6371000 * (((lat2 - lat1) * pi) / 180)"
proof -
  have "0 \<le> ((lat2 - lat1) * pi) / 180" "((lat2 - lat1) * pi) / 180 < pi"
    using assms by simp_all
  from haversine_arc [OF this] show ?thesis
    by (simp add: calculateDistance_def Let_def)
qed

lemma calculateDistance_equator:
  assumes "lon1 \<le> lon2" and "lon2 - lon1 < 180"
  shows "calculateDistance 0 lon1 0 lon2 = 6371000 * (((lon2 - lon1) * pi) / 180)"
proof -
  have "0 \<le> ((lon2 - lon1) * pi) / 180" "((lon2 - lon1) * pi) / 180 < pi"
    using assms by simp_all
  from haversine_arc [OF this] show ?thesis
    by (simp add: calculateDistance_def Let_def)
qed

subsection \<open>The bearing\<close>

lemma calculateBearing_range:
  "0 \<le> calculateBearing lat1 lon1 lat2 lon2 \<and> calculateBearing lat1 lon1 lat2 lon2 < 360"
proof -
  define theta where "theta = atan2 (sin (((lon2 - lon1) * pi) / 180) * cos ((lat2 * pi) / 180))
     (cos ((lat1 * pi) / 180) * sin ((lat2 * pi) / 180) -
      sin ((lat1 * pi) / 180) * cos ((lat2 * pi) / 180) * cos (((lon2 - lon1) * pi) / 180))"
  have "- pi < theta" using atan2_range by (simp add: theta_def)
  then have "- 180 < (theta * 180) / pi"
    by (simp add: field_simps)
  then have "0 \<le> (theta * 180) / pi + 360" by simp
  from js_rem_range [OF this, of 360] show ?thesis
    by (simp add: calculateBearing_def Let_def theta_def)
qed

lemma calculateBearing_north:
  assumes "lat1 < lat2" and "lat2 - lat1 < 180"
  shows "calculateBearing lat1 lon lat2 lon = 0"
proof -
  have d: "(lat2 * pi) / 180 - (lat1 * pi) / 180 = ((lat2 - lat1) * pi) / 180"
    by (simp add: algebra_simps diff_divide_distrib)
  have p: "0 < sin (((lat2 - lat1) * pi) / 180)"
    using assms by (intro sin_gt_zero) simp_all
  have "sin ((lat2 * pi) / 180 - (lat1 * pi) / 180) =
      cos ((lat1 * pi) / 180) * sin ((lat2 * pi) / 180) -
      sin ((lat1 * pi) / 180) * cos ((lat2 * pi) / 180)"
    by (simp add: sin_diff)
  with p have "0 < cos ((lat1 * pi) / 180) * sin ((lat2 * pi) / 180) -
      sin ((lat1 * pi) / 180) * cos ((lat2 * pi) / 180)"
    unfolding d by linarith
  then show ?thesis
    by (simp add: calculateBearing_def atan2_def js_rem_def Let_def)
qed

lemma calculateBearing_east:
  assumes "lon1 < lon2" and "lon2 - lon1 < 180"
  shows "calculateBearing 0 lon1 0 lon2 = 90"
proof -
  have "0 < sin (((lon2 - lon1) * pi) / 180)"
    using assms by (intro sin_gt_zero) simp_all
  then show ?thesis
    by (simp add: calculateBearing_def atan2_def js_rem_def Let_def)
qed




text \<open>
  Claim C6. \<open>calculateBearing\<close> always lies in [0, 360); from (0, 0) the
  bearing to (1, 0) is 0 (due north) and the bearing to (0, 1) is 90 (due east).
\<close>

theorem calculateBearing_properties:
  "0 \<le> calculateBearing lat1 lon1 lat2 lon2 \<and> calculateBearing lat1 lon1 lat2 lon2 < 360 \<and>
   calculateBearing 0 0 1 0 = 0 \<and> calculateBearing 0 0 0 1 = 90"
  using calculateBearing_range [of lat1 lon1 lat2 lon2]
    calculateBearing_north [of 0 1 0] calculateBearing_east [of 0 1]
  by simp

subsection \<open>The geodetic tracker\<close>

lemma updateTracking_isTracking:
  "loc_isTracking (updateTracking s) =
     (case (loc_currentLocation s, loc_targetLocation s) of
        (Some cur, Some tgt) \<Rightarrow> trackable cur tgt
      | _ \<Rightarrow> False)"
  by (simp add: updateTracking_def updatePose_def trackable_def Let_def gpsAccuracyThreshold_def
      minDistance_def maxDistance_def split: option.splits)

lemma updateTracking_locations:
  "loc_currentLocation (updateTracking s) = loc_currentLocation s"
  "loc_targetLocation (updateTracking s) = loc_targetLocation s"
  by (simp_all add: updateTracking_def updatePose_def Let_def split: option.splits)

lemma loc_step_invariant:
  assumes "loc_isTracking s =
     (case (loc_currentLocation s, loc_targetLocation s) of
        (Some cur, Some tgt) \<Rightarrow> trackable cur tgt
      | _ \<Rightarrow> False)"
  shows "loc_isTracking (loc_step s e) =
     (case (loc_currentLocation (loc_step s e), loc_targetLocation (loc_step s e)) of
        (Some cur, Some tgt) \<Rightarrow> trackable cur tgt
      | _ \<Rightarrow> False)"
proof (cases e)
  case (LocationUpdate lf)
  then show ?thesis
    by (simp add: updateLocation_def updateTracking_isTracking updateTracking_locations)
next
  case (OrientationEvent ev)
  then show ?thesis using assms by simp
next
  case (SetTargetLocation lat lon alt)
  then show ?thesis
    by (simp add: setTargetLocation_def updateTracking_isTracking updateTracking_locations)
next
  case LocReset
  then show ?thesis by (simp add: loc_reset_def split: option.splits)
qed

lemma loc_run_invariant:
  assumes "loc_isTracking s =
     (case (loc_currentLocation s, loc_targetLocation s) of
        (Some cur, Some tgt) \<Rightarrow> trackable cur tgt
      | _ \<Rightarrow> False)"
  shows "loc_isTracking (loc_run s es) =
     (case (loc_currentLocation (loc_run s es), loc_targetLocation (loc_run s es)) of
        (Some cur, Some tgt) \<Rightarrow> trackable cur tgt
      | _ \<Rightarrow> False)"
  using assms unfolding loc_run_def
proof (induction es arbitrary: s)
  case Nil
  then show ?case by simp
next
  case (Cons e es)
  from Cons.IH [OF loc_step_invariant [OF Cons.prems]] show ?case by simp
qed

lemma sample_distance:
  "calculateDistance 37 (- 122) (37001 / 1000) (- 122) = 6371000 * ((1 / 1000) * pi / 180)"
  using calculateDistance_meridian [of 37 "37001 / 1000" "- 122"] by simp

lemma sample_distance_bounds:
  "11115 / 100 \<le> calculateDistance 37 (- 122) (37001 / 1000) (- 122)"
  "calculateDistance 37 (- 122) (37001 / 1000) (- 122) \<le> 11125 / 100"
  unfolding sample_distance using pi_lower pi_upper by linarith+

lemma sample_bearing: "calculateBearing 37 (- 122) (37001 / 1000) (- 122) = 0"
  using calculateBearing_north [of 37 "37001 / 1000" "- 122"] by simp

lemma sample_engine_fields:
  "loc_currentLocation sample_engine = Some sample_fix"
  "loc_targetLocation sample_engine = Some sample_target"
  "loc_distance sample_engine = Some (calculateDistance 37 (- 122) (37001 / 1000) (- 122))"
  "loc_bearing sample_engine = Some (calculateBearing 37 (- 122) (37001 / 1000) (- 122))"
  by (simp_all add: sample_engine_def loc_run_def updateLocation_def setTargetLocation_def
      updateTracking_def updatePose_def new_ARLocationEngine_def sample_fix_def sample_target_def
      Let_def)

lemma sample_trackable: "trackable sample_fix sample_target"
  using sample_distance_bounds
  by (simp add: trackable_def sample_fix_def sample_target_def)

lemma sample_engine_tracking: "loc_isTracking sample_engine"
proof -
  have "loc_isTracking (loc_run new_ARLocationEngine
          [LocationUpdate sample_fix, SetTargetLocation (37001 / 1000) (- 122) 0]) =
     (case (loc_currentLocation (loc_run new_ARLocationEngine
              [LocationUpdate sample_fix, SetTargetLocation (37001 / 1000) (- 122) 0]),
            loc_targetLocation (loc_run new_ARLocationEngine
              [LocationUpdate sample_fix, SetTargetLocation (37001 / 1000) (- 122) 0])) of
        (Some cur, Some tgt) \<Rightarrow> trackable cur tgt
      | _ \<Rightarrow> False)"
    by (rule loc_run_invariant) (simp add: new_ARLocationEngine_def)
  then have "loc_isTracking sample_engine =
     (case (loc_currentLocation sample_engine, loc_targetLocation sample_engine) of
        (Some cur, Some tgt) \<Rightarrow> trackable cur tgt
      | _ \<Rightarrow> False)"
    unfolding sample_engine_def [symmetric] .
  then show ?thesis
    using sample_trackable by (simp add: sample_engine_fields)
qed

text \<open>
  Claim C7. Whatever location updates, orientation events, target settings and
  resets the engine has seen since its construction: when it has both a current
  fix and a target, the \<open>isTracking\<close> it reports is true exactly when the fix's
  accuracy is at most 50 m and the distance lies between 5 m and 1000 m
  inclusive. In the scenario (fix (37.0, -122.0) with accuracy 5, target
  (37.001, -122.0, 0)) it reports \<open>isTracking = true\<close>, a distance within
  0.05 m of 111.2 m and the bearing 0.
\<close>

theorem geodetic_isTracking:
  "(loc_currentLocation (loc_run new_ARLocationEngine es) = Some cur \<and>
    loc_targetLocation (loc_run new_ARLocationEngine es) = Some tgt \<longrightarrow>
      isTracking (loc_processFrame (loc_run new_ARLocationEngine es)) =
        (accuracy cur \<le> 50 \<and>
         5 \<le> calculateDistance (latitude cur) (longitude cur)
                (target_latitude tgt) (target_longitude tgt) \<and>
         calculateDistance (latitude cur) (longitude cur)
                (target_latitude tgt) (target_longitude tgt) \<le> 1000)) \<and>
   isTracking (loc_processFrame sample_engine) \<and>
   (\<exists>d. gpsData (loc_processFrame sample_engine) =
           Some \<lparr>gps_currentLocation = Some sample_fix, gps_targetLocation = Some sample_target,
                 gps_distance = Some d, gps_bearing = Some 0\<rparr> \<and>
        \<bar>d - 1112 / 10\<bar> \<le> 5 / 100)"
proof -
  have inv: "loc_isTracking (loc_run new_ARLocationEngine evs) =
     (case (loc_currentLocation (loc_run new_ARLocationEngine evs),
            loc_targetLocation (loc_run new_ARLocationEngine evs)) of
        (Some cur, Some tgt) \<Rightarrow> trackable cur tgt
      | _ \<Rightarrow> False)" for evs
    by (rule loc_run_invariant) (simp add: new_ARLocationEngine_def)
  have 1: "isTracking (loc_processFrame (loc_run new_ARLocationEngine es)) =
        (accuracy cur \<le> 50 \<and>
         5 \<le> calculateDistance (latitude cur) (longitude cur)
                (target_latitude tgt) (target_longitude tgt) \<and>
         calculateDistance (latitude cur) (longitude cur)
                (target_latitude tgt) (target_longitude tgt) \<le> 1000)"
    if "loc_currentLocation (loc_run new_ARLocationEngine es) = Some cur"
      "loc_targetLocation (loc_run new_ARLocationEngine es) = Some tgt"
    using inv [of es] that by (simp add: loc_processFrame_def trackable_def)
  have 2: "isTracking (loc_processFrame sample_engine)"
    using sample_engine_tracking by (simp add: loc_processFrame_def)
  have 3: "\<bar>calculateDistance 37 (- 122) (37001 / 1000) (- 122) - 1112 / 10\<bar> \<le> 5 / 100"
    using sample_distance_bounds by (intro abs_leI) linarith+
  have 4: "gpsData (loc_processFrame sample_engine) =
           Some \<lparr>gps_currentLocation = Some sample_fix, gps_targetLocation = Some sample_target,
                 gps_distance = Some (calculateDistance 37 (- 122) (37001 / 1000) (- 122)),
                 gps_bearing = Some 0\<rparr>"
    by (simp add: loc_processFrame_def sample_engine_fields sample_bearing)
  from 1 2 3 4 show ?thesis by blast
qed

theorem geodetic_isTracking_witness:
  "loc_currentLocation (loc_run new_ARLocationEngine
      [LocationUpdate sample_fix, SetTargetLocation (37001 / 1000) (- 122) 0]) = Some sample_fix \<and>
   loc_targetLocation (loc_run new_ARLocationEngine
      [LocationUpdate sample_fix, SetTargetLocation (37001 / 1000) (- 122) 0]) = Some sample_target \<and>
   isTracking (loc_processFrame (loc_run new_ARLocationEngine
      [LocationUpdate sample_fix, SetTargetLocation (37001 / 1000) (- 122) 0])) =
     (accuracy sample_fix \<le> 50 \<and>
      5 \<le> calculateDistance (latitude sample_fix) (longitude sample_fix)
             (target_latitude sample_target) (target_longitude sample_target) \<and>
      calculateDistance (latitude sample_fix) (longitude sample_fix)
             (target_latitude sample_target) (target_longitude sample_target) \<le> 1000)"
  using geodetic_isTracking [of "[LocationUpdate sample_fix, SetTargetLocation (37001 / 1000) (- 122) 0]"
      sample_fix sample_target]
    sample_engine_fields(1,2)
  by (simp add: sample_engine_def)

section \<open>Confidence gating\<close>

subsection \<open>The geodetic tracker's confidence\<close>

lemma updatePose_confidence:
  assumes "0 \<le> accuracy cur" and "accuracy cur \<le> gpsAccuracyThreshold"
  shows "\<exists>p. loc_currentPose (updatePose s cur tgt dst brg) = Some p \<and> confidence p = Some 1"
proof (cases "accuracy cur = 0")
  case True
  then show ?thesis by (simp add: updatePose_def Let_def)
next
  case False
  with assms have "1 \<le> gpsAccuracyThreshold / accuracy cur"
    by (simp add: gpsAccuracyThreshold_def)
  with False show ?thesis by (simp add: updatePose_def Let_def)
qed

lemma updateTracking_confidence:
  assumes "\<forall>cur. loc_currentLocation s = Some cur \<longrightarrow> 0 \<le> accuracy cur"
    and "loc_isTracking (updateTracking s)"
  shows "\<exists>p. loc_currentPose (updateTracking s) = Some p \<and> confidence p = Some 1"
proof -
  from assms(2) obtain cur tgt where l: "loc_currentLocation s = Some cur" "loc_targetLocation s = Some tgt"
    by (auto simp: updateTracking_def split: option.splits)
  with assms(1) have a: "0 \<le> accuracy cur" by simp
  from assms(2) l have b: "accuracy cur \<le> gpsAccuracyThreshold"
    by (auto simp: updateTracking_def updatePose_def Let_def split: if_splits)
  from updatePose_confidence [OF a b] assms(2) l show ?thesis
    by (auto simp: updateTracking_def Let_def split: if_splits)
qed

lemma loc_step_settled:
  assumes "loc_settled s" and "case e of LocationUpdate lf \<Rightarrow> 0 \<le> accuracy lf | _ \<Rightarrow> True"
  shows "loc_settled (loc_step s e)"
proof (cases e)
  case (LocationUpdate lf)
  with assms(2) have a: "0 \<le> accuracy lf" by simp
  let ?s = "s\<lparr>loc_currentLocation := Some lf\<rparr>"
  have v: "\<forall>cur. loc_currentLocation ?s = Some cur \<longrightarrow> 0 \<le> accuracy cur"
    using a by simp
  from updateTracking_confidence [OF v] v LocationUpdate show ?thesis
    by (simp add: loc_settled_def updateLocation_def updateTracking_locations)
next
  case (OrientationEvent ev)
  with assms(1) show ?thesis by (simp add: loc_settled_def)
next
  case (SetTargetLocation lat lon alt)
  let ?s = "s\<lparr>loc_targetLocation := Some \<lparr>target_latitude = lat, target_longitude = lon,
                                       target_altitude = alt\<rparr>\<rparr>"
  have v: "\<forall>cur. loc_currentLocation ?s = Some cur \<longrightarrow> 0 \<le> accuracy cur"
    using assms(1) by (simp add: loc_settled_def)
  from updateTracking_confidence [OF v] v SetTargetLocation show ?thesis
    by (simp add: loc_settled_def setTargetLocation_def updateTracking_locations)
next
  case LocReset
  with assms(1) show ?thesis by (simp add: loc_settled_def loc_reset_def)
qed

lemma loc_run_settled:
  assumes "loc_settled s" and "\<forall>lf. LocationUpdate lf \<in> set es \<longrightarrow> 0 \<le> accuracy lf"
  shows "loc_settled (loc_run s es)"
  using assms unfolding loc_run_def
proof (induction es arbitrary: s)
  case Nil
  then show ?case by simp
next
  case (Cons e es)
  have "case e of LocationUpdate lf \<Rightarrow> 0 \<le> accuracy lf | _ \<Rightarrow> True"
    using Cons.prems(2) by (cases e) simp_all
  from loc_step_settled [OF Cons.prems(1) this] Cons.IH [of "loc_step s e"] Cons.prems(2)
  show ?case by simp
qed

text \<open>
  The gate of the trackers that keep a plane confidence. In the hit-test tracker
  and in the copy of the visual tracker that keeps \<open>planeConfidence\<close>, a
  \<open>TrackingResult\<close> with \<open>isTracking = true\<close> is only emitted when the
  confidence, as the tick leaves it, exceeds 0.5 (and that confidence is the one
  in the emitted pose); whenever the confidence is at or below 0.5, the result has
  \<open>isTracking = false\<close>. The geodetic tracker keeps no plane confidence; when
  it reports \<open>isTracking = true\<close>, the confidence in its pose is 1, provided
  every fix it was given has a non-negative accuracy.
\<close>

lemma confidence_keeping_trackers_gate:
  "(isTracking (fst (xr_processFrame x frame)) \<longrightarrow>
      1 / 2 < xr_planeConfidence (snd (xr_processFrame x frame)) \<and>
      (\<exists>p. tr_pose (fst (xr_processFrame x frame)) = Some p \<and>
           confidence p = Some (xr_planeConfidence (snd (xr_processFrame x frame))))) \<and>
   (xr_planeConfidence (snd (xr_processFrame x frame)) \<le> 1 / 2 \<longrightarrow>
      \<not> isTracking (fst (xr_processFrame x frame))) \<and>
   (isTracking (fst (ar_processFrame a t)) \<longrightarrow>
      1 / 2 < ar_planeConfidence (snd (ar_processFrame a t)) \<and>
      (\<exists>p. tr_pose (fst (ar_processFrame a t)) = Some p \<and>
           confidence p = Some (ar_planeConfidence (snd (ar_processFrame a t))))) \<and>
   (ar_planeConfidence (snd (ar_processFrame a t)) \<le> 1 / 2 \<longrightarrow>
      \<not> isTracking (fst (ar_processFrame a t))) \<and>
   ((\<forall>lf. LocationUpdate lf \<in> set es \<longrightarrow> 0 \<le> accuracy lf) \<and>
    isTracking (loc_processFrame (loc_run new_ARLocationEngine es)) \<longrightarrow>
      (\<exists>p. tr_pose (loc_processFrame (loc_run new_ARLocationEngine es)) = Some p \<and>
           confidence p = Some 1))"
proof -
  have xr: "1 / 2 < xr_planeConfidence (snd (xr_processFrame x frame))"
    if "isTracking (fst (xr_processFrame x frame))"
    using that
    by (auto simp: xr_processFrame_isTracking xr_processFrame_conf split: option.splits)
  have ar: "1 / 2 < ar_planeConfidence (snd (ar_processFrame a t))"
    if "isTracking (fst (ar_processFrame a t))"
    using that
    by (auto simp: ar_processFrame_isTracking ar_processFrame_conf split: option.splits)
  from xr have xr': "\<not> isTracking (fst (xr_processFrame x frame))"
    if "xr_planeConfidence (snd (xr_processFrame x frame)) \<le> 1 / 2"
    using that by fastforce
  from ar have ar': "\<not> isTracking (fst (ar_processFrame a t))"
    if "ar_planeConfidence (snd (ar_processFrame a t)) \<le> 1 / 2"
    using that by fastforce
  have loc: "\<exists>p. tr_pose (loc_processFrame (loc_run new_ARLocationEngine es)) = Some p \<and>
           confidence p = Some 1"
    if "\<forall>lf. LocationUpdate lf \<in> set es \<longrightarrow> 0 \<le> accuracy lf"
      and "isTracking (loc_processFrame (loc_run new_ARLocationEngine es))"
  proof -
    have "loc_settled new_ARLocationEngine"
      by (simp add: loc_settled_def new_ARLocationEngine_def)
    from loc_run_settled [OF this that(1)] that(2) show ?thesis
      by (simp add: loc_settled_def loc_processFrame_def)
  qed
  show ?thesis
    using xr xr' ar ar' loc xr_processFrame_pose [of x frame] ar_processFrame_pose [of a t]
    by blast
qed

text \<open>
  Claim C1, on the copy of the visual tracker in src/src/ar/AREngine.js. A newly
  constructed engine is given the same frame twice: the first call of
  \<open>processFrame\<close> only stores the keypoints, the second matches them and fits
  a plane. This copy reports \<open>isTracking = true\<close> on that first fit, with a
  pose that carries no confidence. The copy that keeps \<open>planeConfidence\<close>
  reports \<open>isTracking = false\<close> on the same two frames, its confidence being
  0.15 after one fit.
\<close>

theorem first_fit_reports_tracking:
  "isTracking (fst (js_processFrame (snd (js_processFrame new_AREngine_js good_tick)) good_tick)) \<and>
   map_option confidence
     (tr_pose (fst (js_processFrame (snd (js_processFrame new_AREngine_js good_tick)) good_tick)))
     = Some None \<and>
   \<not> isTracking (fst (ar_processFrame (snd (ar_processFrame new_AREngine good_tick)) good_tick)) \<and>
   ar_planeConfidence (snd (ar_processFrame (snd (ar_processFrame new_AREngine good_tick)) good_tick))
     = 15 / 100"
proof -
  define j where "j = snd (js_processFrame new_AREngine_js good_tick)"
  define a where "a = snd (ar_processFrame new_AREngine good_tick)"
  have jp: "js_primed j"
    unfolding j_def by (rule js_first_frame)
  from js_good_tick_detecting [OF jp]
  obtain d where d: "js_detecting j good_tick = Some d" "js_plane_fitted d good_tick"
    by blast
  then have 1: "isTracking (fst (js_processFrame j good_tick))"
    by (simp add: js_processFrame_isTracking good_tick_fields)
  from js_processFrame_pose [OF 1]
  have 2: "map_option confidence (tr_pose (fst (js_processFrame j good_tick))) = Some None"
    by auto
  have ap: "ar_primed a" and ac: "ar_planeConfidence a = 0"
    unfolding a_def by (rule ar_first_frame)+
  from good_tick_detecting [OF ap]
  obtain e where e: "ar_detecting a good_tick = Some e" "plane_fitted e good_tick"
    by blast
  then have 3: "\<not> isTracking (fst (ar_processFrame a good_tick))"
    by (simp add: ar_processFrame_isTracking ac ramp_def)
  from e have 4: "ar_planeConfidence (snd (ar_processFrame a good_tick)) = 15 / 100"
    by (simp add: ar_processFrame_conf ac ramp_def)
  from 1 2 3 4 show ?thesis
    unfolding j_def a_def by simp
qed

theorem first_fit_reports_tracking_witness:
  "\<not> captureThrows good_tick \<and> \<not> doubleAtThrows good_tick \<and> \<not> finishThrows good_tick \<and>
   js_primed (snd (js_processFrame new_AREngine_js good_tick)) \<and>
   isTracking (fst (js_processFrame (snd (js_processFrame new_AREngine_js good_tick)) good_tick)) \<and>
   ar_primed (snd (ar_processFrame new_AREngine good_tick)) \<and>
   \<not> isTracking (fst (ar_processFrame (snd (ar_processFrame new_AREngine good_tick)) good_tick))"
  using first_fit_reports_tracking js_first_frame ar_first_frame(1)
  by (simp add: good_tick_fields)

section \<open>Placement\<close>

text \<open>
  Claim C9. \<open>placeModel\<close> casts its ray from the normalised device coordinates
  (0, 0) against the plane of normal (0, 1, 0) and constant 0, whatever pose it is
  given. With a model loaded it returns true, marks the model placed, puts it at
  the intersection's x and z with y = 0 exactly, or at the fixed point
  (0, 0, -2) when the ray has no intersection with the plane, freezes that
  position in \<open>placedPosition\<close> and applies the current yaw setting. Without
  a model it returns false and leaves the scene manager as it was.
\<close>

theorem placeModel_properties:
  "(sm_model s = None \<longrightarrow> placeModel three s pose = (False, s)) \<and>
   (sm_model s \<noteq> None \<longrightarrow>
      fst (placeModel three s pose) \<and>
      sm_isModelPlaced (snd (placeModel three s pose)) \<and>
      sm_modelGroup_position (snd (placeModel three s pose)) =
        (case intersectPlane three (setFromCamera three \<lparr>px = 0, py = 0\<rparr> (sm_camera s))
                \<lparr>plane_normal = \<lparr>vx = 0, vy = 1, vz = 0\<rparr>, plane_constant = 0\<rparr> of
           Some ip \<Rightarrow> \<lparr>vx = vx ip, vy = 0, vz = vz ip\<rparr>
         | None \<Rightarrow> \<lparr>vx = 0, vy = 0, vz = - 2\<rparr>) \<and>
      vy (sm_modelGroup_position (snd (placeModel three s pose))) = 0 \<and>
      sm_placedPosition (snd (placeModel three s pose)) =
        sm_modelGroup_position (snd (placeModel three s pose)) \<and>
      sm_modelGroup_rotation_y (snd (placeModel three s pose)) = sm_modelRotation s * (pi / 180)) \<and>
   placeModel three s pose = placeModel three s pose'"
  by (auto simp: placeModel_def Let_def split: option.splits)

lemma sample_intersection:
  "intersectPlane sample_three (setFromCamera sample_three \<lparr>px = 0, py = 0\<rparr> (sm_camera sample_scene))
     \<lparr>plane_normal = \<lparr>vx = 0, vy = 1, vz = 0\<rparr>, plane_constant = 0\<rparr>
   = Some \<lparr>vx = 0, vy = 0, vz = - 3\<rparr>"
  by (simp add: sample_three_def sample_scene_def Ray_intersectPlane_def dot_def Let_def)

theorem placeModel_properties_witness:
  "sm_model sample_scene \<noteq> None \<and>
   fst (placeModel sample_three sample_scene None) \<and>
   sm_modelGroup_position (snd (placeModel sample_three sample_scene None)) = \<lparr>vx = 0, vy = 0, vz = - 3\<rparr> \<and>
   sm_modelGroup_rotation_y (snd (placeModel sample_three sample_scene None)) = 90 * (pi / 180) \<and>
   sm_model (sample_scene\<lparr>sm_model := None\<rparr>) = None \<and>
   placeModel sample_three (sample_scene\<lparr>sm_model := None\<rparr>) None = (False, sample_scene\<lparr>sm_model := None\<rparr>)"
proof -
  have m: "sm_model sample_scene \<noteq> None" "sm_modelRotation sample_scene = 90"
    "sm_model (sample_scene\<lparr>sm_model := None\<rparr>) = None"
    by (simp_all add: sample_scene_def)
  show ?thesis
    using placeModel_properties [of sample_scene sample_three None None]
      placeModel_properties [of "sample_scene\<lparr>sm_model := None\<rparr>" sample_three None None]
      m sample_intersection
    by simp
qed

section \<open>The loops and the pose filter\<close>













lemma xr_processFrame_planeCenter:
  assumes "tr_pose (fst (xr_processFrame s frame)) = Some p"
  shows "planeCenter p = None"
proof -
  have h: "tr_pose (fst (snd (xr_hitTest s' fr xr_result0))) = Some p \<Longrightarrow> planeCenter p = None"
    for s' fr
    by (auto simp: xr_hitTest_def xr_result0_def Let_def
        split: outcome.splits list.splits option.splits)
  show ?thesis
    using assms h
    by (auto simp: xr_processFrame_def xr_result0_def Let_def case_prod_unfold
        split: option.splits if_splits outcome.splits list.splits)
qed




text \<open>
  What the two calls that throw do to a tick. In the location loop a tick with a
  pose ends in \<open>updateCameraPose\<close>: nothing is rendered and no further
  frame is requested. In the OpenCV loop the same call is caught:
  \<open>updateModelPose\<close> is never reached, and the tick renders. In the WebXR
  loop \<open>updateModelPose\<close> is reached with a pose that has no plane centre,
  and the tick does not render.
\<close>

lemma location_tick_with_pose:
  assumes "app_isInitialized app" and "loc_currentPose e \<noteq> None"
  shows "tick_calls (startLocationLoop_tick app sm e) = [UpdateCameraPose (loc_currentPose e)]"
    "tick_uncaught (startLocationLoop_tick app sm e)"
    "\<not> tick_rescheduled (startLocationLoop_tick app sm e)"
  using assms
  by (auto simp: startLocationLoop_tick_def updateCameraPose_def loc_processFrame_def)

lemma ar_tick_never_updates_model:
  "UpdateModelPose p \<notin> set (tick_calls (startARLoop_tick processFrame app three sm ready ar t))"
  "\<not> tick_uncaught (startARLoop_tick processFrame app three sm ready ar t)"
  "tick_scene (startARLoop_tick processFrame app three sm ready ar t) = sm"
  by (auto simp: startARLoop_tick_def updateCameraPose_def Let_def case_prod_unfold)

lemma webxr_tick_with_pose:
  assumes "UpdateModelPose p \<in> set (tick_calls (startWebXRLoop_tick app three sm xr frame))"
  shows "tick_uncaught (startWebXRLoop_tick app three sm xr frame)"
    "Render \<notin> set (tick_calls (startWebXRLoop_tick app three sm xr frame))"
    "sm_lastPose (tick_scene (startWebXRLoop_tick app three sm xr frame)) = p"
proof -
  define tr where "tr = fst (xr_processFrame xr (Some frame))"
  from assms have i: "isTracking tr" and p: "p = tr_pose tr"
    by (auto simp: startWebXRLoop_tick_def tr_def Let_def case_prod_unfold
        split: if_splits completion.splits prod.splits)
  from xr_processFrame_pose [of xr "Some frame"] i obtain raw where raw: "tr_pose tr = Some raw"
    by (auto simp: tr_def)
  have c: "planeCenter raw = None"
    using raw xr_processFrame_planeCenter [of xr "Some frame" raw] by (simp add: tr_def)
  have u: "updateModelPose three s (Some raw) = (TypeError, s\<lparr>sm_lastPose := Some raw\<rparr>)" for s
    by (simp add: updateModelPose_def c)
  from assms raw u p
  show "tick_uncaught (startWebXRLoop_tick app three sm xr frame)"
    "Render \<notin> set (tick_calls (startWebXRLoop_tick app three sm xr frame))"
    "sm_lastPose (tick_scene (startWebXRLoop_tick app three sm xr frame)) = p"
    by (auto simp: startWebXRLoop_tick_def tr_def Let_def case_prod_unfold
        split: if_splits option.splits)
qed







end
